(* ===== verification/Prelude.thy ===== *)
theory Prelude
  imports Main "HOL-Library.Word"
begin

text \<open>
  The prelude of the Tarian development: the Go notions every component uses (slices that may be
  nil, maps in the order the runtime ranges over them, errors as values), the collections of
  rewrite rules the component proofs use, and the list lemmas they share.
\<close>

named_theorems go_simps \<open>unfolding rules of the Go primitives\<close>
named_theorems getters \<open>the nil-safe protobuf getters\<close>
named_theorems handler_defs \<open>the RPC handlers of the servers\<close>

section \<open>Slices\<close>

text \<open>
  A Go slice that the code compares with \<^verbatim>\<open>nil\<close> is an optional list: \<open>None\<close> is the nil slice,
  \<open>Some []\<close> the empty slice that is not nil. Ranging over a nil slice visits nothing.
\<close>

type_synonym 'a slice = "'a list option"

definition elems :: "'a slice \<Rightarrow> 'a list" where
  "elems s = (case s of None \<Rightarrow> [] | Some xs \<Rightarrow> xs)"

definition append1 :: "'a slice \<Rightarrow> 'a \<Rightarrow> 'a slice" where
  "append1 s x = Some (elems s @ [x])"

lemma elems_None [simp]: "elems None = []"
  by (simp add: elems_def)

lemma elems_Some [simp]: "elems (Some xs) = xs"
  by (simp add: elems_def)

lemma elems_append1 [simp]: "elems (append1 s x) = elems s @ [x]"
  by (simp add: append1_def)

lemma append1_not_nil [simp]: "append1 s x \<noteq> None"
  by (simp add: append1_def)

section \<open>Maps\<close>

text \<open>
  A Go \<^verbatim>\<open>map[string]V\<close> that the code ranges over is an association list; the order of the list is
  the order in which the runtime happens to range, and the theorems hold for every such order.
\<close>

type_synonym 'v gomap = "(string \<times> 'v) list"

definition map_delete :: "string \<Rightarrow> 'v gomap \<Rightarrow> 'v gomap" where
  "map_delete k m = filter (\<lambda>(k', _). k' \<noteq> k) m"

definition map_get :: "'v gomap \<Rightarrow> string \<Rightarrow> 'v option" where
  "map_get m k = map_of m k"

fun map_put :: "string \<Rightarrow> 'v \<Rightarrow> 'v gomap \<Rightarrow> 'v gomap" where
  "map_put k v [] = [(k, v)]"
| "map_put k v ((k', v') # m) = (if k = k' then (k, v) # m else (k', v') # map_put k v m)"

lemma map_get_delete: "map_get (map_delete k m) = (map_get m)(k := None)"
  by (rule ext, induction m) (auto simp: map_delete_def map_get_def)

lemma map_get_put: "map_get (map_put k v m) = (map_get m)(k \<mapsto> v)"
proof (rule ext, induction m)
  case Nil
  then show ?case by (simp add: map_get_def)
next
  case (Cons a m)
  then show ?case by (cases a) (auto simp: map_get_def)
qed

lemma keys_map_put: "fst ` set (map_put k v m) = insert k (fst ` set m)"
  by (induction k v m rule: map_put.induct) auto

lemma distinct_map_put: "distinct (map fst m) \<Longrightarrow> distinct (map fst (map_put k v m))"
proof (induction k v m rule: map_put.induct)
  case (2 k v k' v' m)
  have "k' \<in> fst ` set (map_put k v m) \<longleftrightarrow> k' = k \<or> k' \<in> fst ` set m"
    by (auto simp: keys_map_put)
  with 2 show ?case by (auto simp: image_iff)
qed simp

lemma distinct_map_delete: "distinct (map fst m) \<Longrightarrow> distinct (map fst (map_delete k m))"
  unfolding map_delete_def by (induction m) (auto simp: image_iff)

lemma map_get_SomeD: "map_get m k = Some v \<Longrightarrow> (k, v) \<in> set m"
  by (simp add: map_get_def map_of_SomeD)

lemma map_get_eq_Some_iff: "distinct (map fst m) \<Longrightarrow> map_get m k = Some v \<longleftrightarrow> (k, v) \<in> set m"
  by (simp add: map_get_def)

section \<open>Errors\<close>

text \<open>
  Go errors. \<open>NewError\<close> is \<^verbatim>\<open>errors.New\<close> or a \<^verbatim>\<open>fmt.Errorf\<close> without \<^verbatim>\<open>%w\<close>, \<open>Wrap\<close> is \<^verbatim>\<open>fmt.Errorf\<close>
  with one \<^verbatim>\<open>%w\<close> operand, \<open>StatusErr\<close> is a gRPC status, and \<open>ExtError\<close> an error that a library
  returned. The operand of \<^verbatim>\<open>%w\<close> may be a nil error: the result is an error all the same.
\<close>

datatype code = InvalidArgument | NotFound | Internal | Unimplemented

datatype go_error =
    NewError string
  | Wrap string "go_error option"
  | StatusErr code string
  | ExtError string

definition Errorf_w :: "string \<Rightarrow> go_error option \<Rightarrow> go_error option" where
  "Errorf_w fmt err = Some (Wrap fmt err)"

lemma Errorf_w_not_nil [simp]: "Errorf_w fmt err \<noteq> None"
  by (simp add: Errorf_w_def)

section \<open>Effects\<close>

text \<open>
  Code with effects takes the state of the world it acts on and returns it changed. A remote call
  is such a function whose result is an error or a reply.
\<close>

type_synonym ('w, 'a) io = "'w \<Rightarrow> 'a \<times> 'w"

type_synonym ('w, 'req, 'resp) rpc = "'req \<Rightarrow> ('w, go_error + 'resp) io"

section \<open>Lists\<close>

lemma filter_eq_NilI: "(\<And>x. x \<in> set xs \<Longrightarrow> \<not> P x) \<Longrightarrow> filter P xs = []"
  by (simp add: filter_empty_conv)

lemma distinct_map_inj: "distinct (map f xs) \<Longrightarrow> x \<in> set xs \<Longrightarrow> y \<in> set xs \<Longrightarrow> f x = f y \<Longrightarrow> x = y"
  by (auto simp: distinct_map dest: inj_onD)

lemma takeWhile_append_stop:
  "\<forall>x\<in>set xs. P x \<Longrightarrow> \<not> P y \<Longrightarrow> takeWhile P (xs @ y # ys) = xs"
  by (induction xs) auto

text \<open>A separator that does not occur on the left makes concatenation injective.\<close>

lemma append_sep_inject:
  assumes "c \<notin> set xs" and "c \<notin> set ys"
  shows "xs @ c # us = ys @ c # vs \<longleftrightarrow> xs = ys \<and> us = vs"
proof
  assume eq: "xs @ c # us = ys @ c # vs"
  have "xs = takeWhile (\<lambda>x. x \<noteq> c) (xs @ c # us)"
    using assms(1) by (subst takeWhile_append_stop) auto
  also have "\<dots> = takeWhile (\<lambda>x. x \<noteq> c) (ys @ c # vs)"
    by (simp only: eq)
  also have "\<dots> = ys"
    using assms(2) by (subst takeWhile_append_stop) auto
  finally show "xs = ys \<and> us = vs" using eq by simp
qed simp

end
