(* ===== verification/GoStrings.thy ===== *)
theory GoStrings
  imports Prelude
begin

text \<open>
  The functions of Go's \<^verbatim>\<open>strings\<close>, \<^verbatim>\<open>strconv\<close> and \<^verbatim>\<open>path\<close> packages that Tarian calls. A Go string is
  a sequence of bytes, which is what \<open>string\<close> is here; a substring \<^verbatim>\<open>s[i:j]\<close> counts bytes. Each
  definition is total where the Go function is; a separator passed to \<open>Split\<close> is never empty in
  this program.
\<close>

section \<open>Searching\<close>

definition HasPrefix :: "string \<Rightarrow> string \<Rightarrow> bool" where
  "HasPrefix s p = (take (length p) s = p)"

fun Index :: "string \<Rightarrow> string \<Rightarrow> int" where
  "Index [] sub = (if sub = [] then 0 else -1)"
| "Index (c # cs) sub =
     (if HasPrefix (c # cs) sub then 0
      else let i = Index cs sub in if i < 0 then -1 else i + 1)"

definition Contains :: "string \<Rightarrow> string \<Rightarrow> bool" where
  "Contains s sub = (Index s sub \<ge> 0)"

fun LastIndex :: "string \<Rightarrow> string \<Rightarrow> int" where
  "LastIndex [] sub = (if sub = [] then 0 else -1)"
| "LastIndex (c # cs) sub =
     (let i = LastIndex cs sub in
      if i \<ge> 0 then i + 1 else if HasPrefix (c # cs) sub then 0 else -1)"

lemma HasPrefix_iff: "HasPrefix s p \<longleftrightarrow> (\<exists>t. s = p @ t)"
  unfolding HasPrefix_def by (metis append_eq_conv_conj)

lemma HasPrefix_refl [simp]: "HasPrefix s s"
  by (simp add: HasPrefix_def)

lemma HasPrefix_append [simp]: "HasPrefix (p @ t) p"
  by (auto simp: HasPrefix_iff)

lemma HasPrefix_Nil [simp]: "HasPrefix s []"
  by (simp add: HasPrefix_def)

lemma HasPrefix_single: "HasPrefix s [c] \<longleftrightarrow> s \<noteq> [] \<and> hd s = c"
  by (cases s) (auto simp: HasPrefix_def)

lemma Index_ge_minus1: "Index s sub \<ge> -1"
  by (induction s sub rule: Index.induct) (auto simp: Let_def)

lemma Index_SomeD:
  "Index s sub = int i \<Longrightarrow> s = take i s @ sub @ drop (i + length sub) s"
proof (induction s sub arbitrary: i rule: Index.induct)
  case (1 sub)
  then show ?case by (auto split: if_splits)
next
  case (2 c cs sub)
  show ?case
  proof (cases "HasPrefix (c # cs) sub")
    case True
    with "2.prems" have "i = 0" by simp
    with True show ?thesis by (simp add: HasPrefix_def) (metis append_take_drop_id)
  next
    case False
    with "2.prems" obtain j where j: "Index cs sub = int j" and i: "i = Suc j"
      by (cases "Index cs sub" rule: int_cases) (auto simp: Let_def split: if_splits)
    from "2.IH"[OF False j] i show ?thesis by simp
  qed
qed

lemma Index_bound:
  "Index s sub = int i \<Longrightarrow> i + length sub \<le> length s"
proof (induction s sub arbitrary: i rule: Index.induct)
  case (1 sub)
  then show ?case by (auto split: if_splits)
next
  case (2 c cs sub)
  show ?case
  proof (cases "HasPrefix (c # cs) sub")
    case True
    then obtain t where "c # cs = sub @ t" by (auto simp: HasPrefix_iff)
    then have "length (c # cs) = length sub + length t" by (simp only: length_append)
    with True "2.prems" show ?thesis by simp
  next
    case False
    with "2.prems" obtain j where j: "Index cs sub = int j" and i: "i = Suc j"
      by (cases "Index cs sub" rule: int_cases) (auto simp: Let_def split: if_splits)
    from "2.IH"[OF False j] i show ?thesis by simp
  qed
qed

text \<open>For a one-byte pattern the index is the length of the part before its first occurrence.\<close>

lemma Index_char:
  "Index s [c] = (if c \<in> set s then int (length (takeWhile (\<lambda>x. x \<noteq> c) s)) else -1)"
  by (induction s) (auto simp: Let_def HasPrefix_single)

lemma Index_char_append: "c \<notin> set a \<Longrightarrow> Index (a @ c # b) [c] = int (length a)"
proof -
  assume "c \<notin> set a"
  then have "takeWhile (\<lambda>x. x \<noteq> c) (a @ c # b) = a"
    by (intro takeWhile_append_stop) auto
  then show ?thesis by (simp add: Index_char)
qed

lemma Index_char_none: "c \<notin> set s \<Longrightarrow> Index s [c] = -1"
  by (simp add: Index_char)

lemma LastIndex_char_none: "c \<notin> set s \<Longrightarrow> LastIndex s [c] = -1"
  by (induction s) (auto simp: Let_def HasPrefix_single)

lemma LastIndex_char_append:
  "c \<notin> set b \<Longrightarrow> LastIndex (a @ c # b) [c] = int (length a)"
  by (induction a) (auto simp: Let_def HasPrefix_single LastIndex_char_none)

lemma Contains_char: "Contains s [c] \<longleftrightarrow> c \<in> set s"
  by (simp add: Contains_def Index_char)

lemma Index_nonneg_infix: "(\<exists>a b. s = a @ sub @ b) \<Longrightarrow> Index s sub \<ge> 0"
proof (induction s sub rule: Index.induct)
  case (1 sub)
  then show ?case by simp
next
  case (2 c cs sub)
  show ?case
  proof (cases "HasPrefix (c # cs) sub")
    case False
    from "2.prems" obtain a b where ab: "c # cs = a @ sub @ b" by blast
    with False have "a \<noteq> []" by auto
    with ab have "\<exists>a' b'. cs = a' @ sub @ b'" by (auto simp: Cons_eq_append_conv)
    with "2.IH"[OF False] have "Index cs sub \<ge> 0" by simp
    with False show ?thesis by (simp add: Let_def)
  qed simp
qed

lemma Contains_iff: "Contains s sub \<longleftrightarrow> (\<exists>a b. s = a @ sub @ b)"
proof
  assume "Contains s sub"
  then obtain i where "Index s sub = int i" unfolding Contains_def by (metis nonneg_eq_int)
  then show "\<exists>a b. s = a @ sub @ b" using Index_SomeD by blast
next
  assume "\<exists>a b. s = a @ sub @ b"
  then show "Contains s sub" unfolding Contains_def by (rule Index_nonneg_infix)
qed

section \<open>Splitting and joining\<close>

function Split :: "string \<Rightarrow> string \<Rightarrow> string list" where
  "Split s sep =
     (if sep = [] \<or> Index s sep < 0 then [s]
      else take (nat (Index s sep)) s # Split (drop (nat (Index s sep) + length sep) s) sep)"
  by pat_completeness auto
termination
proof (relation "measure (\<lambda>(s, sep). length s)", goal_cases)
  case (2 s sep)
  then have "Index s sep = int (nat (Index s sep))" by simp
  from Index_bound[OF this] 2 show ?case
    by (cases sep) auto
qed simp

declare Split.simps [simp del]

fun Join :: "string list \<Rightarrow> string \<Rightarrow> string" where
  "Join [] sep = []"
| "Join [x] sep = x"
| "Join (x # y # xs) sep = x @ sep @ Join (y # xs) sep"

lemma Split_not_Nil [simp]: "Split s sep \<noteq> []"
  by (subst Split.simps) simp

lemma Join_Cons: "xs \<noteq> [] \<Longrightarrow> Join (x # xs) sep = x @ sep @ Join xs sep"
  by (cases xs) auto

text \<open>Splitting loses nothing: joining the parts with the separator gives the string back.\<close>

lemma Join_Split: "Join (Split s sep) sep = s"
proof (induction s sep rule: Split.induct)
  case (1 s sep)
  show ?case
  proof (cases "sep = [] \<or> Index s sep < 0")
    case True
    then show ?thesis by (subst Split.simps) simp
  next
    case False
    let ?i = "nat (Index s sep)"
    from False have "Index s sep = int ?i" by simp
    from Index_SomeD[OF this]
    have "take ?i s @ sep @ drop (?i + length sep) s = s" by simp
    with False 1 show ?thesis by (subst Split.simps) (simp add: Join_Cons)
  qed
qed

lemma Split_no_sep: "c \<notin> set s \<Longrightarrow> Split s [c] = [s]"
  by (subst Split.simps) (simp add: Index_char)

lemma Split_at_sep: "c \<notin> set a \<Longrightarrow> Split (a @ c # b) [c] = a # Split b [c]"
  by (subst Split.simps) (simp add: Index_char_append)

lemma Split_parts_no_sep: "p \<in> set (Split s [c]) \<Longrightarrow> c \<notin> set p"
proof (induction s "[c]" rule: Split.induct)
  case (1 s)
  show ?case
  proof (cases "c \<in> set s")
    case False
    with "1.prems" show ?thesis by (simp add: Split_no_sep)
  next
    case True
    let ?a = "takeWhile (\<lambda>x. x \<noteq> c) s"
    from True have i: "nat (Index s [c]) = length ?a" and nn: "\<not> Index s [c] < 0"
      by (simp_all add: Index_char)
    have "c \<notin> set ?a" by (auto dest: set_takeWhileD)
    moreover have "take (length ?a) s = ?a" by (metis takeWhile_eq_take)
    moreover have "p = take (length ?a) s \<or> p \<in> set (Split (drop (length ?a + 1) s) [c])"
      using "1.prems" nn i by (subst (asm) Split.simps) auto
    ultimately show ?thesis using "1.hyps" nn i by auto
  qed
qed

text \<open>Joining parts that hold no separator and splitting again gives the parts back.\<close>

lemma Split_Join:
  "xs \<noteq> [] \<Longrightarrow> (\<And>x. x \<in> set xs \<Longrightarrow> c \<notin> set x) \<Longrightarrow> Split (Join xs [c]) [c] = xs"
proof (induction xs "[c]" rule: Join.induct)
  case (3 x y xs)
  then show ?case by (simp add: Split_at_sep)
qed (auto simp: Split_no_sep)

lemma last_Split_append:
  "c \<notin> set b \<Longrightarrow> last (Split (a @ c # b) [c]) = b"
proof (induction "length a" arbitrary: a rule: less_induct)
  case less
  show ?case
  proof (cases "c \<in> set a")
    case False
    with less.prems show ?thesis by (simp add: Split_at_sep Split_no_sep)
  next
    case True
    then obtain u v where a: "a = u @ c # v" and u: "c \<notin> set u"
      by (meson split_list_first)
    then have "length v < length a" by simp
    from less.hyps[OF this less.prems] a u show ?thesis
      by (simp add: Split_at_sep)
  qed
qed

section \<open>Trimming and replacing\<close>

definition Trim :: "string \<Rightarrow> string \<Rightarrow> string" where
  "Trim s cutset = rev (dropWhile (\<lambda>c. c \<in> set cutset) (rev (dropWhile (\<lambda>c. c \<in> set cutset) s)))"

text \<open>\<^verbatim>\<open>TrimSpace\<close> on the ASCII white space; the annotation values it is applied to are ASCII.\<close>

definition ascii_space :: "char list" where
  "ascii_space = [CHR '' '', CHR 0x09, CHR 0x0A, CHR 0x0B, CHR 0x0C, CHR 0x0D]"

definition TrimSpace :: "string \<Rightarrow> string" where
  "TrimSpace s = Trim s ascii_space"

text \<open>\<^verbatim>\<open>strings.Replace(s, "\n", "", -1)\<close>: every occurrence of a one-byte string is removed.\<close>

definition remove_char :: "char \<Rightarrow> string \<Rightarrow> string" where
  "remove_char c s = filter (\<lambda>x. x \<noteq> c) s"

lemma Trim_id: "s = [] \<or> hd s \<notin> set cutset \<and> last s \<notin> set cutset \<Longrightarrow> Trim s cutset = s"
proof -
  assume *: "s = [] \<or> hd s \<notin> set cutset \<and> last s \<notin> set cutset"
  then have "dropWhile (\<lambda>c. c \<in> set cutset) s = s" by (cases s) auto
  moreover from * have "dropWhile (\<lambda>c. c \<in> set cutset) (rev s) = rev s"
    by (cases s rule: rev_cases) auto
  ultimately show ?thesis by (simp add: Trim_def)
qed

lemma Trim_surround:
  assumes "set l \<subseteq> set cutset" "set r \<subseteq> set cutset"
    and "s = [] \<or> hd s \<notin> set cutset \<and> last s \<notin> set cutset"
  shows "Trim (l @ s @ r) cutset = s"
proof -
  let ?P = "\<lambda>c. c \<in> set cutset"
  have *: "\<forall>x\<in>set l. ?P x" "\<forall>x\<in>set r. ?P x" using assms by auto
  show ?thesis
  proof (cases "s = []")
    case True
    from * have "dropWhile ?P (l @ r) = []"
      by (simp only: dropWhile_eq_Nil_conv set_append) blast
    then show ?thesis unfolding Trim_def True append_Nil by (simp only:) simp
  next
    case False
    with assms(3) have hd: "\<not> ?P (hd s)" and lst: "\<not> ?P (last s)" by auto
    have "dropWhile ?P (l @ s @ r) = s @ r"
      using * hd False by (subst dropWhile_append2) (auto simp: dropWhile_eq_self_iff)
    moreover have "dropWhile ?P (rev r @ rev s) = rev s"
      using * lst False by (subst dropWhile_append2) (auto simp: dropWhile_eq_self_iff hd_rev)
    ultimately show ?thesis by (simp add: Trim_def)
  qed
qed

lemma set_Trim: "set (Trim s cutset) \<subseteq> set s"
  unfolding Trim_def by (auto dest!: set_dropWhileD)

section \<open>Numbers\<close>

text \<open>\<^verbatim>\<open>strconv.Itoa\<close> and \<^verbatim>\<open>strconv.FormatInt(i, 10)\<close>.\<close>

definition digit_char :: "nat \<Rightarrow> char" where
  "digit_char d = char_of (48 + d)"

fun nat_digits :: "nat \<Rightarrow> string" where
  "nat_digits n = (if n < 10 then [digit_char n] else nat_digits (n div 10) @ [digit_char (n mod 10)])"

declare nat_digits.simps [simp del]

definition Itoa :: "int \<Rightarrow> string" where
  "Itoa i = (if i < 0 then CHR ''-'' # nat_digits (nat (- i)) else nat_digits (nat i))"

definition digit_val :: "char \<Rightarrow> nat" where
  "digit_val c = of_char c - 48"

definition is_digit :: "char \<Rightarrow> bool" where
  "is_digit c = (48 \<le> (of_char c :: nat) \<and> (of_char c :: nat) \<le> 57)"

definition digits_val :: "string \<Rightarrow> nat" where
  "digits_val s = foldl (\<lambda>acc c. 10 * acc + digit_val c) 0 s"

lemma digit_char_val: "d < 10 \<Longrightarrow> digit_val (digit_char d) = d"
  by (simp add: digit_val_def digit_char_def)

lemma digit_char_is_digit: "d < 10 \<Longrightarrow> is_digit (digit_char d)"
  by (simp add: is_digit_def digit_char_def)

lemma digits_val_snoc: "digits_val (s @ [c]) = 10 * digits_val s + digit_val c"
  by (simp add: digits_val_def)

lemma digits_val_nat_digits: "digits_val (nat_digits n) = n"
proof (induction n rule: nat_digits.induct)
  case (1 n)
  show ?case
  proof (cases "n < 10")
    case True
    then show ?thesis by (subst nat_digits.simps) (simp add: digits_val_def digit_char_val)
  next
    case False
    with 1 show ?thesis
      by (subst nat_digits.simps) (simp add: digits_val_snoc digit_char_val)
  qed
qed

lemma nat_digits_all_digits: "c \<in> set (nat_digits n) \<Longrightarrow> is_digit c"
proof (induction n rule: nat_digits.induct)
  case (1 n)
  then show ?case
    by (subst (asm) nat_digits.simps)
      (auto simp: digit_char_is_digit split: if_splits)
qed

lemma nat_digits_inj: "nat_digits m = nat_digits n \<longleftrightarrow> m = n"
  by (metis digits_val_nat_digits)

lemma nat_digits_not_Nil [simp]: "nat_digits n \<noteq> []"
  by (subst nat_digits.simps) simp

lemma Itoa_inj: "Itoa i = Itoa j \<longleftrightarrow> i = j"
proof
  assume eq: "Itoa i = Itoa j"
  have no_minus: "hd (nat_digits n) \<noteq> CHR ''-''" for n
  proof
    assume "hd (nat_digits n) = CHR ''-''"
    then have "is_digit (CHR ''-'')" using nat_digits_all_digits
      by (metis hd_in_set nat_digits_not_Nil)
    then show False by (simp add: is_digit_def)
  qed
  show "i = j"
    using eq no_minus by (auto simp: Itoa_def nat_digits_inj split: if_splits) (metis list.sel(1))+
qed simp

end
