(* ===== verification/Tarianpb.thy ===== *)
theory Tarianpb
  imports GoStrings
begin

text \<open>
  The messages of \<^verbatim>\<open>pkg/tarianpb\<close>: a record per message struct of \<^verbatim>\<open>types.pb.go\<close> and \<^verbatim>\<open>api.pb.go\<close>,
  the getters that are called on a pointer which may be nil, the constants, the constructors and
  the two conversions of \<^verbatim>\<open>FalcoPriority\<close>. A pointer to a message is an option. The elements of a
  repeated field are pointers too; only the labels of a pod are ever nil in this program, so only
  they are options.
\<close>

section \<open>types.proto\<close>

record MatchLabel =
  ml_Key :: string
  ml_Value :: string

record Selector =
  sel_MatchLabels :: "MatchLabel slice"

record AllowedProcessRule =
  apr_Regex :: "string option"

record AllowedFileRule =
  afr_Name :: string
  afr_Sha256Sum :: "string option"

record Constraint =
  c_Kind :: string
  c_Namespace :: string
  c_Name :: string
  c_Selector :: "Selector option"
  c_AllowedProcesses :: "AllowedProcessRule slice"
  c_AllowedFiles :: "AllowedFileRule slice"

record Process =
  p_Pid :: "32 word"
  p_Name :: string

record ViolatedFile =
  vf_Name :: string
  vf_ActualSha256Sum :: string
  vf_ExpectedSha256Sum :: string

record Label =
  l_Key :: string
  l_Value :: string

record Pod =
  pod_Uid :: string
  pod_Namespace :: string
  pod_Name :: string
  pod_Labels :: "Label option slice"

type_synonym FalcoPriority = "32 word"

record FalcoAlert =
  fa_Rule :: string
  fa_Priority :: FalcoPriority
  fa_Output :: string
  fa_OutputFields :: "string gomap"

record Target =
  t_Pod :: "Pod option"
  t_ViolatedProcesses :: "Process slice"
  t_ViolatedFiles :: "ViolatedFile slice"
  t_FalcoAlert :: "FalcoAlert option"
  t_DetectionDataType :: string
  t_DetectionData :: string

text \<open>A protobuf timestamp, as the nanoseconds since the Unix epoch it denotes.\<close>

type_synonym Timestamp = int

record Event =
  e_Kind :: string
  e_Type :: string
  e_Uid :: string
  e_ServerTimestamp :: "Timestamp option"
  e_ClientTimestamp :: "Timestamp option"
  e_AlertSentAt :: "Timestamp option"
  e_Targets :: "Target slice"

record Action =
  a_Kind :: string
  a_Namespace :: string
  a_Name :: string
  a_Selector :: "Selector option"
  a_OnViolatedProcess :: bool
  a_OnViolatedFile :: bool
  a_OnFalcoAlert :: bool
  a_FalcoPriority :: FalcoPriority
  a_Action :: string

section \<open>Getters on pointers that may be nil\<close>

definition Label_GetKey :: "Label option \<Rightarrow> string" where
  "Label_GetKey x = (case x of None \<Rightarrow> [] | Some l \<Rightarrow> l_Key l)"

definition Label_GetValue :: "Label option \<Rightarrow> string" where
  "Label_GetValue x = (case x of None \<Rightarrow> [] | Some l \<Rightarrow> l_Value l)"

definition GetMatchLabels :: "Selector option \<Rightarrow> MatchLabel slice" where
  "GetMatchLabels x = (case x of None \<Rightarrow> None | Some s \<Rightarrow> sel_MatchLabels s)"

definition GetRegex :: "AllowedProcessRule \<Rightarrow> string" where
  "GetRegex x = (case apr_Regex x of None \<Rightarrow> [] | Some r \<Rightarrow> r)"

definition GetSha256Sum :: "AllowedFileRule \<Rightarrow> string" where
  "GetSha256Sum x = (case afr_Sha256Sum x of None \<Rightarrow> [] | Some s \<Rightarrow> s)"

definition Pod_GetNamespace :: "Pod option \<Rightarrow> string" where
  "Pod_GetNamespace x = (case x of None \<Rightarrow> [] | Some p \<Rightarrow> pod_Namespace p)"

definition Pod_GetName :: "Pod option \<Rightarrow> string" where
  "Pod_GetName x = (case x of None \<Rightarrow> [] | Some p \<Rightarrow> pod_Name p)"

definition Event_GetTargets :: "Event option \<Rightarrow> Target slice" where
  "Event_GetTargets x = (case x of None \<Rightarrow> None | Some e \<Rightarrow> e_Targets e)"

definition Event_GetClientTimestamp :: "Event option \<Rightarrow> Timestamp option" where
  "Event_GetClientTimestamp x = (case x of None \<Rightarrow> None | Some e \<Rightarrow> e_ClientTimestamp e)"

lemmas getter_defs [getters] =
  Label_GetKey_def Label_GetValue_def GetMatchLabels_def GetRegex_def GetSha256Sum_def
  Pod_GetNamespace_def Pod_GetName_def Event_GetTargets_def Event_GetClientTimestamp_def

section \<open>api.proto\<close>

record GetConstraintsRequest =
  gcr_Namespace :: string
  gcr_Labels :: "Label option slice"

record GetConstraintsResponse =
  gcp_Constraints :: "Constraint slice"

record AddConstraintRequest =
  acr_Constraint :: "Constraint option"

record AddConstraintResponse =
  acp_Success :: bool

record RemoveConstraintRequest =
  rcr_Namespace :: string
  rcr_Name :: string

record RemoveConstraintResponse =
  rcp_Success :: bool

record AddActionRequest =
  aar_Action :: "Action option"

record AddActionResponse =
  aap_Success :: bool

record GetActionsRequest =
  gar_Namespace :: string
  gar_Labels :: "Label option slice"

record GetActionsResponse =
  gap_Actions :: "Action slice"

record RemoveActionRequest =
  rar_Namespace :: string
  rar_Name :: string

record RemoveActionResponse =
  rap_Success :: bool

record IngestEventRequest =
  ier_Event :: "Event option"

record IngestEventResponse =
  iep_Success :: bool

record GetEventsRequest =
  ger_Namespace :: string
  ger_Limit :: "32 word"

record GetEventsResponse =
  gep_Events :: "Event slice"

text \<open>
  A handler returns a response pointer and an error; the generated client gives its caller the
  response only when there was no error.
\<close>

type_synonym 'resp reply = "'resp option \<times> go_error option"

fun Invoke :: "'resp reply \<Rightarrow> go_error + 'resp" where
  "Invoke (_, Some err) = Inl err"
| "Invoke (Some r, None) = Inr r"
| "Invoke (None, None) = Inl (ExtError ''nil response'')"

definition GetConstraints_list :: "(go_error + GetConstraintsResponse) \<Rightarrow> Constraint slice" where
  "GetConstraints_list r = (case r of Inl _ \<Rightarrow> None | Inr p \<Rightarrow> gcp_Constraints p)"

definition GetActions_list :: "(go_error + GetActionsResponse) \<Rightarrow> Action slice" where
  "GetActions_list r = (case r of Inl _ \<Rightarrow> None | Inr p \<Rightarrow> gap_Actions p)"

section \<open>Constants and constructors\<close>

definition KindConstraint :: string where "KindConstraint = ''Constraint''"
definition KindAction :: string where "KindAction = ''Action''"
definition KindEvent :: string where "KindEvent = ''Event''"
definition EventTypeViolation :: string where "EventTypeViolation = ''violation''"
definition EventTypeFalcoAlert :: string where "EventTypeFalcoAlert = ''falco_alert''"
definition EventTypePodDeleted :: string where "EventTypePodDeleted = ''pod_deleted''"
definition EventTypeDetection :: string where "EventTypeDetection = ''tarian-detection/detection''"

lemmas pb_consts = KindConstraint_def KindAction_def KindEvent_def EventTypeViolation_def
  EventTypeFalcoAlert_def EventTypePodDeleted_def EventTypeDetection_def

definition NewConstraint :: Constraint where
  "NewConstraint = \<lparr>c_Kind = KindConstraint, c_Namespace = [], c_Name = [], c_Selector = None,
     c_AllowedProcesses = None, c_AllowedFiles = None\<rparr>"

definition NewAction :: Action where
  "NewAction = \<lparr>a_Kind = KindAction, a_Namespace = [], a_Name = [], a_Selector = None,
     a_OnViolatedProcess = False, a_OnViolatedFile = False, a_OnFalcoAlert = False,
     a_FalcoPriority = 0, a_Action = []\<rparr>"

definition NewEvent :: Event where
  "NewEvent = \<lparr>e_Kind = KindEvent, e_Type = [], e_Uid = [], e_ServerTimestamp = None,
     e_ClientTimestamp = None, e_AlertSentAt = None, e_Targets = None\<rparr>"

text \<open>The zero value \<^verbatim>\<open>&tarianpb.Target{}\<close> of the stores' conversions.\<close>

definition zero_Target :: Target where
  "zero_Target = \<lparr>t_Pod = None, t_ViolatedProcesses = None, t_ViolatedFiles = None,
     t_FalcoAlert = None, t_DetectionDataType = [], t_DetectionData = []\<rparr>"

section \<open>FalcoPriority\<close>

definition FalcoPriority_name :: "(FalcoPriority \<times> string) list" where
  "FalcoPriority_name =
     [(0, ''EMERGENCY''), (1, ''ALERT''), (2, ''CRITICAL''), (3, ''ERROR''),
      (4, ''WARNING''), (5, ''NOTICE''), (6, ''INFORMATIONAL''), (7, ''DEBUG'')]"

definition FalcoPriority_value :: "FalcoPriority gomap" where
  "FalcoPriority_value =
     [(''EMERGENCY'', 0), (''emergency'', 0), (''Emergency'', 0),
      (''ALERT'', 1), (''alert'', 1), (''Alert'', 1),
      (''CRITICAL'', 2), (''critical'', 2), (''Critical'', 2),
      (''ERROR'', 3), (''error'', 3), (''Error'', 3),
      (''WARNING'', 4), (''warning'', 4), (''Warning'', 4),
      (''NOTICE'', 5), (''notice'', 5), (''Notice'', 5),
      (''INFORMATIONAL'', 6), (''informational'', 6), (''Informational'', 6),
      (''DEBUG'', 7), (''debug'', 7), (''Debug'', 7)]"

text \<open>Reading a Go map at a missing key gives the zero value.\<close>

definition FalcoPriority_ToString :: "FalcoPriority \<Rightarrow> string" where
  "FalcoPriority_ToString f = (case map_of FalcoPriority_name f of None \<Rightarrow> [] | Some s \<Rightarrow> s)"

definition FalcoPriorityFromString :: "string \<Rightarrow> FalcoPriority" where
  "FalcoPriorityFromString s = (case map_get FalcoPriority_value s of None \<Rightarrow> 0 | Some p \<Rightarrow> p)"

text \<open>\<^verbatim>\<open>a <= b\<close> on the int32 values of the enum.\<close>

definition priority_le :: "FalcoPriority \<Rightarrow> FalcoPriority \<Rightarrow> bool" where
  "priority_le a b = (sint a \<le> sint b)"

lemma FalcoPriority_roundtrip:
  "f \<in> set (map fst FalcoPriority_name) \<Longrightarrow>
     FalcoPriorityFromString (FalcoPriority_ToString f) = f"
  by (auto simp: FalcoPriority_name_def FalcoPriorityFromString_def FalcoPriority_ToString_def
      FalcoPriority_value_def map_get_def)

lemma FalcoPriority_unknown:
  "map_get FalcoPriority_value s = None \<Longrightarrow> FalcoPriorityFromString s = 0"
  by (simp add: FalcoPriorityFromString_def)

lemma priority_le_refl [simp]: "priority_le p p"
  by (simp add: priority_le_def)

lemma priority_le_trans: "priority_le a b \<Longrightarrow> priority_le b c \<Longrightarrow> priority_le a c"
  by (simp add: priority_le_def)

end
