(* ===== verification/Labels.thy ===== *)
theory Labels
  imports Tarianpb
begin

text \<open>
  Label selectors. Five functions of the program decide whether a selector applies to a pod, all in
  the same way: they add \<^verbatim>\<open>key + "=" + value\<close> to a string set for the pod and one for the selector
  and call \<^verbatim>\<open>IsSubset\<close>. The string set is the library \<^verbatim>\<open>scylladb/go-set/strset\<close>, a parameter here.
\<close>

section \<open>The string-set library\<close>

record 's strset =
  ss_New :: 's
  ss_Add :: "'s \<Rightarrow> string \<Rightarrow> 's"
  ss_IsSubset :: "'s \<Rightarrow> 's \<Rightarrow> bool"

text \<open>
  Its documented behaviour: \<^verbatim>\<open>New\<close> makes an empty set, \<^verbatim>\<open>Add\<close> includes an item, and \<^verbatim>\<open>s.IsSubset(t)\<close>
  tests whether \<^verbatim>\<open>t\<close> is a subset of \<^verbatim>\<open>s\<close>.
\<close>

definition strset_ok :: "'s strset \<Rightarrow> ('s \<Rightarrow> string set) \<Rightarrow> bool" where
  "strset_ok S mem \<longleftrightarrow>
     mem (ss_New S) = {} \<and>
     (\<forall>s x. mem (ss_Add S s x) = insert x (mem s)) \<and>
     (\<forall>s t. ss_IsSubset S s t = (mem t \<subseteq> mem s))"

lemma strset_okD:
  assumes "strset_ok S mem"
  shows "mem (ss_New S) = {}" "mem (ss_Add S s x) = insert x (mem s)"
    "ss_IsSubset S s t = (mem t \<subseteq> mem s)"
  using assms by (simp_all add: strset_ok_def)

text \<open>An instance, used to evaluate the model on concrete inputs.\<close>

definition list_strset :: "string list strset" where
  "list_strset = \<lparr>ss_New = [], ss_Add = (\<lambda>s x. x # s), ss_IsSubset = (\<lambda>s t. list_all (\<lambda>x. x \<in> set s) t)\<rparr>"

lemma list_strset_ok: "strset_ok list_strset set"
  by (auto simp: strset_ok_def list_strset_def list_all_iff)

section \<open>Label sets\<close>

definition kv :: "string \<Rightarrow> string \<Rightarrow> string" where
  "kv k v = k @ ''='' @ v"

text \<open>The loop \<^verbatim>\<open>for ... { set.Add(k + "=" + v) }\<close>.\<close>

definition label_set :: "'s strset \<Rightarrow> (string \<times> string) list \<Rightarrow> 's" where
  "label_set S kvs = foldl (\<lambda>s (k, v). ss_Add S s (kv k v)) (ss_New S) kvs"

definition matchlabel_pairs :: "MatchLabel slice \<Rightarrow> (string \<times> string) list" where
  "matchlabel_pairs ls = map (\<lambda>l. (ml_Key l, ml_Value l)) (elems ls)"

definition label_pairs :: "Label option slice \<Rightarrow> (string \<times> string) list" where
  "label_pairs ls = map (\<lambda>l. (Label_GetKey l, Label_GetValue l)) (elems ls)"

text \<open>Label keys never hold an equals sign, by Kubernetes' syntax of label keys.\<close>

definition plain_keys :: "(string \<times> string) list \<Rightarrow> bool" where
  "plain_keys kvs = list_all (\<lambda>(k, _). CHR ''='' \<notin> set k) kvs"

lemma kv_inject: "CHR ''='' \<notin> set k \<Longrightarrow> CHR ''='' \<notin> set k' \<Longrightarrow> kv k v = kv k' v' \<longleftrightarrow> k = k' \<and> v = v'"
  by (simp add: kv_def append_sep_inject)

lemma members_label_set:
  assumes "strset_ok S mem"
  shows "mem (label_set S kvs) = (\<lambda>(k, v). kv k v) ` set kvs"
proof -
  have "mem (foldl (\<lambda>s (k, v). ss_Add S s (kv k v)) s0 kvs) = mem s0 \<union> (\<lambda>(k, v). kv k v) ` set kvs" for s0
    using strset_okD(2)[OF assms] by (induction kvs arbitrary: s0) auto
  then show ?thesis by (simp add: label_set_def strset_okD(1)[OF assms])
qed

text \<open>On plain keys the string sets decide inclusion of the key-value pairs themselves.\<close>

lemma label_set_subset:
  assumes "strset_ok S mem" "plain_keys have" "plain_keys want"
  shows "ss_IsSubset S (label_set S have) (label_set S want) \<longleftrightarrow> set want \<subseteq> set have"
proof -
  have plain: "CHR ''='' \<notin> set k" if "(k, v) \<in> set have \<union> set want" for k v
    using assms(2,3) that by (auto simp: plain_keys_def list_all_iff)
  have inj: "inj_on (\<lambda>(k, v). kv k v) (set have \<union> set want)"
  proof (rule inj_onI, clarify)
    fix k v k' v'
    assume "(k, v) \<in> set have \<union> set want" "(k', v') \<in> set have \<union> set want" "kv k v = kv k' v'"
    then show "k = k' \<and> v = v'" using plain kv_inject by metis
  qed
  have "ss_IsSubset S (label_set S have) (label_set S want) \<longleftrightarrow>
      (\<lambda>(k, v). kv k v) ` set want \<subseteq> (\<lambda>(k, v). kv k v) ` set have"
    by (simp add: strset_okD(3)[OF assms(1)] members_label_set[OF assms(1)])
  also have "\<dots> \<longleftrightarrow> set want \<subseteq> set have"
  proof
    assume sub: "(\<lambda>(k, v). kv k v) ` set want \<subseteq> (\<lambda>(k, v). kv k v) ` set have"
    show "set want \<subseteq> set have"
    proof
      fix x assume "x \<in> set want"
      then show "x \<in> set have" using sub inj_on_image_mem_iff[OF inj, of x "set have"] by blast
    qed
  qed blast
  finally show ?thesis .
qed

lemma label_set_empty_want: "strset_ok S mem \<Longrightarrow> ss_IsSubset S s (label_set S [])"
  by (simp add: strset_okD label_set_def)

section \<open>Selectors\<close>

text \<open>What a selector promises: every match label is a label of the pod.\<close>

definition selects :: "Selector option \<Rightarrow> (string \<times> string) list \<Rightarrow> bool" where
  "selects sel labels \<longleftrightarrow> set (matchlabel_pairs (GetMatchLabels sel)) \<subseteq> set labels"

text \<open>The test the code writes: a missing selector, or \<^verbatim>\<open>podLabels.IsSubset(selectorLabels)\<close>.\<close>

definition no_selector :: "Selector option \<Rightarrow> bool" where
  "no_selector sel \<longleftrightarrow> sel = None \<or> GetMatchLabels sel = None"

definition labels_include :: "'s strset \<Rightarrow> (string \<times> string) list \<Rightarrow> Selector option \<Rightarrow> bool" where
  "labels_include S labels sel =
     ss_IsSubset S (label_set S labels) (label_set S (matchlabel_pairs (GetMatchLabels sel)))"

lemma no_selector_selects: "no_selector sel \<Longrightarrow> selects sel labels"
  by (auto simp: no_selector_def selects_def matchlabel_pairs_def GetMatchLabels_def)

lemma labels_include_iff:
  "strset_ok S mem \<Longrightarrow> plain_keys labels \<Longrightarrow> plain_keys (matchlabel_pairs (GetMatchLabels sel)) \<Longrightarrow>
     labels_include S labels sel \<longleftrightarrow> selects sel labels"
  by (simp add: labels_include_def selects_def label_set_subset)

lemma selects_mono: "selects sel l \<Longrightarrow> set l \<subseteq> set l' \<Longrightarrow> selects sel l'"
  by (auto simp: selects_def)

text \<open>\<^verbatim>\<open>matchLabelsFromPodLabels\<close>, which both the node agent and the cluster agent define.\<close>

definition matchLabelsFromPodLabels :: "string gomap \<Rightarrow> MatchLabel slice" where
  "matchLabelsFromPodLabels labels = Some (map (\<lambda>(k, v). \<lparr>ml_Key = k, ml_Value = v\<rparr>) labels)"

lemma pairs_matchLabelsFromPodLabels:
  "matchlabel_pairs (matchLabelsFromPodLabels labels) = labels"
  by (induction labels) (auto simp: matchlabel_pairs_def matchLabelsFromPodLabels_def)

lemma selector_from_labels_selects:
  "set m \<subseteq> set labels \<Longrightarrow> selects (Some \<lparr>sel_MatchLabels = matchLabelsFromPodLabels m\<rparr>) labels"
  by (simp add: selects_def GetMatchLabels_def pairs_matchLabelsFromPodLabels)

end
