(* ===== verification/ContainerID.thy ===== *)
theory ContainerID
  imports GoStrings
begin

text \<open>
  From a process to its pod: the container id in the cgroup file of a process
  (\<^verbatim>\<open>pkg/nodeagent/enrich_container.go\<close>) and the index of pods by container id
  (\<^verbatim>\<open>pkg/nodeagent/enrich_kubernetes.go\<close>). The two sides truncate an id to different lengths; the
  theorems say that they still meet.
\<close>

section \<open>enrich_container.go\<close>

definition BpfContainerIDLength :: nat where "BpfContainerIDLength = 31"

definition HostProcDir :: string where "HostProcDir = ''/host/proc''"

definition procsContainerIDOffset :: "string \<Rightarrow> string \<times> int" where
  "procsContainerIDOffset subdir =
     (let p = LastIndex subdir '':'' + 1;
          fields = Split subdir '':'';
          idStr = last fields;
          off = LastIndex idStr ''-'' + 1;
          s = Split idStr ''-''
      in (last s, off + p))"

definition lookupContainerID :: "string \<Rightarrow> string" where
  "lookupContainerID cgroup =
     (let subDirs = Split cgroup ''/'';
          lastSubDir = last subDirs;
          container = fst (procsContainerIDOffset lastSubDir)
      in if length container \<ge> BpfContainerIDLength then take BpfContainerIDLength container else [])"

fun findDockerID_loop :: "string list \<Rightarrow> string" where
  "findDockerID_loop [] = []"
| "findDockerID_loop (s # ss) =
     (if Contains s ''pod'' \<or> Contains s ''docker'' \<or> Contains s ''libpod''
      then (let container = lookupContainerID s
            in if container \<noteq> [] then container else findDockerID_loop ss)
      else findDockerID_loop ss)"

definition findDockerIDFromCgroup :: "string \<Rightarrow> string" where
  "findDockerIDFromCgroup cgroups = findDockerID_loop (Split cgroups [CHR 0x0A])"

text \<open>\<open>ReadFile\<close> is the host's file system.\<close>

definition procsContainerID :: "(string \<Rightarrow> go_error + string) \<Rightarrow> 32 word \<Rightarrow> go_error + string" where
  "procsContainerID ReadFile pid =
     (let pidstr = Itoa (uint pid) in
      case ReadFile (Join [HostProcDir, pidstr, ''cgroup''] ''/'') of
        Inl err \<Rightarrow> Inl err
      | Inr cgroups \<Rightarrow> Inr (findDockerIDFromCgroup cgroups))"

section \<open>enrich\_kubernetes.go\<close>

definition containerIdx :: string where "containerIdx = ''container-ids''"

definition containerIDLen :: nat where "containerIDLen = 15"

text \<open>The fields of a Kubernetes pod object that the node agent reads.\<close>

record k8s_pod =
  kp_Name :: string
  kp_UID :: string
  kp_Namespace :: string
  kp_Labels :: "string gomap"
  kp_Annotations :: "string gomap"
  kp_InitContainerStatuses :: "string list"
  kp_ContainerStatuses :: "string list"
  kp_EphemeralContainerStatuses :: "string list"

datatype k8s_obj = PodObj k8s_pod | OtherObj

definition cleanContainerIDFromPod :: "string \<Rightarrow> go_error + string" where
  "cleanContainerIDFromPod podContainerID =
     (let parts = Split podContainerID ''//'' in
      if length parts \<noteq> 2 then Inl (NewError ''unexpected containerID format'')
      else let containerID = parts ! 1 in
        Inr (if length containerID > containerIDLen then take containerIDLen containerID else containerID))"

fun appendContainerIDs :: "string list \<Rightarrow> string list \<Rightarrow> go_error + string list" where
  "appendContainerIDs acc [] = Inr acc"
| "appendContainerIDs acc (fullContainerID # rest) =
     (if fullContainerID = [] then appendContainerIDs acc rest
      else case cleanContainerIDFromPod fullContainerID of
        Inl err \<Rightarrow> Inl err
      | Inr containerID \<Rightarrow> appendContainerIDs (acc @ [containerID]) rest)"

fun containerIndexFunc :: "k8s_obj \<Rightarrow> go_error + string list" where
  "containerIndexFunc (PodObj t) =
     (case appendContainerIDs [] (kp_InitContainerStatuses t) of
        Inl err \<Rightarrow> Inl err
      | Inr a \<Rightarrow> (case appendContainerIDs a (kp_ContainerStatuses t) of
          Inl err \<Rightarrow> Inl err
        | Inr b \<Rightarrow> appendContainerIDs b (kp_EphemeralContainerStatuses t)))"
| "containerIndexFunc OtherObj = Inl (Wrap '' - found'' (Some (NewError ''object is not a *corev1.Pod'')))"

definition containerIDContains :: "string \<Rightarrow> string \<Rightarrow> bool" where
  "containerIDContains containerID pfx =
     (let parts = Split containerID ''//'' in length parts = 2 \<and> HasPrefix (parts ! 1) pfx)"

fun findContainer_loop :: "string \<Rightarrow> k8s_obj list \<Rightarrow> k8s_pod option" where
  "findContainer_loop containerID [] = None"
| "findContainer_loop containerID (OtherObj # _) = None"
| "findContainer_loop containerID (PodObj pod # rest) =
     (if list_ex (\<lambda>c. containerIDContains c containerID) (kp_ContainerStatuses pod) then Some pod
      else if list_ex (\<lambda>c. containerIDContains c containerID) (kp_InitContainerStatuses pod) then Some pod
      else if list_ex (\<lambda>c. containerIDContains c containerID) (kp_EphemeralContainerStatuses pod) then Some pod
      else findContainer_loop containerID rest)"

definition findContainer :: "string \<Rightarrow> k8s_obj list \<Rightarrow> k8s_pod option" where
  "findContainer containerID pods = (if containerID = [] then None else findContainer_loop containerID pods)"

text \<open>\<open>ByIndex\<close> is the informer's indexer, a parameter.\<close>

definition FindPod :: "(string \<Rightarrow> string \<Rightarrow> go_error + k8s_obj list) \<Rightarrow> string \<Rightarrow> k8s_pod option" where
  "FindPod ByIndex containerID =
     (let indexedContainerID =
        (if length containerID > containerIDLen then take containerIDLen containerID else containerID) in
      case ByIndex containerIdx indexedContainerID of
        Inl err \<Rightarrow> None
      | Inr pods \<Rightarrow> findContainer containerID pods)"

section \<open>The container id of a process\<close>

lemma lookupContainerID_length:
  "lookupContainerID s \<noteq> [] \<Longrightarrow> length (lookupContainerID s) = BpfContainerIDLength"
  by (auto simp: lookupContainerID_def Let_def split: if_splits)

lemma findDockerID_loop_length:
  "findDockerID_loop ss \<noteq> [] \<Longrightarrow> length (findDockerID_loop ss) = BpfContainerIDLength"
  by (induction ss) (auto simp: Let_def lookupContainerID_length split: if_splits)

text \<open>The part of a string after the last occurrence of a byte.\<close>

definition after_last :: "char \<Rightarrow> string \<Rightarrow> string" where
  "after_last c s = rev (takeWhile (\<lambda>x. x \<noteq> c) (rev s))"

lemma last_Split_after_last: "last (Split s [c]) = after_last c s"
proof (cases "c \<in> set s")
  case True
  then obtain a b where s: "s = a @ c # b" and b: "c \<notin> set b"
    by (metis split_list_last)
  have "takeWhile (\<lambda>x. x \<noteq> c) (rev b @ c # rev a) = rev b"
    using b by (intro takeWhile_append_stop) auto
  then show ?thesis by (simp add: s last_Split_append[OF b] after_last_def)
next
  case False
  then have "takeWhile (\<lambda>x. x \<noteq> c) (rev s) = rev s"
    by (intro takeWhile_eq_all_conv[THEN iffD2]) auto
  then have "after_last c s = s" unfolding after_last_def by (simp only: rev_rev_ident)
  with False show ?thesis by (simp add: Split_no_sep)
qed

lemma after_last_append: "c \<notin> set x \<Longrightarrow> after_last c (pre @ x) = after_last c pre @ x"
proof -
  assume c: "c \<notin> set x"
  then have "\<And>y. y \<in> set (rev x) \<Longrightarrow> y \<noteq> c" by auto
  then have "takeWhile (\<lambda>y. y \<noteq> c) (rev x @ rev pre) = rev x @ takeWhile (\<lambda>y. y \<noteq> c) (rev pre)"
    by (rule takeWhile_append2)
  then show ?thesis by (simp add: after_last_def)
qed

lemma after_last_last: "pre \<noteq> [] \<Longrightarrow> last pre = c \<Longrightarrow> after_last c pre = []"
  by (cases pre rule: rev_cases) (auto simp: after_last_def)

lemma after_last_Nil [simp]: "after_last c [] = []"
  by (simp add: after_last_def)

lemma last_after_last: "pre \<noteq> [] \<Longrightarrow> last pre \<noteq> c \<Longrightarrow> after_last c pre \<noteq> [] \<and> last (after_last c pre) = last pre"
  by (cases pre rule: rev_cases) (auto simp: after_last_def)

lemma procsContainerIDOffset_fst:
  "fst (procsContainerIDOffset s) = after_last (CHR ''-'') (after_last (CHR '':'') s)"
  by (simp add: procsContainerIDOffset_def Let_def last_Split_after_last)

text \<open>
  The id is what follows the last slash, the last colon and the last dash of the cgroup path: a path
  that ends in one of them, then an id without them.
\<close>

definition plain_id :: "string \<Rightarrow> bool" where
  "plain_id cid = list_all (\<lambda>c. c \<notin> {CHR ''/'', CHR '':'', CHR ''-'', CHR 0x0A}) cid"

definition id_boundary :: "string \<Rightarrow> bool" where
  "id_boundary pre \<longleftrightarrow> pre = [] \<or> last pre \<in> {CHR ''/'', CHR '':'', CHR ''-''}"

lemma plain_id_notin:
  "plain_id cid \<Longrightarrow> CHR ''/'' \<notin> set cid" "plain_id cid \<Longrightarrow> CHR '':'' \<notin> set cid"
  "plain_id cid \<Longrightarrow> CHR ''-'' \<notin> set cid" "plain_id cid \<Longrightarrow> CHR 0x0A \<notin> set cid"
  by (auto simp: plain_id_def list_all_iff)

lemma id_boundary_after_last:
  "id_boundary pre \<Longrightarrow>
     after_last (CHR ''-'') (after_last (CHR '':'') (after_last (CHR ''/'') pre)) = []"
proof -
  let ?a = "after_last (CHR ''/'') pre" and ?b = "after_last (CHR '':'') (after_last (CHR ''/'') pre)"
  assume "id_boundary pre"
  then consider "pre = []" | "pre \<noteq> []" "last pre = CHR ''/''" | "pre \<noteq> []" "last pre = CHR '':''"
    | "pre \<noteq> []" "last pre = CHR ''-''"
    by (auto simp: id_boundary_def)
  then show ?thesis
  proof cases
    case 3
    then have "?a \<noteq> [] \<and> last ?a = CHR '':''" using last_after_last[of pre "CHR ''/''"] by simp
    then show ?thesis by (simp add: after_last_last)
  next
    case 4
    then have "?a \<noteq> [] \<and> last ?a = CHR ''-''" using last_after_last[of pre "CHR ''/''"] by simp
    then have "?b \<noteq> [] \<and> last ?b = CHR ''-''" using last_after_last[of ?a "CHR '':''"] by simp
    then show ?thesis by (simp add: after_last_last)
  qed (simp_all add: after_last_last)
qed

lemma lookupContainerID_id:
  assumes "plain_id cid" "id_boundary pre" "length cid \<ge> BpfContainerIDLength"
  shows "lookupContainerID (pre @ cid) = take BpfContainerIDLength cid"
  using assms by (simp add: lookupContainerID_def Let_def last_Split_after_last
      procsContainerIDOffset_fst after_last_append plain_id_notin id_boundary_after_last)

lemma findDocker_single_line:
  assumes "plain_id cid" "id_boundary pre" "length cid \<ge> BpfContainerIDLength"
    and "CHR 0x0A \<notin> set pre"
    and "Contains (pre @ cid) ''pod'' \<or> Contains (pre @ cid) ''docker''"
  shows "findDockerIDFromCgroup (pre @ cid) = take BpfContainerIDLength cid"
proof -
  from assms have "CHR 0x0A \<notin> set (pre @ cid)" by (auto dest: plain_id_notin)
  then have "Split (pre @ cid) [CHR 0x0A] = [pre @ cid]" by (rule Split_no_sep)
  moreover have "take BpfContainerIDLength cid \<noteq> []"
    using assms(3) by (auto simp: BpfContainerIDLength_def)
  ultimately show ?thesis
    using assms(5) by (auto simp: findDockerIDFromCgroup_def lookupContainerID_id[OF assms(1-3)] Let_def)
qed

section \<open>The index of pods\<close>

definition pod_statuses :: "k8s_pod \<Rightarrow> string list" where
  "pod_statuses pod = kp_InitContainerStatuses pod @ kp_ContainerStatuses pod @ kp_EphemeralContainerStatuses pod"

definition has_container :: "k8s_pod \<Rightarrow> string \<Rightarrow> bool" where
  "has_container pod pfx = list_ex (\<lambda>c. containerIDContains c pfx) (pod_statuses pod)"

lemma Index_slashes: "CHR ''/'' \<notin> set a \<Longrightarrow> Index (a @ ''//'' @ b) ''//'' = int (length a)"
  by (induction a) (auto simp: HasPrefix_def Let_def)

lemma Index_no_slash: "CHR ''/'' \<notin> set b \<Longrightarrow> Index b ''//'' = -1"
  by (induction b) (auto simp: HasPrefix_def Let_def)

lemma Split_no_slash: "CHR ''/'' \<notin> set b \<Longrightarrow> Split b ''//'' = [b]"
  by (subst Split.simps) (simp add: Index_no_slash)

lemma Split_status:
  "CHR ''/'' \<notin> set scheme \<Longrightarrow> CHR ''/'' \<notin> set cid \<Longrightarrow> Split (scheme @ ''//'' @ cid) ''//'' = [scheme, cid]"
proof -
  assume s: "CHR ''/'' \<notin> set scheme" and c: "CHR ''/'' \<notin> set cid"
  have "Index (scheme @ ''//'' @ cid) ''//'' = int (length scheme)" using s by (rule Index_slashes)
  then have "Split (scheme @ ''//'' @ cid) ''//'' = scheme # Split cid ''//''"
    by (subst Split.simps) simp
  then show ?thesis using Split_no_slash[OF c] by simp
qed

lemma appendContainerIDs_mono:
  "appendContainerIDs acc xs = Inr ids \<Longrightarrow> set acc \<subseteq> set ids"
  by (induction acc xs rule: appendContainerIDs.induct) (auto split: if_splits sum.splits)

lemma appendContainerIDs_in:
  "appendContainerIDs acc xs = Inr ids \<Longrightarrow> x \<in> set xs \<Longrightarrow> x \<noteq> [] \<Longrightarrow>
     \<exists>cid. cleanContainerIDFromPod x = Inr cid \<and> cid \<in> set ids"
proof (induction acc xs rule: appendContainerIDs.induct)
  case (2 acc y ys)
  show ?case
  proof (cases "y = []")
    case True
    with 2 show ?thesis by auto
  next
    case False
    with "2.prems"(1) obtain cid where c: "cleanContainerIDFromPod y = Inr cid"
      and rest: "appendContainerIDs (acc @ [cid]) ys = Inr ids"
      by (auto split: sum.splits)
    have "cid \<in> set ids" using appendContainerIDs_mono[OF rest] by auto
    with 2 False c rest show ?thesis by auto
  qed
qed simp

lemma containerIndexFunc_in:
  assumes "containerIndexFunc (PodObj pod) = Inr ids" "x \<in> set (pod_statuses pod)" "x \<noteq> []"
  shows "\<exists>cid. cleanContainerIDFromPod x = Inr cid \<and> cid \<in> set ids"
proof -
  from assms(1) obtain a b where a: "appendContainerIDs [] (kp_InitContainerStatuses pod) = Inr a"
    and b: "appendContainerIDs a (kp_ContainerStatuses pod) = Inr b"
    and c: "appendContainerIDs b (kp_EphemeralContainerStatuses pod) = Inr ids"
    by (auto split: sum.splits)
  have "set a \<subseteq> set b" "set b \<subseteq> set ids"
    using appendContainerIDs_mono[OF b] appendContainerIDs_mono[OF c] by auto
  with assms(2,3) a b c show ?thesis
    by (auto simp: pod_statuses_def dest!: appendContainerIDs_in)
qed

lemma findContainer_loop_Some:
  "findContainer_loop cid objs = Some p \<Longrightarrow> PodObj p \<in> set objs \<and> has_container p cid"
  by (induction cid objs rule: findContainer_loop.induct)
    (auto simp: has_container_def pod_statuses_def split: if_splits)

lemma findContainer_loop_found:
  "\<forall>o'\<in>set objs. o' \<noteq> OtherObj \<Longrightarrow> PodObj pod \<in> set objs \<Longrightarrow> has_container pod cid \<Longrightarrow>
     \<exists>p. findContainer_loop cid objs = Some p"
  by (induction cid objs rule: findContainer_loop.induct)
    (auto simp: has_container_def pod_statuses_def)

text \<open>
  The documented behaviour of the informer's indexer, \<^verbatim>\<open>ByIndex\<close>: it returns the stored objects
  whose indexed values include the value asked for.
\<close>

definition indexer_ok :: "(string \<Rightarrow> string \<Rightarrow> go_error + k8s_obj list) \<Rightarrow> k8s_obj list \<Rightarrow> bool" where
  "indexer_ok ByIndex store \<longleftrightarrow>
     (\<forall>v. \<exists>objs. ByIndex containerIdx v = Inr objs \<and>
        set objs = {ob \<in> set store. \<exists>ids. containerIndexFunc ob = Inr ids \<and> v \<in> set ids})"

lemma FindPod_found:
  assumes ix: "indexer_ok ByIndex store" and pods: "\<forall>ob\<in>set store. ob \<noteq> OtherObj"
    and pod: "PodObj pod \<in> set store" "containerIndexFunc (PodObj pod) = Inr ids"
    and st: "scheme @ ''//'' @ cid \<in> set (pod_statuses pod)"
    and sep: "CHR ''/'' \<notin> set scheme" "CHR ''/'' \<notin> set cid"
    and len: "containerIDLen \<le> n" "n \<le> length cid" "0 < n"
  shows "\<exists>p. FindPod ByIndex (take n cid) = Some p \<and> PodObj p \<in> set store \<and> has_container p (take n cid)"
proof -
  have clean: "cleanContainerIDFromPod (scheme @ ''//'' @ cid) = Inr (take containerIDLen cid)"
    by (simp add: cleanContainerIDFromPod_def Split_status[OF sep, simplified] Let_def)
  obtain c where "cleanContainerIDFromPod (scheme @ ''//'' @ cid) = Inr c" and "c \<in> set ids"
    using containerIndexFunc_in[OF pod(2) st] by auto
  with clean have in_ids: "take containerIDLen cid \<in> set ids" by simp
  obtain objs where look: "ByIndex containerIdx (take containerIDLen cid) = Inr objs"
    and objs: "set objs = {ob \<in> set store. \<exists>ids. containerIndexFunc ob = Inr ids \<and> take containerIDLen cid \<in> set ids}"
    using ix unfolding indexer_ok_def by blast
  have "containerIDContains (scheme @ ''//'' @ cid) (take n cid)"
    using len(2)
    by (simp add: containerIDContains_def Split_status[OF sep, simplified] HasPrefix_def Let_def min_absorb2)
  with st have has: "has_container pod (take n cid)"
    unfolding has_container_def list_ex_iff by blast
  have "PodObj pod \<in> set objs" using objs pod in_ids by blast
  moreover have "\<forall>o'\<in>set objs. o' \<noteq> OtherObj" using objs pods by blast
  ultimately obtain p where p: "findContainer_loop (take n cid) objs = Some p"
    using findContainer_loop_found[of objs pod] has by blast
  have "take n cid \<noteq> []" using len by auto
  moreover have "(if length (take n cid) > containerIDLen then take containerIDLen (take n cid) else take n cid)
      = take containerIDLen cid"
    using len by (auto simp: min_def)
  ultimately have "FindPod ByIndex (take n cid) = Some p"
    using look p by (simp add: FindPod_def findContainer_def Let_def)
  then show ?thesis using findContainer_loop_Some[OF p] objs by blast
qed

section \<open>From a process to its pod\<close>


text \<open>A pod with one container, alone in the informer.\<close>

definition demo_cid :: string where "demo_cid = replicate 64 (CHR ''a'')"

definition demo_pod :: k8s_pod where
  "demo_pod = \<lparr>kp_Name = ''web'', kp_UID = ''u'', kp_Namespace = ''default'', kp_Labels = [], kp_Annotations = [],
     kp_InitContainerStatuses = [], kp_ContainerStatuses = [''containerd:'' @ ''//'' @ demo_cid],
     kp_EphemeralContainerStatuses = []\<rparr>"

definition demo_index :: "string \<Rightarrow> string \<Rightarrow> go_error + k8s_obj list" where
  "demo_index idx v = Inr (filter (\<lambda>ob. case containerIndexFunc ob of Inl _ \<Rightarrow> False | Inr ids \<Rightarrow> v \<in> set ids) [PodObj demo_pod])"

lemma demo_index_ok: "indexer_ok demo_index [PodObj demo_pod]"
  by (auto simp: indexer_ok_def demo_index_def split: sum.splits)


end
