(* ===== verification/NodeAgent.thy ===== *)
theory NodeAgent
  imports Labels ContainerID
begin

text \<open>
  The node agent (\<^verbatim>\<open>pkg/nodeagent\<close>): its constraint cache, the validation of an executed process
  against the constraints, the decision between registering and reporting, and the requests it
  sends to the cluster agent. The regular expressions (\<^verbatim>\<open>regexp.Compile\<close>), the clock and the remote
  calls are parameters.
\<close>

section \<open>State\<close>

text \<open>\<open>regex\<close> is what \<^verbatim>\<open>regexp.Compile\<close> gives for an expression: an error, or \<^verbatim>\<open>MatchString\<close>.\<close>

type_synonym regex = "string \<Rightarrow> go_error + (string \<Rightarrow> bool)"

definition ThreatScanAnnotation :: string where
  "ThreatScanAnnotation = ''pod-agent.k8s.tarian.dev/threat-scan''"

definition RegisterAnnotation :: string where
  "RegisterAnnotation = ''pod-agent.k8s.tarian.dev/register''"

record NodeAgent =
  na_clusterAgentAddress :: string
  na_constraints :: "Constraint slice"
  na_constraintsInitialized :: bool
  na_cancelled :: bool
  na_enableAddConstraint :: bool
  na_nodeName :: string

record ExecEvent =
  ev_Pid :: "32 word"
  ev_Command :: string
  ev_Filename :: string
  ev_ContainerID :: string
  ev_K8sPodUID :: string
  ev_K8sPodName :: string
  ev_K8sNamespace :: string
  ev_K8sPodLabels :: "string gomap"
  ev_K8sPodAnnotations :: "string gomap"

definition NewNodeAgent :: "string \<Rightarrow> NodeAgent" where
  "NewNodeAgent addr = \<lparr>na_clusterAgentAddress = addr, na_constraints = None,
     na_constraintsInitialized = False, na_cancelled = False, na_enableAddConstraint = False,
     na_nodeName = []\<rparr>"

definition na_EnableAddConstraint :: "bool \<Rightarrow> NodeAgent \<Rightarrow> NodeAgent" where
  "na_EnableAddConstraint enabled n = n\<lparr>na_enableAddConstraint := enabled\<rparr>"

definition na_SetNodeName :: "string \<Rightarrow> NodeAgent \<Rightarrow> NodeAgent" where
  "na_SetNodeName name n = n\<lparr>na_nodeName := name\<rparr>"

definition na_GracefulStop :: "NodeAgent \<Rightarrow> NodeAgent" where
  "na_GracefulStop n = n\<lparr>na_cancelled := True\<rparr>"

definition na_SetConstraints :: "Constraint slice \<Rightarrow> NodeAgent \<Rightarrow> NodeAgent" where
  "na_SetConstraints cs n = n\<lparr>na_constraints := cs\<rparr>"

definition na_GetConstraints :: "NodeAgent \<Rightarrow> Constraint slice" where
  "na_GetConstraints n = na_constraints n"

text \<open>
  \<^verbatim>\<open>SyncConstraints\<close>: an error is logged with \<^verbatim>\<open>Fatal\<close>, which ends the process; \<open>None\<close> is that
  outcome.
\<close>

definition na_SyncConstraints ::
    "('w, GetConstraintsRequest, GetConstraintsResponse) rpc \<Rightarrow> NodeAgent \<Rightarrow> ('w, NodeAgent option) io" where
  "na_SyncConstraints getConstraints n w =
     (case getConstraints \<lparr>gcr_Namespace = [], gcr_Labels = None\<rparr> w of
        (Inl err, w') \<Rightarrow> (None, w')
      | (Inr r, w') \<Rightarrow>
          (Some ((na_SetConstraints (gcp_Constraints r) n)\<lparr>na_constraintsInitialized := True\<rparr>), w'))"

section \<open>Validation\<close>

definition constraintMatchesPod :: "'s strset \<Rightarrow> Constraint \<Rightarrow> ExecEvent \<Rightarrow> bool" where
  "constraintMatchesPod S constraint evt =
     (if c_Namespace constraint \<noteq> ev_K8sNamespace evt then False
      else if c_Selector constraint = None \<or> GetMatchLabels (c_Selector constraint) = None then True
      else
        let constraintLabels = label_set S (matchlabel_pairs (GetMatchLabels (c_Selector constraint)));
            podLabels = label_set S (ev_K8sPodLabels evt)
        in ss_IsSubset S podLabels constraintLabels)"

text \<open>The inner loop over the allowed processes: \<open>True\<close> is \<^verbatim>\<open>break out\<close>.\<close>

fun rules_allow :: "regex \<Rightarrow> string \<Rightarrow> AllowedProcessRule list \<Rightarrow> bool" where
  "rules_allow Compile command [] = False"
| "rules_allow Compile command (allowedProcess # rest) =
     (if GetRegex allowedProcess = [] then rules_allow Compile command rest
      else case Compile (GetRegex allowedProcess) of
        Inl err \<Rightarrow> rules_allow Compile command rest
      | Inr rgx \<Rightarrow> if rgx command then True else rules_allow Compile command rest)"

fun validate_loop :: "'s strset \<Rightarrow> regex \<Rightarrow> ExecEvent \<Rightarrow> Constraint list \<Rightarrow> bool" where
  "validate_loop S Compile evt [] = True"
| "validate_loop S Compile evt (constraint # rest) =
     (if c_AllowedProcesses constraint = None then validate_loop S Compile evt rest
      else if \<not> constraintMatchesPod S constraint evt then validate_loop S Compile evt rest
      else if rules_allow Compile (ev_Command evt) (elems (c_AllowedProcesses constraint)) then False
      else validate_loop S Compile evt rest)"

definition ValidateProcess :: "'s strset \<Rightarrow> regex \<Rightarrow> NodeAgent \<Rightarrow> ExecEvent \<Rightarrow> ExecEvent option" where
  "ValidateProcess S Compile n evt =
     (if ev_K8sNamespace evt = [] \<or> ev_K8sPodName evt = [] then None
      else let violated = validate_loop S Compile evt (elems (na_constraints n))
        in if violated then Some evt else None)"

section \<open>Handling an exec event\<close>

text \<open>The goroutine a handled event starts.\<close>

datatype na_task = RegisterTask ExecEvent | ReportTask ExecEvent

fun registers_process :: "string list \<Rightarrow> bool \<Rightarrow> bool" where
  "registers_process [] flag = flag"
| "registers_process (rule # rest) flag =
     registers_process rest
       (if TrimSpace rule = ''processes'' then True else if TrimSpace rule = ''all'' then True else flag)"

definition handleExecEvent :: "'s strset \<Rightarrow> regex \<Rightarrow> NodeAgent \<Rightarrow> ExecEvent \<Rightarrow> na_task list" where
  "handleExecEvent S Compile n evt =
     (if \<not> na_constraintsInitialized n then []
      else
        let threatScanAnnotationPresent = (map_get (ev_K8sPodAnnotations evt) ThreatScanAnnotation \<noteq> None);
            registerAnnotation = map_get (ev_K8sPodAnnotations evt) RegisterAnnotation;
            registerAnnotationPresent = (registerAnnotation \<noteq> None);
            registerAnnotationValue = (case registerAnnotation of None \<Rightarrow> [] | Some v \<Rightarrow> v)
        in if \<not> threatScanAnnotationPresent \<and> \<not> registerAnnotationPresent then []
           else if registerAnnotationPresent \<and> \<not> na_enableAddConstraint n then []
           else case ValidateProcess S Compile n evt of
             None \<Rightarrow> []
           | Some violation \<Rightarrow>
               let registerRules = Split registerAnnotationValue '','';
                   registerProcess = registers_process registerRules False
               in if registerProcess then [RegisterTask violation] else [ReportTask violation])"

text \<open>\<^verbatim>\<open>filepath.Base\<close>.\<close>

definition Base :: "string \<Rightarrow> string" where
  "Base path =
     (if path = [] then ''.''
      else let stripped = rev (dropWhile (\<lambda>c. c = CHR ''/'') (rev path))
        in if stripped = [] then ''/'' else after_last (CHR ''/'') stripped)"

text \<open>The fields of a detector event that the agent reads.\<close>

record detector_event =
  de_EventId :: string
  de_HostProcessId :: "32 word"
  de_Executable :: string
  de_Context :: "(string \<times> string) list"

fun exec_filename :: "string \<Rightarrow> (string \<times> string) list \<Rightarrow> string" where
  "exec_filename dflt [] = dflt"
| "exec_filename dflt ((name, val) # rest) = (if name = ''filename'' then val else exec_filename dflt rest)"

definition execEventFromTarianDetector :: "detector_event \<Rightarrow> string \<Rightarrow> k8s_pod \<Rightarrow> ExecEvent" where
  "execEventFromTarianDetector bpfEvt containerID pod =
     (let execFileName = exec_filename (de_Executable bpfEvt) (de_Context bpfEvt);
          command = Base execFileName
      in \<lparr>ev_Pid = de_HostProcessId bpfEvt, ev_Command = command, ev_Filename = execFileName,
          ev_ContainerID = containerID, ev_K8sPodUID = kp_UID pod, ev_K8sPodName = kp_Name pod,
          ev_K8sNamespace = kp_Namespace pod, ev_K8sPodLabels = kp_Labels pod,
          ev_K8sPodAnnotations = kp_Annotations pod\<rparr>)"

text \<open>
  One round of the event loop after the detector returned an event without an error:
  the tasks started for it, and whether the event itself is sent as a detection event.
\<close>

definition readEvents_step ::
    "'s strset \<Rightarrow> regex \<Rightarrow> (string \<Rightarrow> go_error + string) \<Rightarrow> (string \<Rightarrow> string \<Rightarrow> go_error + k8s_obj list) \<Rightarrow>
     (detector_event \<Rightarrow> go_error + string) \<Rightarrow> NodeAgent \<Rightarrow> detector_event \<Rightarrow>
     na_task list \<times> (string \<times> string) option" where
  "readEvents_step S Compile ReadFile ByIndex Marshal n event =
     (if de_EventId event = [] then ([], None)
      else case procsContainerID ReadFile (de_HostProcessId event) of
        Inl err \<Rightarrow> ([], None)
      | Inr containerID \<Rightarrow>
          if containerID = [] then ([], None)
          else case FindPod ByIndex containerID of
            None \<Rightarrow> ([], None)
          | Some pod \<Rightarrow>
              let tasks = (if de_EventId event = ''sys_execve_entry''
                           then handleExecEvent S Compile n (execEventFromTarianDetector event containerID pod)
                           else [])
              in case Marshal event of
                   Inl err \<Rightarrow> (tasks, None)
                 | Inr byteData \<Rightarrow> (tasks, Some (de_EventId event, byteData)))"

section \<open>Requests\<close>

definition reportEvent :: "Timestamp \<Rightarrow> ExecEvent \<Rightarrow> IngestEventRequest" where
  "reportEvent now violation =
     (let violatedProcesses = Some [\<lparr>p_Pid = ev_Pid violation, p_Name = ev_Command violation\<rparr>];
          pbPodLabels =
            foldl (\<lambda>ls (k, v). append1 ls (Some \<lparr>l_Key = k, l_Value = v\<rparr>))
              (Some (replicate (length (ev_K8sPodLabels violation)) None)) (ev_K8sPodLabels violation)
      in \<lparr>ier_Event = Some
           \<lparr>e_Kind = [], e_Type = EventTypeViolation, e_Uid = [], e_ServerTimestamp = None,
            e_ClientTimestamp = Some now, e_AlertSentAt = None,
            e_Targets = Some [\<lparr>t_Pod = Some \<lparr>pod_Uid = ev_K8sPodUID violation,
                pod_Namespace = ev_K8sNamespace violation, pod_Name = ev_K8sPodName violation,
                pod_Labels = pbPodLabels\<rparr>,
              t_ViolatedProcesses = violatedProcesses, t_ViolatedFiles = None, t_FalcoAlert = None,
              t_DetectionDataType = [], t_DetectionData = []\<rparr>]\<rparr>\<rparr>)"

definition ReportViolationsToClusterAgent ::
    "('w, IngestEventRequest, IngestEventResponse) rpc \<Rightarrow> Timestamp \<Rightarrow> ExecEvent \<Rightarrow> 'w \<Rightarrow> 'w" where
  "ReportViolationsToClusterAgent ingestEvent now violation w = snd (ingestEvent (reportEvent now violation) w)"

definition detectionEvent :: "Timestamp \<Rightarrow> string \<Rightarrow> string \<Rightarrow> IngestEventRequest" where
  "detectionEvent now detectionDataType detectionData =
     \<lparr>ier_Event = Some
       \<lparr>e_Kind = [], e_Type = EventTypeDetection, e_Uid = [], e_ServerTimestamp = None,
        e_ClientTimestamp = Some now, e_AlertSentAt = None,
        e_Targets = Some [zero_Target\<lparr>t_DetectionDataType := detectionDataType,
                                     t_DetectionData := detectionData\<rparr>]\<rparr>\<rparr>"

definition SendDetectionEventToClusterAgent ::
    "('w, IngestEventRequest, IngestEventResponse) rpc \<Rightarrow> Timestamp \<Rightarrow> string \<Rightarrow> string \<Rightarrow> 'w \<Rightarrow> 'w" where
  "SendDetectionEventToClusterAgent ingestEvent now dt dd w = snd (ingestEvent (detectionEvent now dt dd) w)"

text \<open>\<open>UnixNano() / time.Hour.Milliseconds()\<close>, on a clock after 1970.\<close>

definition name_suffix :: "Timestamp \<Rightarrow> string" where
  "name_suffix now = Itoa (now div 3600000)"

definition processConstraint :: "Timestamp \<Rightarrow> ExecEvent \<Rightarrow> Constraint" where
  "processConstraint now violation =
     (let podLabels = map_delete ''pod-template-hash'' (ev_K8sPodLabels violation)
      in \<lparr>c_Kind = KindConstraint, c_Namespace = ev_K8sNamespace violation,
          c_Name = ev_K8sPodName violation @ ''-'' @ name_suffix now,
          c_Selector = Some \<lparr>sel_MatchLabels = matchLabelsFromPodLabels podLabels\<rparr>,
          c_AllowedProcesses = Some [\<lparr>apr_Regex = Some (ev_Command violation)\<rparr>],
          c_AllowedFiles = None\<rparr>)"

definition RegisterViolationsAsNewConstraint ::
    "('w, AddConstraintRequest, AddConstraintResponse) rpc \<Rightarrow> Timestamp \<Rightarrow> ExecEvent \<Rightarrow> 'w \<Rightarrow> 'w" where
  "RegisterViolationsAsNewConstraint addConstraint now violation w =
     snd (addConstraint \<lparr>acr_Constraint = Some (processConstraint now violation)\<rparr> w)"

fun run_na_task ::
    "('w, AddConstraintRequest, AddConstraintResponse) rpc \<Rightarrow> ('w, IngestEventRequest, IngestEventResponse) rpc \<Rightarrow>
     Timestamp \<Rightarrow> na_task \<Rightarrow> 'w \<Rightarrow> 'w" where
  "run_na_task addConstraint ingestEvent now (RegisterTask v) w =
     RegisterViolationsAsNewConstraint addConstraint now v w"
| "run_na_task addConstraint ingestEvent now (ReportTask v) w =
     ReportViolationsToClusterAgent ingestEvent now v w"

section \<open>Validation meets its specification\<close>

text \<open>
  What a set of constraints permits: some constraint of the pod's namespace whose selector selects
  the pod has a rule whose expression compiles and matches the command.
\<close>

definition permitted :: "regex \<Rightarrow> Constraint list \<Rightarrow> ExecEvent \<Rightarrow> bool" where
  "permitted Compile cs evt \<longleftrightarrow>
     (\<exists>c\<in>set cs. c_Namespace c = ev_K8sNamespace evt \<and>
        selects (c_Selector c) (ev_K8sPodLabels evt) \<and>
        (\<exists>r\<in>set (elems (c_AllowedProcesses c)). \<exists>rgx.
           GetRegex r \<noteq> [] \<and> Compile (GetRegex r) = Inr rgx \<and> rgx (ev_Command evt)))"

definition plain_constraint :: "Constraint \<Rightarrow> bool" where
  "plain_constraint c = plain_keys (matchlabel_pairs (GetMatchLabels (c_Selector c)))"

lemma rules_allow_iff:
  "rules_allow Compile cmd rs \<longleftrightarrow>
     (\<exists>r\<in>set rs. \<exists>rgx. GetRegex r \<noteq> [] \<and> Compile (GetRegex r) = Inr rgx \<and> rgx cmd)"
  by (induction rs) (auto split: sum.splits)

lemma constraintMatchesPod_code:
  "constraintMatchesPod S c evt \<longleftrightarrow>
     c_Namespace c = ev_K8sNamespace evt \<and>
     (no_selector (c_Selector c) \<or> labels_include S (ev_K8sPodLabels evt) (c_Selector c))"
  by (auto simp: constraintMatchesPod_def no_selector_def labels_include_def Let_def)

lemma constraintMatchesPod_iff:
  assumes "strset_ok S mem" "plain_keys (ev_K8sPodLabels evt)" "plain_constraint c"
  shows "constraintMatchesPod S c evt \<longleftrightarrow>
     c_Namespace c = ev_K8sNamespace evt \<and> selects (c_Selector c) (ev_K8sPodLabels evt)"
  using assms labels_include_iff[OF assms(1,2), of "c_Selector c"]
  by (auto simp: constraintMatchesPod_code plain_constraint_def dest: no_selector_selects)

lemma validate_loop_iff:
  "validate_loop S Compile evt cs \<longleftrightarrow>
     \<not> (\<exists>c\<in>set cs. constraintMatchesPod S c evt \<and> rules_allow Compile (ev_Command evt) (elems (c_AllowedProcesses c)))"
proof (induction cs)
  case (Cons c cs)
  then show ?case by (cases "c_AllowedProcesses c") auto
qed simp

lemma validate_loop_permitted:
  assumes "strset_ok S mem" "plain_keys (ev_K8sPodLabels evt)" "\<forall>c\<in>set cs. plain_constraint c"
  shows "validate_loop S Compile evt cs \<longleftrightarrow> \<not> permitted Compile cs evt"
  using assms by (auto simp: validate_loop_iff permitted_def rules_allow_iff constraintMatchesPod_iff)

text \<open>
  C1: \<^verbatim>\<open>ValidateProcess\<close> reports a process exactly when the pod is known (it has a namespace and a name)
  and the cached constraints do not permit the command. A rule whose expression is empty or does
  not compile permits nothing. Labels are compared as key-value pairs although the code compares
  the strings \<^verbatim>\<open>key=value\<close>, because label keys hold no equals sign.
\<close>

theorem ValidateProcess_spec:
  assumes "strset_ok S mem" "plain_keys (ev_K8sPodLabels evt)"
    and "\<forall>c\<in>set (elems (na_constraints n)). plain_constraint c"
  shows "ValidateProcess S Compile n evt =
     (if ev_K8sNamespace evt = [] \<or> ev_K8sPodName evt = [] \<or> permitted Compile (elems (na_constraints n)) evt
      then None else Some evt)"
  using validate_loop_permitted[OF assms] by (simp add: ValidateProcess_def Let_def)

definition demo_constraint :: Constraint where
  "demo_constraint = \<lparr>c_Kind = KindConstraint, c_Namespace = ''default'', c_Name = ''nginx'',
     c_Selector = Some \<lparr>sel_MatchLabels = Some [\<lparr>ml_Key = ''run'', ml_Value = ''nginx''\<rparr>]\<rparr>,
     c_AllowedProcesses = Some [\<lparr>apr_Regex = Some ''nginx''\<rparr>], c_AllowedFiles = None\<rparr>"

definition demo_event :: "string \<Rightarrow> string \<Rightarrow> ExecEvent" where
  "demo_event cmd annotation = \<lparr>ev_Pid = 7, ev_Command = cmd, ev_Filename = ''/usr/bin/'' @ cmd,
     ev_ContainerID = ''c'', ev_K8sPodUID = ''u'', ev_K8sPodName = ''web'', ev_K8sNamespace = ''default'',
     ev_K8sPodLabels = [(''run'', ''nginx''), (''pod-template-hash'', ''5f'')],
     ev_K8sPodAnnotations = [(annotation, ''all'')]\<rparr>"

definition demo_agent :: NodeAgent where
  "demo_agent = (NewNodeAgent ''addr'')\<lparr>na_constraints := Some [demo_constraint],
     na_constraintsInitialized := True, na_enableAddConstraint := True\<rparr>"

text \<open>A regular-expression engine for the examples: an expression matches itself only.\<close>

definition demo_regex :: regex where
  "demo_regex e = Inr (\<lambda>s. s = e)"

theorem ValidateProcess_spec_witness:
  "ValidateProcess list_strset demo_regex demo_agent (demo_event ''sh'' RegisterAnnotation) =
     Some (demo_event ''sh'' RegisterAnnotation) \<and>
   ValidateProcess list_strset demo_regex demo_agent (demo_event ''nginx'' RegisterAnnotation) = None"
proof -
  have plain: "\<forall>c\<in>set (elems (na_constraints demo_agent)). plain_constraint c"
    "\<And>cmd. plain_keys (ev_K8sPodLabels (demo_event cmd RegisterAnnotation))"
    by (simp_all add: demo_agent_def demo_constraint_def demo_event_def plain_constraint_def plain_keys_def
        matchlabel_pairs_def GetMatchLabels_def)
  have p: "permitted demo_regex (elems (na_constraints demo_agent)) (demo_event cmd RegisterAnnotation) \<longleftrightarrow> cmd = ''nginx''" for cmd
    by (simp add: permitted_def demo_agent_def demo_constraint_def demo_event_def demo_regex_def
        selects_def matchlabel_pairs_def GetMatchLabels_def GetRegex_def)
  show ?thesis
    using ValidateProcess_spec[OF list_strset_ok plain(2) plain(1)]
    by (simp add: p) (simp add: demo_event_def)
qed

text \<open>
  Adding constraints never turns a permitted process into a violation: whatever the cache of
  constraints grows to, a process that was accepted stays accepted.
\<close>

theorem ValidateProcess_mono:
  assumes "set (elems (na_constraints n)) \<subseteq> set (elems (na_constraints n'))"
    and "ValidateProcess S Compile n evt = None"
  shows "ValidateProcess S Compile n' evt = None"
  using assms by (auto simp: ValidateProcess_def validate_loop_iff Let_def split: if_splits)

theorem ValidateProcess_mono_witness:
  "ValidateProcess list_strset demo_regex (demo_agent\<lparr>na_constraints := Some [demo_constraint, NewConstraint]\<rparr>)
     (demo_event ''nginx'' RegisterAnnotation) = None"
proof (rule ValidateProcess_mono[of demo_agent])
  show "set (elems (na_constraints demo_agent)) \<subseteq>
      set (elems (na_constraints (demo_agent\<lparr>na_constraints := Some [demo_constraint, NewConstraint]\<rparr>)))"
    by (simp add: demo_agent_def)
  show "ValidateProcess list_strset demo_regex demo_agent (demo_event ''nginx'' RegisterAnnotation) = None"
    by (simp add: ValidateProcess_def demo_agent_def demo_constraint_def demo_event_def demo_regex_def
        constraintMatchesPod_def list_strset_def label_set_def matchlabel_pairs_def GetMatchLabels_def
        GetRegex_def kv_def Let_def)
qed

section \<open>The decision on an exec event\<close>

definition asks_registration :: "ExecEvent \<Rightarrow> bool" where
  "asks_registration evt \<longleftrightarrow>
     (\<exists>v. map_get (ev_K8sPodAnnotations evt) RegisterAnnotation = Some v \<and>
        (\<exists>rule\<in>set (Split v '',''). TrimSpace rule \<in> {''processes'', ''all''}))"

lemma registers_process_iff:
  "registers_process rules flag \<longleftrightarrow> flag \<or> (\<exists>r\<in>set rules. TrimSpace r \<in> {''processes'', ''all''})"
  by (induction rules arbitrary: flag) auto

lemma no_rule_in_empty: "\<not> (\<exists>r\<in>set (Split [] '',''). TrimSpace r \<in> {''processes'', ''all''})"
  by (simp add: Split_no_sep TrimSpace_def Trim_def)

text \<open>
  What an executed process leads to. A violation is registered as a new constraint exactly when
  the constraints were synchronised, the cluster allows registration and the pod's register
  annotation asks for it; it is reported exactly when the constraints were synchronised and either
  the pod is only scanned, or registration is allowed but not of processes. No other task starts,
  so a pod without one of the two annotations is never acted upon.
\<close>

theorem handleExecEvent_decision:
  "handleExecEvent S Compile n evt =
     (case ValidateProcess S Compile n evt of
        None \<Rightarrow> []
      | Some v \<Rightarrow>
          if na_constraintsInitialized n \<and> na_enableAddConstraint n \<and> asks_registration evt then [RegisterTask v]
          else if na_constraintsInitialized n \<and>
            (if map_get (ev_K8sPodAnnotations evt) RegisterAnnotation = None
             then map_get (ev_K8sPodAnnotations evt) ThreatScanAnnotation \<noteq> None
             else na_enableAddConstraint n \<and> \<not> asks_registration evt)
          then [ReportTask v] else [])"
  using no_rule_in_empty
  by (auto simp: handleExecEvent_def asks_registration_def registers_process_iff Let_def split: option.splits)

section \<open>What is reported\<close>

lemma fold_append_labels:
  "foldl (\<lambda>ls (k, v). append1 ls (Some \<lparr>l_Key = k, l_Value = v\<rparr>)) (Some xs) kvs =
     Some (xs @ map (\<lambda>(k, v). Some \<lparr>l_Key = k, l_Value = v\<rparr>) kvs)"
  by (induction kvs arbitrary: xs) (auto simp: append1_def)

text \<open>
  The pod of a reported violation has the labels of the pod, but preceded by as many nil labels:
  the slice is made with the length of the label map and then appended to.
\<close>

theorem reportEvent_labels:
  assumes "ier_Event (reportEvent now v) = Some e" "e_Targets e = Some [t]" "t_Pod t = Some pod"
  shows "pod_Labels pod =
     Some (replicate (length (ev_K8sPodLabels v)) None @
       map (\<lambda>(k, w). Some \<lparr>l_Key = k, l_Value = w\<rparr>) (ev_K8sPodLabels v))"
  using assms by (auto simp: reportEvent_def Let_def fold_append_labels)

theorem reportEvent_labels_witness:
  "\<exists>e t pod. ier_Event (reportEvent 5 (demo_event ''sh'' RegisterAnnotation)) = Some e \<and> e_Targets e = Some [t] \<and>
     t_Pod t = Some pod \<and> elems (pod_Labels pod) ! 0 = None \<and> length (elems (pod_Labels pod)) = 4"
proof -
  obtain e t pod where e: "ier_Event (reportEvent 5 (demo_event ''sh'' RegisterAnnotation)) = Some e"
    and t: "e_Targets e = Some [t]" and p: "t_Pod t = Some pod"
    by (simp add: reportEvent_def Let_def)
  show ?thesis using e t p reportEvent_labels[OF e t p] by (simp add: demo_event_def numeral_2_eq_2)
qed

end
