(* ===== verification/NodeAgentCmd.thy ===== *)
theory NodeAgentCmd
  imports NodeAgent
begin

text \<open>
  The node agent as a process: the command \<^verbatim>\<open>run\<close> of \<^verbatim>\<open>cmd/tarian-node-agent\<close> with its checks of the host, the
  set-up of the pod watcher and of the eBPF detector, and the two loops that \<^verbatim>\<open>Run\<close> starts, as a step
  relation. System calls, the Kubernetes client and the detector are parameters.
\<close>

section \<open>The kernel version\<close>

fun charsToString :: "8 word list \<Rightarrow> string" where
  "charsToString [] = []"
| "charsToString (c # ca) = (if c = 0 then [] else char_of (unat c) # charsToString ca)"

text \<open>How a command ends before or while it runs: with an error, by \<^verbatim>\<open>logger.Fatal\<close>, or with a value.\<close>

datatype 'a command_end = ReturnErr go_error | Fatal string | Ok 'a

definition setLinuxKernelVersion :: "go_error + 8 word list \<Rightarrow> (string \<times> string) list command_end" where
  "setLinuxKernelVersion uname =
     (case uname of
        Inl err \<Rightarrow> ReturnErr (Wrap ''error while making syscall to get linux kernel version: %w'' (Some err))
      | Inr release \<Rightarrow>
          (let linuxKernelVersion = charsToString release;
               strArr = Split linuxKernelVersion ''.''
           in if length strArr < 3 then Fatal ''invalid linux kernel version''
              else
                let majorVersion = strArr ! 0; minorVersion = strArr ! 1; patch = strArr ! 2;
                    patchVersion = Split patch ''-'' ! 0
                in Ok [(''LINUX_VERSION_MAJOR'', majorVersion), (''LINUX_VERSION_MINOR'', minorVersion),
                       (''LINUX_VERSION_PATCH'', patchVersion)]))"

section \<open>The command\<close>

definition DebugFSMagic :: int where "DebugFSMagic = 0x64626720"

definition DebugFSRoot :: string where "DebugFSRoot = ''/sys/kernel/debug''"

text \<open>\<^verbatim>\<open>Statfs\<close> gives the type of the file system, \<^verbatim>\<open>Stat\<close> whether a path exists or the error to read it.\<close>

datatype stat_result = Exists | NotExist go_error | StatFails go_error

record host =
  h_Statfs :: "string \<Rightarrow> go_error + int"
  h_Mount :: "string \<Rightarrow> string \<Rightarrow> string \<Rightarrow> go_error option"
  h_Stat :: "string \<Rightarrow> stat_result"
  h_Uname :: "go_error + 8 word list"
  h_RemoveMemlock :: "go_error option"

definition isDebugFsMounted :: "host \<Rightarrow> bool" where
  "isDebugFsMounted h = (case h_Statfs h DebugFSRoot of Inl err \<Rightarrow> False | Inr t \<Rightarrow> t = DebugFSMagic)"

definition mountDebugFs :: "host \<Rightarrow> go_error option" where
  "mountDebugFs h = h_Mount h DebugFSRoot DebugFSRoot ''debugfs''"

record nodeRunCommand =
  nr_clusterAgentHost :: string
  nr_clusterAgentPort :: string
  nr_nodeName :: string
  nr_enableAddConstraint :: bool

definition newNodeRunCommand :: nodeRunCommand where
  "newNodeRunCommand = \<lparr>nr_clusterAgentHost = ''tarian-cluster-agent.tarian-system.svc'', nr_clusterAgentPort = ''80'',
     nr_nodeName = [], nr_enableAddConstraint = False\<rparr>"

text \<open>The agent that the command starts, and the variables it sets in its environment.\<close>

definition node_run :: "host \<Rightarrow> nodeRunCommand \<Rightarrow> (NodeAgent \<times> (string \<times> string) list) command_end" where
  "node_run h c =
     (case (if isDebugFsMounted h then None else mountDebugFs h) of
        Some err \<Rightarrow> ReturnErr (Wrap ''failed to mount debugfs: %w'' (Some err))
      | None \<Rightarrow>
          (case h_Stat h HostProcDir of
             NotExist err \<Rightarrow> ReturnErr (Wrap ''host proc is not mounted: %w'' (Some err))
           | _ \<Rightarrow>
               (case setLinuxKernelVersion (h_Uname h) of
                  ReturnErr err \<Rightarrow> ReturnErr (Wrap ''failed to set linux kernel version: %w'' (Some err))
                | Fatal msg \<Rightarrow> Fatal msg
                | Ok env \<Rightarrow>
                    (case h_RemoveMemlock h of
                       Some err \<Rightarrow> Fatal ''RemoveMemlock''
                     | None \<Rightarrow>
                         (let addr = nr_clusterAgentHost c @ '':'' @ nr_clusterAgentPort c
                          in Ok (na_SetNodeName (nr_nodeName c) (na_EnableAddConstraint (nr_enableAddConstraint c) (NewNodeAgent addr)), env))))))"

section \<open>Setting up the watcher and the detector\<close>

text \<open>What the agent watches: the pods that the field selector selects, indexed by \<open>containerIndexFunc\<close>.\<close>

record PodWatcher =
  pw_FieldSelector :: string
  pw_Indexers :: "(string \<times> (k8s_obj \<Rightarrow> go_error + string list)) list"
  pw_Store :: "k8s_obj list option"

text \<open>
  The programs of the eBPF module. \<^verbatim>\<open>Attach\<close> is called twice and may answer differently, so that it works
  on a state.
\<close>

record ebpf_program =
  pr_Info :: "go_error + string"
  pr_enabled :: bool

record 'x detector_env =
  dt_Dial :: "go_error option"
  dt_InClusterConfig :: "go_error option"
  dt_NewForConfig :: "go_error option"
  dt_AddIndexers :: "go_error option"
  dt_ListPods :: "string \<Rightarrow> k8s_obj list"
  dt_GetModule :: "go_error + ebpf_program list"
  dt_Prepare :: "ebpf_program list \<Rightarrow> go_error option"
  dt_Attach :: "ebpf_program list \<Rightarrow> ('x, go_error option) io"
  dt_Start :: "go_error option"

definition NewPodWatcher :: "'x detector_env \<Rightarrow> string \<Rightarrow> go_error + PodWatcher" where
  "NewPodWatcher E nodeName =
     (case dt_AddIndexers E of
        Some err \<Rightarrow> Inl (Wrap ''NewPodWatcher: %w'' (Some err))
      | None \<Rightarrow> Inr \<lparr>pw_FieldSelector = (if nodeName \<noteq> [] then ''spec.nodeName='' @ nodeName else []),
          pw_Indexers = [(containerIdx, containerIndexFunc)], pw_Store = None\<rparr>)"

text \<open>The informer has its first list of pods when \<^verbatim>\<open>Start\<close> returns; \<open>dt_ListPods\<close> is what the cluster answers.\<close>

definition PodWatcher_Start :: "'x detector_env \<Rightarrow> PodWatcher \<Rightarrow> PodWatcher" where
  "PodWatcher_Start E watcher = watcher\<lparr>pw_Store := Some (dt_ListPods E (pw_FieldSelector watcher))\<rparr>"

text \<open>\<^verbatim>\<open>NewForConfigOrDie\<close> panics.\<close>

definition setupPodWatcher :: "'x detector_env \<Rightarrow> NodeAgent \<Rightarrow> PodWatcher command_end" where
  "setupPodWatcher E n =
     (case dt_InClusterConfig E of
        Some err \<Rightarrow> ReturnErr (Wrap ''error while creating k8s client config: %w'' (Some err))
      | None \<Rightarrow>
          (case dt_NewForConfig E of
             Some err \<Rightarrow> Fatal ''NewForConfigOrDie''
           | None \<Rightarrow>
               (case NewPodWatcher E (na_nodeName n) of
                  Inl err \<Rightarrow> ReturnErr (Wrap ''error while starting pod-watcher: %w'' (Some err))
                | Inr watcher \<Rightarrow> Ok (PodWatcher_Start E watcher))))"

definition skip_program :: "ebpf_program \<Rightarrow> ebpf_program" where
  "skip_program p = (case pr_Info p of
     Inl err \<Rightarrow> p
   | Inr name \<Rightarrow> if Contains name ''tdf_write'' \<or> Contains name ''tdf_read'' then p\<lparr>pr_enabled := False\<rparr> else p)"

definition setupEventsDetector :: "'x detector_env \<Rightarrow> ('x, go_error + ebpf_program list) io" where
  "setupEventsDetector E x =
     (case dt_GetModule E of
        Inl err \<Rightarrow> (Inl (Wrap ''error while getting tarian-detector ebpf module: %w'' (Some err)), x)
      | Inr module \<Rightarrow>
          (let programs = map skip_program module
           in case dt_Prepare E programs of
                Some err \<Rightarrow> (Inl (Wrap ''error while preparing tarian-detector: %w'' (Some err)), x)
              | None \<Rightarrow>
                  (case dt_Attach E programs x of
                     (Some err, x') \<Rightarrow> (Inl (Wrap ''error while preparing tarian-detector: %w'' (Some err)), x')
                   | (None, x') \<Rightarrow> (Inr programs, x'))))"

text \<open>The part of \<^verbatim>\<open>loopTarianDetectorReadEvents\<close> before its loop.\<close>

definition start_detector :: "'x detector_env \<Rightarrow> NodeAgent \<Rightarrow> ('x, (PodWatcher \<times> ebpf_program list) command_end) io" where
  "start_detector E n x =
     (case setupPodWatcher E n of
        ReturnErr err \<Rightarrow> (ReturnErr err, x)
      | Fatal msg \<Rightarrow> (Fatal msg, x)
      | Ok watcher \<Rightarrow>
          (case setupEventsDetector E x of
             (Inl err, x1) \<Rightarrow> (ReturnErr err, x1)
           | (Inr programs, x1) \<Rightarrow>
               (case dt_Start E of
                  Some err \<Rightarrow> (ReturnErr (Wrap ''error while starting tarian-detector: %w'' (Some err)), x1)
                | None \<Rightarrow>
                    (case dt_Attach E programs x1 of
                       (Some err, x2) \<Rightarrow> (ReturnErr (Wrap ''error while attaching tarian-detector: %w'' (Some err)), x2)
                     | (None, x2) \<Rightarrow> (Ok (watcher, programs), x2)))))"

section \<open>The running agent\<close>

text \<open>
  The process after \<^verbatim>\<open>Run\<close> started its two goroutines: the agent, which of the two loops are still
  running, and whether the process was ended by a \<^verbatim>\<open>Fatal\<close>. \<^verbatim>\<open>Run\<close> discards what the loops return.
\<close>

record na_process =
  np_agent :: NodeAgent
  np_syncing :: bool
  np_reading :: bool
  np_dead :: bool

text \<open>\<^verbatim>\<open>Dial\<close> ends the process when the cluster agent cannot be dialled.\<close>

definition na_Run :: "'x detector_env \<Rightarrow> NodeAgent \<Rightarrow> 'x \<Rightarrow> na_process" where
  "na_Run E n x =
     (let dead = \<lparr>np_agent = n, np_syncing = False, np_reading = False, np_dead = True\<rparr> in
      if dt_Dial E \<noteq> None then dead
      else (case fst (start_detector E n x) of
        ReturnErr err \<Rightarrow> \<lparr>np_agent = n, np_syncing = True, np_reading = False, np_dead = False\<rparr>
      | Fatal msg \<Rightarrow> dead
      | Ok _ \<Rightarrow> \<lparr>np_agent = n, np_syncing = True, np_reading = True, np_dead = False\<rparr>))"

definition np_returned :: "na_process \<Rightarrow> bool" where
  "np_returned p \<longleftrightarrow> \<not> np_syncing p \<and> \<not> np_reading p"

text \<open>
  A step with the tasks it starts: a synchronisation with the answer of the cluster agent, a round of
  the reading loop, the signal handler, and the end of a loop that sees the cancelled context.
\<close>

record ('s, 'w) na_libs =
  nl_set :: "'s strset"
  nl_Compile :: regex
  nl_ReadFile :: "string \<Rightarrow> go_error + string"
  nl_ByIndex :: "string \<Rightarrow> string \<Rightarrow> go_error + k8s_obj list"
  nl_Marshal :: "detector_event \<Rightarrow> go_error + string"
  nl_GetConstraints :: "('w, GetConstraintsRequest, GetConstraintsResponse) rpc"

inductive na_step ::
  "('s, 'w) na_libs \<Rightarrow> na_process \<Rightarrow> na_task list \<times> (string \<times> string) option \<Rightarrow> na_process \<Rightarrow> bool"
  for L where
  synced: "np_syncing p \<Longrightarrow> \<not> np_dead p \<Longrightarrow> na_SyncConstraints (nl_GetConstraints L) (np_agent p) w = (Some n, w') \<Longrightarrow>
    na_step L p ([], None) (p\<lparr>np_agent := n\<rparr>)"
| sync_failed: "np_syncing p \<Longrightarrow> \<not> np_dead p \<Longrightarrow> na_SyncConstraints (nl_GetConstraints L) (np_agent p) w = (None, w') \<Longrightarrow>
    na_step L p ([], None)
      (p\<lparr>np_syncing := False, np_reading := False, np_dead := True\<rparr>)"
| sync_ends: "np_syncing p \<Longrightarrow> \<not> np_dead p \<Longrightarrow> na_cancelled (np_agent p) \<Longrightarrow>
    na_step L p ([], None) (p\<lparr>np_syncing := False\<rparr>)"
| read_event: "np_reading p \<Longrightarrow> \<not> np_dead p \<Longrightarrow>
    readEvents_step (nl_set L) (nl_Compile L) (nl_ReadFile L) (nl_ByIndex L) (nl_Marshal L) (np_agent p) event = r \<Longrightarrow>
    na_step L p r p"
| read_ends: "np_reading p \<Longrightarrow> \<not> np_dead p \<Longrightarrow> na_cancelled (np_agent p) \<Longrightarrow>
    na_step L p ([], None) (p\<lparr>np_reading := False\<rparr>)"
| stopped: "\<not> np_dead p \<Longrightarrow>
    na_step L p ([], None) (p\<lparr>np_agent := na_GracefulStop (np_agent p)\<rparr>)"

inductive na_steps ::
  "('s, 'w) na_libs \<Rightarrow> na_process \<Rightarrow> (na_task list \<times> (string \<times> string) option) list \<Rightarrow> na_process \<Rightarrow> bool"
  for L where
  none: "na_steps L p [] p"
| more: "na_steps L p tr p' \<Longrightarrow> na_step L p' r p'' \<Longrightarrow>
    na_steps L p (tr @ [r]) p''"

section \<open>Reading the kernel version\<close>

lemma char_byte: "char_of (unat (of_nat (of_char c) :: 8 word)) = (c :: char)"
  by (simp add: unat_of_nat)

lemma char_byte_zero: "(of_nat (of_char c) :: 8 word) = 0 \<longleftrightarrow> c = CHR 0x00"
proof -
  have "(of_nat (of_char c) :: 8 word) = 0 \<longleftrightarrow> unat (of_nat (of_char c) :: 8 word) = 0" by (simp add: unat_eq_0)
  also have "\<dots> \<longleftrightarrow> of_char c = (0 :: nat)" by (simp add: unat_of_nat)
  also have "\<dots> \<longleftrightarrow> c = CHR 0x00"
  proof
    assume "of_char c = (0 :: nat)"
    then have "c = char_of (0 :: nat)" by (metis char_of_char)
    then show "c = CHR 0x00" by (simp add: char_of_def)
  qed simp
  finally show ?thesis .
qed

lemma charsToString_terminated:
  "CHR 0x00 \<notin> set s \<Longrightarrow> charsToString (map (\<lambda>c. of_nat (of_char c)) s @ 0 # rest) = s"
  by (induction s) (auto simp: char_byte char_byte_zero)

text \<open>
  The three numbers of a kernel release \<^verbatim>\<open>major.minor.patch-suffix\<close>, as \<^verbatim>\<open>uname\<close> gives it in a buffer
  that ends with a zero byte, are what the node agent puts into its environment, whatever the suffix
  and the rest of the buffer are.
\<close>

theorem kernel_version_set:
  assumes "CHR ''.'' \<notin> set major" "CHR ''.'' \<notin> set minor" "CHR ''.'' \<notin> set patch" "CHR ''-'' \<notin> set patch"
    and "CHR 0x00 \<notin> set (major @ minor @ patch @ suffix)"
  shows "setLinuxKernelVersion (Inr (map (\<lambda>c. of_nat (of_char c)) (major @ ''.'' @ minor @ ''.'' @ patch @ ''-'' @ suffix) @ 0 # rest)) =
     Ok [(''LINUX_VERSION_MAJOR'', major), (''LINUX_VERSION_MINOR'', minor), (''LINUX_VERSION_PATCH'', patch)]"
proof -
  let ?v = "major @ ''.'' @ minor @ ''.'' @ patch @ ''-'' @ suffix"
  have v: "charsToString (map (\<lambda>c. of_nat (of_char c)) ?v @ 0 # rest) = ?v"
    using assms(5) by (intro charsToString_terminated) auto
  have "Split ?v ''.'' = major # minor # Split (patch @ CHR ''-'' # suffix) ''.''"
    using assms(1,2) Split_at_sep[of "CHR ''.''" major] Split_at_sep[of "CHR ''.''" minor] by simp
  moreover have "\<exists>q qs. Split (patch @ CHR ''-'' # suffix) ''.'' = (patch @ CHR ''-'' # q) # qs"
  proof (cases "CHR ''.'' \<in> set suffix")
    case True
    then obtain a b where s: "suffix = a @ CHR ''.'' # b" "CHR ''.'' \<notin> set a" by (meson split_list_first)
    then show ?thesis using Split_at_sep[of "CHR ''.''" "patch @ CHR ''-'' # a" b] assms(3) by auto
  next
    case False
    then show ?thesis using Split_no_sep[of "CHR ''.''" "patch @ CHR ''-'' # suffix"] assms(3) by auto
  qed
  ultimately obtain q qs where sp: "Split ?v ''.'' = major # minor # (patch @ CHR ''-'' # q) # qs" by auto
  have "Split (patch @ CHR ''-'' # q) ''-'' ! 0 = patch" using Split_at_sep[OF assms(4)] by simp
  then show ?thesis unfolding setLinuxKernelVersion_def using v sp by simp
qed

theorem kernel_version_set_witness:
  "setLinuxKernelVersion (Inr (map (\<lambda>c. of_nat (of_char c)) ''5.15.0-91-generic'' @ [0, 0])) =
     Ok [(''LINUX_VERSION_MAJOR'', ''5''), (''LINUX_VERSION_MINOR'', ''15''), (''LINUX_VERSION_PATCH'', ''0'')]"
  using kernel_version_set[of "''5''" "''15''" "''0''" "''91-generic''" "[0]"] by simp

section \<open>An agent without a detector\<close>

text \<open>
  While the reading loop does not run, no step starts a task, and the loop does not come back; the
  process returns only after it was stopped.
\<close>

definition blind :: "na_process \<Rightarrow> bool" where
  "blind p \<longleftrightarrow> \<not> np_reading p \<and> (\<not> np_dead p \<and> \<not> na_cancelled (np_agent p) \<longrightarrow> np_syncing p)"

lemma sync_keeps_cancelled: "na_SyncConstraints g n w = (Some n', w') \<Longrightarrow> na_cancelled n' = na_cancelled n"
  by (auto simp: na_SyncConstraints_def na_SetConstraints_def split: prod.splits sum.splits)

lemma blind_step:
  "na_step L p r p' \<Longrightarrow> blind p \<Longrightarrow> blind p' \<and> r = ([], None)"
  by (induction rule: na_step.cases) (auto simp: blind_def na_GracefulStop_def sync_keeps_cancelled)

lemma blind_steps:
  "na_steps L p tr p' \<Longrightarrow> blind p \<Longrightarrow> blind p' \<and> (\<forall>r\<in>set tr. r = ([], None))"
  by (induction rule: na_steps.induct) (use blind_step in fastforce)+


definition broken_detector :: "unit detector_env" where
  "broken_detector = \<lparr>dt_Dial = None, dt_InClusterConfig = None, dt_NewForConfig = None, dt_AddIndexers = None, dt_ListPods = (\<lambda>_. []),
     dt_GetModule = Inr [\<lparr>pr_Info = Inr ''tdf_read_entry'', pr_enabled = True\<rparr>], dt_Prepare = (\<lambda>_. None),
     dt_Attach = (\<lambda>_ x. (Some (ExtError ''permission denied''), x)), dt_Start = None\<rparr>"

definition sample_na_libs :: "(string list, unit) na_libs" where
  "sample_na_libs = \<lparr>nl_set = list_strset, nl_Compile = demo_regex, nl_ReadFile = (\<lambda>_. Inr []), nl_ByIndex = (\<lambda>_ _. Inr []),
     nl_Marshal = (\<lambda>_. Inr []), nl_GetConstraints = (\<lambda>_ w. (Inl (ExtError ''unavailable''), w))\<rparr>"


end
