(* ===== verification/Json.thy ===== *)
theory Json
  imports GoStrings
begin

text \<open>
  What the program uses of \<^verbatim>\<open>encoding/json\<close>: the JSON values, the compact form \<^verbatim>\<open>json.Marshal\<close> writes,
  a recursive descent parser for \<^verbatim>\<open>json.Unmarshal\<close>, and the reading of struct fields. Strings are byte
  strings: the bytes of a UTF-8 sequence pass through. Numbers are integers, because no struct of the
  program that is read with this package has another kind of number; the parser refuses a fraction,
  as \<^verbatim>\<open>Unmarshal\<close> refuses it for an integer field. The fuel of the parser bounds its recursion; the
  length of the text is enough for every text the printer writes.
\<close>

datatype json =
    JNull
  | JBool bool
  | JNum int
  | JStr string
  | JArr "json list"
  | JObj "(string \<times> json) list"

section \<open>Printing\<close>

definition hex_digit :: "nat \<Rightarrow> char" where
  "hex_digit n = (if n < 10 then char_of (n + 48) else char_of (n + 87))"

text \<open>The escapes of \<^verbatim>\<open>json.Marshal\<close>, which also escapes the characters special in HTML.\<close>

definition json_escape :: "char \<Rightarrow> string" where
  "json_escape c =
     (if c = CHR 0x22 \<or> c = CHR 0x5C then [CHR 0x5C, c]
      else if c = CHR 0x0A then [CHR 0x5C, CHR ''n'']
      else if c = CHR 0x0D then [CHR 0x5C, CHR ''r'']
      else if c = CHR 0x09 then [CHR 0x5C, CHR ''t'']
      else if (of_char c :: nat) < 32 \<or> c = CHR ''<'' \<or> c = CHR ''>'' \<or> c = CHR ''&''
      then [CHR 0x5C, CHR ''u'', CHR ''0'', CHR ''0'', hex_digit (of_char c div 16), hex_digit (of_char c mod 16)]
      else [c])"

definition render_string :: "string \<Rightarrow> string" where
  "render_string s = CHR 0x22 # concat (map json_escape s) @ [CHR 0x22]"

function render :: "json \<Rightarrow> string" and render_elems :: "json list \<Rightarrow> string"
  and render_members :: "(string \<times> json) list \<Rightarrow> string" where
  "render JNull = ''null''"
| "render (JBool b) = (if b then ''true'' else ''false'')"
| "render (JNum i) = Itoa i"
| "render (JStr s) = render_string s"
| "render (JArr xs) = CHR ''['' # render_elems xs @ '']''"
| "render (JObj kvs) = CHR ''{'' # render_members kvs @ ''}''"
| "render_elems [] = []"
| "render_elems [x] = render x"
| "render_elems (x # y # xs) = render x @ CHR '','' # render_elems (y # xs)"
| "render_members [] = []"
| "render_members [(k, v)] = render_string k @ CHR '':'' # render v"
| "render_members ((k, v) # kv # kvs) =
     render_string k @ CHR '':'' # render v @ CHR '','' # render_members (kv # kvs)"
  by pat_completeness auto
termination
  by (relation "measure (\<lambda>x. case x of Inl j \<Rightarrow> size j | Inr (Inl js) \<Rightarrow> size_list size js
        | Inr (Inr kvs) \<Rightarrow> size_list (size_prod (\<lambda>_. 0) size) kvs)") auto

section \<open>Parsing\<close>

definition hex_val :: "char \<Rightarrow> nat option" where
  "hex_val c = (let n = of_char c :: nat in
     if 48 \<le> n \<and> n < 58 then Some (n - 48)
     else if 97 \<le> n \<and> n < 103 then Some (n - 87)
     else if 65 \<le> n \<and> n < 71 then Some (n - 55)
     else None)"

text \<open>The bytes of a \<^verbatim>\<open>\uXXXX\<close> escape below the surrogates.\<close>

definition utf8_bytes :: "nat \<Rightarrow> string" where
  "utf8_bytes n =
     (if n < 128 then [char_of n]
      else if n < 2048 then [char_of (192 + n div 64), char_of (128 + n mod 64)]
      else [char_of (224 + n div 4096), char_of (128 + n div 64 mod 64), char_of (128 + n mod 64)])"

definition json_unescape :: "char \<Rightarrow> char option" where
  "json_unescape c =
     (if c = CHR 0x22 \<or> c = CHR 0x5C \<or> c = CHR ''/'' then Some c
      else if c = CHR ''n'' then Some (CHR 0x0A)
      else if c = CHR ''r'' then Some (CHR 0x0D)
      else if c = CHR ''t'' then Some (CHR 0x09)
      else if c = CHR ''b'' then Some (CHR 0x08)
      else if c = CHR ''f'' then Some (CHR 0x0C)
      else None)"

definition hex4 :: "char \<Rightarrow> char \<Rightarrow> char \<Rightarrow> char \<Rightarrow> nat option" where
  "hex4 a b c d = (case (hex_val a, hex_val b, hex_val c, hex_val d) of
     (Some i, Some j, Some k, Some l) \<Rightarrow> Some (i * 4096 + j * 256 + k * 16 + l)
   | _ \<Rightarrow> None)"

fun parse_string :: "nat \<Rightarrow> string \<Rightarrow> (string \<times> string) option" where
  "parse_string 0 s = None"
| "parse_string (Suc n) [] = None"
| "parse_string (Suc n) (x # s) =
     (if x = CHR 0x22 then Some ([], s)
      else if x = CHR 0x5C then
        (case s of
           [] \<Rightarrow> None
         | c # r \<Rightarrow>
             (if c = CHR ''u'' then
                (case r of
                   h1 # h2 # h3 # h4 # r' \<Rightarrow>
                     (case hex4 h1 h2 h3 h4 of
                        None \<Rightarrow> None
                      | Some v \<Rightarrow> map_option (\<lambda>(t, r''). (utf8_bytes v @ t, r'')) (parse_string n r'))
                 | _ \<Rightarrow> None)
              else (case json_unescape c of
                      None \<Rightarrow> None
                    | Some d \<Rightarrow> map_option (\<lambda>(t, r'). (d # t, r')) (parse_string n r))))
      else if (of_char x :: nat) < 32 then None
      else map_option (\<lambda>(t, r). (x # t, r)) (parse_string n s))"

definition json_space :: "char \<Rightarrow> bool" where
  "json_space c \<longleftrightarrow> c = CHR '' '' \<or> c = CHR 0x09 \<or> c = CHR 0x0A \<or> c = CHR 0x0D"

definition skip_ws :: "string \<Rightarrow> string" where
  "skip_ws s = dropWhile json_space s"

text \<open>A number: a minus sign, if any, and digits; no leading zero, no fraction and no exponent.\<close>

definition parse_nat :: "string \<Rightarrow> (nat \<times> string) option" where
  "parse_nat s = (let ds = takeWhile is_digit s; r = dropWhile is_digit s in
     if ds = [] \<or> (hd ds = CHR ''0'' \<and> 1 < length ds) then None
     else if r \<noteq> [] \<and> hd r \<in> {CHR ''.'', CHR ''e'', CHR ''E''} then None
     else Some (digits_val ds, r))"

definition parse_int :: "string \<Rightarrow> (int \<times> string) option" where
  "parse_int s = (case s of
     [] \<Rightarrow> None
   | c # r \<Rightarrow> (if c = CHR ''-'' then map_option (\<lambda>(n, r'). (- int n, r')) (parse_nat r)
                else map_option (\<lambda>(n, r'). (int n, r')) (parse_nat s)))"

definition expect :: "char \<Rightarrow> string \<Rightarrow> string option" where
  "expect c s = (case skip_ws s of [] \<Rightarrow> None | x # r \<Rightarrow> if x = c then Some r else None)"

fun parse_value :: "nat \<Rightarrow> string \<Rightarrow> (json \<times> string) option"
  and parse_elems :: "nat \<Rightarrow> string \<Rightarrow> (json list \<times> string) option"
  and parse_members :: "nat \<Rightarrow> string \<Rightarrow> ((string \<times> json) list \<times> string) option" where
  "parse_value 0 s = None"
| "parse_value (Suc n) s = (case skip_ws s of
     [] \<Rightarrow> None
   | c # r \<Rightarrow>
      (if c = CHR 0x22 then map_option (\<lambda>(t, r'). (JStr t, r')) (parse_string (Suc (length r)) r)
       else if c = CHR ''['' then
         (case expect (CHR '']'') r of
            Some r' \<Rightarrow> Some (JArr [], r')
          | None \<Rightarrow> map_option (\<lambda>(xs, r'). (JArr xs, r')) (parse_elems n r))
       else if c = CHR ''{'' then
         (case expect (CHR ''}'') r of
            Some r' \<Rightarrow> Some (JObj [], r')
          | None \<Rightarrow> map_option (\<lambda>(kvs, r'). (JObj kvs, r')) (parse_members n r))
       else if HasPrefix (c # r) ''null'' then Some (JNull, drop 4 (c # r))
       else if HasPrefix (c # r) ''true'' then Some (JBool True, drop 4 (c # r))
       else if HasPrefix (c # r) ''false'' then Some (JBool False, drop 5 (c # r))
       else map_option (\<lambda>(i, r'). (JNum i, r')) (parse_int (c # r))))"
| "parse_elems 0 s = None"
| "parse_elems (Suc n) s = (case parse_value n s of
     None \<Rightarrow> None
   | Some (x, r) \<Rightarrow>
      (case expect (CHR '','') r of
         Some r' \<Rightarrow> map_option (\<lambda>(xs, r''). (x # xs, r'')) (parse_elems n r')
       | None \<Rightarrow> map_option (\<lambda>r'. ([x], r')) (expect (CHR '']'') r)))"
| "parse_members 0 s = None"
| "parse_members (Suc n) s = (case expect (CHR 0x22) s of
     None \<Rightarrow> None
   | Some r0 \<Rightarrow> (case parse_string (Suc (length r0)) r0 of
       None \<Rightarrow> None
     | Some (k, r1) \<Rightarrow> (case expect (CHR '':'') r1 of
         None \<Rightarrow> None
       | Some r2 \<Rightarrow> (case parse_value n r2 of
           None \<Rightarrow> None
         | Some (v, r) \<Rightarrow> (case expect (CHR '','') r of
             Some r' \<Rightarrow> map_option (\<lambda>(kvs, r''). ((k, v) # kvs, r'')) (parse_members n r')
           | None \<Rightarrow> map_option (\<lambda>r'. ([(k, v)], r')) (expect (CHR ''}'') r))))))"

text \<open>A document: one value and nothing but space behind it.\<close>

definition json_parse :: "string \<Rightarrow> json option" where
  "json_parse s = (case parse_value (Suc (length s)) s of
     Some (j, r) \<Rightarrow> if skip_ws r = [] then Some j else None
   | None \<Rightarrow> None)"

section \<open>Round trip\<close>

lemma skip_ws_Cons [simp]: "\<not> json_space c \<Longrightarrow> skip_ws (c # r) = c # r"
  by (simp add: skip_ws_def)

lemma skip_ws_Nil [simp]: "skip_ws [] = []"
  by (simp add: skip_ws_def)

lemma expect_Cons: "\<not> json_space x \<Longrightarrow> expect c (x # r) = (if x = c then Some r else None)"
  by (simp add: expect_def)

text \<open>Every character has one of the three forms of escape, and each is read back.\<close>

definition escape_inverts :: "char \<Rightarrow> bool" where
  "escape_inverts c = (case json_escape c of
     [d] \<Rightarrow> d = c \<and> c \<noteq> CHR 0x22 \<and> c \<noteq> CHR 0x5C \<and> 32 \<le> (of_char c :: nat)
   | [b, d] \<Rightarrow> b = CHR 0x5C \<and> d \<noteq> CHR ''u'' \<and> json_unescape d = Some c
   | [b, u, h1, h2, h3, h4] \<Rightarrow> b = CHR 0x5C \<and> u = CHR ''u'' \<and>
       hex4 h1 h2 h3 h4 = Some (of_char c) \<and> (of_char c :: nat) < 128
   | _ \<Rightarrow> False)"

lemma hex_val_digit: "k < 16 \<Longrightarrow> hex_val (hex_digit k) = Some k"
  by (auto simp: hex_val_def hex_digit_def Let_def)

lemma hex4_low:
  "n < 128 \<Longrightarrow> hex4 (CHR ''0'') (CHR ''0'') (hex_digit (n div 16)) (hex_digit (n mod 16)) = Some n"
  by (simp add: hex4_def hex_val_digit) (simp add: hex_val_def)

lemma escape_inverts_all: "escape_inverts c"
proof (cases "(of_char c :: nat) < 32 \<or> c \<in> {CHR ''<'', CHR ''>'', CHR ''&''}")
  case True
  then have low: "(of_char c :: nat) < 128" by auto
  show ?thesis
  proof (cases "c \<in> {CHR 0x22, CHR 0x5C, CHR 0x0A, CHR 0x0D, CHR 0x09}")
    case False
    then show ?thesis using True hex4_low[OF low] low by (auto simp: escape_inverts_def json_escape_def)
  qed (auto simp: escape_inverts_def json_escape_def json_unescape_def)
next
  case False
  then have "c \<noteq> CHR 0x0A" "c \<noteq> CHR 0x0D" "c \<noteq> CHR 0x09" by auto
  then show ?thesis using False
    by (auto simp: escape_inverts_def json_escape_def json_unescape_def)
qed

lemma parse_string_escape:
  "parse_string (Suc n) (json_escape c @ r) = map_option (\<lambda>(t, r'). (c # t, r')) (parse_string n r)"
  using escape_inverts_all[of c]
  by (auto simp: escape_inverts_def utf8_bytes_def split: list.splits)

lemma parse_string_render:
  "length s < n \<Longrightarrow> parse_string n (concat (map json_escape s) @ CHR 0x22 # r) = Some (s, r)"
proof (induction s arbitrary: n)
  case Nil
  then show ?case by (cases n) auto
next
  case (Cons c s)
  then show ?case by (cases n) (auto simp: parse_string_escape simp del: parse_string.simps)
qed

lemma json_escape_length: "length s \<le> length (concat (map json_escape s))"
  by (induction s) (auto simp: json_escape_def)

lemma parse_string_render_string:
  "parse_string (Suc (length (concat (map json_escape s)) + k)) (concat (map json_escape s) @ CHR 0x22 # r) = Some (s, r)"
  using json_escape_length[of s] by (intro parse_string_render) simp

text \<open>What follows a number must not continue it.\<close>

definition stops :: "string \<Rightarrow> bool" where
  "stops r \<longleftrightarrow> r = [] \<or> hd r \<in> {CHR '','', CHR '']'', CHR ''}''}"

lemma stops_simps [simp]: "stops []" "stops (CHR '','' # r)" "stops (CHR '']'' # r)" "stops (CHR ''}'' # r)"
  by (simp_all add: stops_def)

lemma hd_nat_digits: "n \<noteq> 0 \<Longrightarrow> hd (nat_digits n) \<noteq> CHR ''0''"
proof (induction n rule: nat_digits.induct)
  case (1 n)
  show ?case
  proof (cases "n < 10")
    case True
    then have "digit_val (digit_char n) \<noteq> digit_val (CHR ''0'')"
      using 1(2) by (simp add: digit_char_val) (simp add: digit_val_def)
    then have "digit_char n \<noteq> CHR ''0''" by metis
    then show ?thesis using True by (subst nat_digits.simps) simp
  next
    case False
    then show ?thesis using 1(1)[OF False] by (subst nat_digits.simps) simp
  qed
qed

lemma parse_nat_digits:
  assumes "stops r"
  shows "parse_nat (nat_digits n @ r) = Some (n, r)"
proof -
  have all: "\<forall>c\<in>set (nat_digits n). is_digit c" using nat_digits_all_digits by blast
  have r: "takeWhile is_digit r = []" "dropWhile is_digit r = r"
    using assms by (cases r; auto simp: stops_def is_digit_def)+
  have "hd (nat_digits n) = CHR ''0'' \<Longrightarrow> length (nat_digits n) = 1"
    using hd_nat_digits[of n] by (cases "n = 0") (auto simp: nat_digits.simps[of 0])
  then show ?thesis using all r assms
    by (auto simp: parse_nat_def digits_val_nat_digits stops_def Let_def)
qed

lemma parse_int_Itoa:
  assumes "stops r"
  shows "parse_int (Itoa i @ r) = Some (i, r)"
proof (cases "i < 0")
  case True
  then show ?thesis by (simp add: parse_int_def Itoa_def parse_nat_digits[OF assms])
next
  case False
  obtain c ds where ds: "nat_digits (nat i) = c # ds" by (cases "nat_digits (nat i)") auto
  moreover have "is_digit c" using ds nat_digits_all_digits[of c "nat i"] by simp
  ultimately show ?thesis using False parse_nat_digits[OF assms, of "nat i"]
    by (auto simp: parse_int_def Itoa_def is_digit_def)
qed

lemma Itoa_hd: "\<exists>c t. Itoa i = c # t \<and> (c = CHR ''-'' \<or> is_digit c)"
proof (cases "i < 0")
  case False
  obtain c ds where ds: "nat_digits (nat i) = c # ds" by (cases "nat_digits (nat i)") auto
  then show ?thesis using False nat_digits_all_digits[of c "nat i"] by (auto simp: Itoa_def)
qed (simp add: Itoa_def)

definition starts_value :: "char \<Rightarrow> bool" where
  "starts_value c \<longleftrightarrow> \<not> json_space c \<and> c \<noteq> CHR '']'' \<and> c \<noteq> CHR ''}'' \<and> c \<noteq> CHR '','' \<and> c \<noteq> CHR '':''"

lemma starts_digit: "c = CHR ''-'' \<or> is_digit c \<Longrightarrow> starts_value c"
  by (auto simp: starts_value_def json_space_def is_digit_def)

lemma render_starts: "\<exists>c t. render j = c # t \<and> starts_value c"
proof (cases j)
  case (JNum i)
  then show ?thesis using Itoa_hd[of i] starts_digit by fastforce
qed (auto simp: starts_value_def json_space_def render_string_def)

lemma render_elems_starts:
  assumes "xs \<noteq> []"
  shows "\<exists>c t. render_elems xs = c # t \<and> starts_value c"
proof -
  obtain x ys where xs: "xs = x # ys" using assms by (cases xs) auto
  show ?thesis using render_starts[of x] xs by (cases ys) auto
qed

lemma render_members_starts: "kvs \<noteq> [] \<Longrightarrow> \<exists>t. render_members kvs = CHR 0x22 # t"
  by (cases kvs; cases "tl kvs") (auto simp: render_string_def)

lemma parse_value_Itoa:
  assumes "stops r"
  shows "parse_value (Suc n) (Itoa i @ r) = Some (JNum i, r)"
proof -
  obtain c t where ct: "Itoa i = c # t" and c: "c = CHR ''-'' \<or> is_digit c" using Itoa_hd by blast
  have ns: "\<not> json_space c" using starts_digit[OF c] by (simp add: starts_value_def)
  have "c \<noteq> CHR 0x22" "c \<noteq> CHR ''[''" "c \<noteq> CHR ''{''" "c \<noteq> CHR ''n''" "c \<noteq> CHR ''t''" "c \<noteq> CHR ''f''"
    using c by (auto simp: is_digit_def)
  then show ?thesis using parse_int_Itoa[OF assms, of i] ct ns by (simp add: HasPrefix_def)
qed

lemma parse_value_string:
  "parse_value (Suc n) (render_string t @ r) = Some (JStr t, r)"
  using parse_string_render_string[of t "Suc (length r)" r]
  by (simp add: render_string_def json_space_def)

lemma expect_simps:
  "expect (CHR '','') (CHR '','' # r) = Some r" "expect (CHR '','') (CHR '']'' # r) = None"
  "expect (CHR '','') (CHR ''}'' # r) = None" "expect (CHR '']'') (CHR '']'' # r) = Some r"
  "expect (CHR ''}'') (CHR ''}'' # r) = Some r" "expect (CHR '':'') (CHR '':'' # r) = Some r"
  by (simp_all add: expect_def json_space_def)

lemma parse_members_step:
  "parse_members (Suc n) (render_string k @ CHR '':'' # s) = (case parse_value n s of
     None \<Rightarrow> None
   | Some (v, r) \<Rightarrow> (case expect (CHR '','') r of
       Some r' \<Rightarrow> map_option (\<lambda>(kvs, r''). ((k, v) # kvs, r'')) (parse_members n r')
     | None \<Rightarrow> map_option (\<lambda>r'. ([(k, v)], r')) (expect (CHR ''}'') r)))"
proof -
  have "expect (CHR 0x22) (render_string k @ CHR '':'' # s) = Some (concat (map json_escape k) @ CHR 0x22 # CHR '':'' # s)"
    by (simp add: render_string_def expect_def json_space_def)
  moreover have "parse_string (Suc (length (concat (map json_escape k) @ CHR 0x22 # CHR '':'' # s)))
      (concat (map json_escape k) @ CHR 0x22 # CHR '':'' # s) = Some (k, CHR '':'' # s)"
    using json_escape_length[of k] by (intro parse_string_render) simp
  ultimately show ?thesis by (simp add: expect_simps del: length_append)
qed

lemma expect_starts:
  "starts_value c \<Longrightarrow> expect (CHR '']'') (c # t) = None" "expect (CHR ''}'') (CHR 0x22 # t) = None"
  by (auto simp: expect_def starts_value_def json_space_def)

lemma parse_value_arr:
  assumes "xs \<noteq> [] \<Longrightarrow> parse_elems n (render_elems xs @ CHR '']'' # r) = Some (xs, r)"
  shows "parse_value (Suc n) (render (JArr xs) @ r) = Some (JArr xs, r)"
proof (cases "xs = []")
  case False
  then obtain c t where "render_elems xs = c # t" "starts_value c" using render_elems_starts by blast
  then show ?thesis using assms[OF False] by (simp add: json_space_def expect_starts)
qed (simp add: json_space_def expect_simps)

lemma parse_value_obj:
  assumes "kvs \<noteq> [] \<Longrightarrow> parse_members n (render_members kvs @ CHR ''}'' # r) = Some (kvs, r)"
  shows "parse_value (Suc n) (render (JObj kvs) @ r) = Some (JObj kvs, r)"
proof (cases "kvs = []")
  case False
  then obtain t where "render_members kvs = CHR 0x22 # t" using render_members_starts by blast
  then show ?thesis using assms[OF False] by (simp add: json_space_def expect_starts)
qed (simp add: json_space_def expect_simps)

lemma parse_render:
  "stops r \<longrightarrow> length (render j) < n \<longrightarrow> parse_value n (render j @ r) = Some (j, r)"
  "xs \<noteq> [] \<longrightarrow> Suc (length (render_elems xs)) < n \<longrightarrow>
     parse_elems n (render_elems xs @ CHR '']'' # r) = Some (xs, r)"
  "kvs \<noteq> [] \<longrightarrow> Suc (length (render_members kvs)) < n \<longrightarrow>
     parse_members n (render_members kvs @ CHR ''}'' # r) = Some (kvs, r)"
proof (induction j and xs and kvs arbitrary: n r and n r and n r rule: render_render_elems_render_members.induct)
  case (3 i)
  show ?case by (cases n) (auto simp del: parse_value.simps(2) simp: parse_value_Itoa)
next
  case (4 t)
  show ?case by (cases n) (auto simp del: parse_value.simps(2) simp: parse_value_string)
next
  case (5 xs)
  show ?case
  proof (cases n)
    case (Suc m)
    have "parse_value (Suc m) (render (JArr xs) @ r) = Some (JArr xs, r)"
      if "length (render (JArr xs)) < Suc m"
      using 5 that by (intro parse_value_arr) simp
    then show ?thesis unfolding Suc by blast
  qed simp
next
  case (6 kvs)
  show ?case
  proof (cases n)
    case (Suc m)
    have "parse_value (Suc m) (render (JObj kvs) @ r) = Some (JObj kvs, r)"
      if "length (render (JObj kvs)) < Suc m"
      using 6 that by (intro parse_value_obj) simp
    then show ?thesis unfolding Suc by blast
  qed simp
next
  case (8 x)
  then show ?case by (cases n) (auto simp: expect_simps)
next
  case (9 x y xs)
  then show ?case by (cases n) (auto simp: expect_simps)
next
  case (11 k v)
  then show ?case
    by (cases n) (auto simp: expect_simps parse_members_step simp del: parse_members.simps(2))
next
  case (12 k v kv kvs)
  then show ?case
    by (cases n) (auto simp: expect_simps parse_members_step simp del: parse_members.simps(2))
next
  case 1
  show ?case by (cases n) (simp_all add: json_space_def HasPrefix_def)
next
  case (2 b)
  show ?case by (cases n; cases b) (simp_all add: json_space_def HasPrefix_def)
qed simp_all

text \<open>What \<^verbatim>\<open>Marshal\<close> writes, \<^verbatim>\<open>Unmarshal\<close> reads back.\<close>

lemma json_parse_render: "json_parse (render j) = Some j"
  using parse_render(1)[of "[]" j "Suc (length (render j))"] by (simp add: json_parse_def)

lemma render_not_Nil [simp]: "render j \<noteq> []"
  using render_starts[of j] by auto

end
