(* ===== verification/PodInjector.thy ===== *)
theory PodInjector
  imports Json
begin

text \<open>
  The admission webhook of the cluster agent (\<^verbatim>\<open>pkg/clusteragent/webhookserver/podagent_injector.go\<close>):
  \<open>Handle\<close> adds the pod agent as a sidecar to an annotated pod. The fields of the Kubernetes objects
  that the handler does not read are carried in the \<open>\<dots>_Rest\<close> fields as the JSON members they are. The
  decoder of the request and \<^verbatim>\<open>json.Marshal\<close> are parameters; \<open>PatchResponse\<close> stands for the response that
  \<^verbatim>\<open>admission.PatchResponseFromRaw\<close> computes from the two serialised pods.
\<close>

section \<open>Kubernetes objects\<close>

type_synonym members = "(string \<times> json) list"

record EnvVar =
  ev_Name :: string
  ev_FieldPath :: "string option"
  ev_Rest :: members

record VolumeMount =
  vm_Name :: string
  vm_MountPath :: string
  vm_Rest :: members

record Container =
  ctr_Name :: string
  ctr_Image :: string
  ctr_Env :: "EnvVar list"
  ctr_Args :: "string list"
  ctr_VolumeMounts :: "VolumeMount list"
  ctr_Rest :: members

record Volume =
  vol_Name :: string
  vol_DownwardItems :: "(string \<times> string) list"
  vol_Rest :: members

record AdmittedPod =
  ap_Name :: string
  ap_Annotations :: "string gomap option"
  ap_Containers :: "Container list"
  ap_Volumes :: "Volume list"
  ap_Rest :: members

record PodAgentContainerConfig =
  pc_Name :: string
  pc_Image :: string
  pc_LogEncoding :: string
  pc_Host :: string
  pc_Port :: string

datatype admission_response =
    Allowed string
  | Errored int go_error
  | PatchResponse string string

definition inj_ThreatScanAnnotation :: string where
  "inj_ThreatScanAnnotation = ''pod-agent.k8s.tarian.dev/threat-scan''"

definition inj_RegisterAnnotation :: string where
  "inj_RegisterAnnotation = ''pod-agent.k8s.tarian.dev/register''"

definition FileValidationIntervalAnnotation :: string where
  "FileValidationIntervalAnnotation = ''pod-agent.k8s.tarian.dev/file-validation-interval''"

definition RegisterFileIgnorePathsAnnotation :: string where
  "RegisterFileIgnorePathsAnnotation = ''pod-agent.k8s.tarian.dev/register-file-ignore-paths''"

section \<open>The handler\<close>

definition podInfoPath :: string where
  "podInfoPath = ''/etc/podinfo''"

definition serviceAccountPath :: string where
  "serviceAccountPath = ''/var/run/secrets/kubernetes.io/serviceaccount''"

text \<open>The loop over the volume mounts of one container, and the one over the containers around it.\<close>

fun add_mounts :: "VolumeMount list \<Rightarrow> VolumeMount list \<Rightarrow> string list \<Rightarrow> VolumeMount list \<times> string list" where
  "add_mounts [] volumeMounts mountNamesAdded = (volumeMounts, mountNamesAdded)"
| "add_mounts (vm # vms) volumeMounts mountNamesAdded =
     (if vm_Name vm \<in> set mountNamesAdded then add_mounts vms volumeMounts mountNamesAdded
      else add_mounts vms (volumeMounts @ [vm]) (vm_Name vm # mountNamesAdded))"

fun collect_mounts :: "Container list \<Rightarrow> VolumeMount list \<Rightarrow> string list \<Rightarrow> VolumeMount list \<times> string list" where
  "collect_mounts [] volumeMounts mountNamesAdded = (volumeMounts, mountNamesAdded)"
| "collect_mounts (c # cs) volumeMounts mountNamesAdded =
     (case add_mounts (ctr_VolumeMounts c) volumeMounts mountNamesAdded of
        (volumeMounts, mountNamesAdded) \<Rightarrow> collect_mounts cs volumeMounts mountNamesAdded)"

definition podinfo_mount :: VolumeMount where
  "podinfo_mount = \<lparr>vm_Name = ''podinfo'', vm_MountPath = podInfoPath, vm_Rest = []\<rparr>"

text \<open>
  The loop that collects the paths to register. It looks a path up in \<^verbatim>\<open>mountPathsAdded\<close> and records it
  in \<^verbatim>\<open>mountNamesAdded\<close>, the set of the loop before.
\<close>

fun collect_paths ::
  "VolumeMount list \<Rightarrow> string list \<Rightarrow> string list \<Rightarrow> string list \<Rightarrow> string list \<Rightarrow> string list \<times> string list" where
  "collect_paths [] mountPathsAdded mountNamesAdded mountPaths ignorePaths = (mountPaths, ignorePaths)"
| "collect_paths (vm # vms) mountPathsAdded mountNamesAdded mountPaths ignorePaths =
     (if vm_MountPath vm \<in> set mountPathsAdded
      then collect_paths vms mountPathsAdded mountNamesAdded mountPaths ignorePaths
      else if vm_MountPath vm \<noteq> podInfoPath \<and> vm_MountPath vm \<noteq> serviceAccountPath
      then collect_paths vms mountPathsAdded (vm_MountPath vm # mountNamesAdded) (mountPaths @ [vm_MountPath vm])
             (ignorePaths @ [vm_MountPath vm @ ''/..*'', vm_MountPath vm @ ''/..**/*''])
      else collect_paths vms mountPathsAdded (vm_MountPath vm # mountNamesAdded) mountPaths ignorePaths)"

definition podAgentArgs :: "PodAgentContainerConfig \<Rightarrow> string gomap \<Rightarrow> VolumeMount list \<Rightarrow> string list \<Rightarrow> string list" where
  "podAgentArgs config ann volumeMounts mountNamesAdded =
     (let register = map_get ann inj_RegisterAnnotation;
          args0 = [''--log-formatter='' @ pc_LogEncoding config,
                   (if register \<noteq> None then ''register'' else ''threat-scan''),
                   ''--host='' @ pc_Host config, ''--port='' @ pc_Port config,
                   ''--namespace=$(NAMESPACE)'', ''--pod-name=$(POD_NAME)'', ''--pod-uid=$(POD_UID)'',
                   ''--pod-labels-file=/etc/podinfo/labels''];
          ignore0 = (case map_get ann RegisterFileIgnorePathsAnnotation of
                       None \<Rightarrow> [] | Some v \<Rightarrow> Split v '','');
          (args1, ignorePaths) =
            (case register of
               None \<Rightarrow> (args0, ignore0)
             | Some v \<Rightarrow>
                 (case collect_paths volumeMounts [] mountNamesAdded [] ignore0 of (mountPaths, ignorePaths) \<Rightarrow>
                    (args0 @ [''--register-rules='' @ v, ''--register-file-paths='' @ Join mountPaths '',''], ignorePaths)));
          args2 = (if length ignorePaths > 0 then args1 @ [''--register-file-ignore-paths='' @ Join ignorePaths '',''] else args1)
      in (case map_get ann FileValidationIntervalAnnotation of
            None \<Rightarrow> args2 | Some v \<Rightarrow> args2 @ [''--file-validation-interval='' @ v]))"

definition podAgentEnv :: "EnvVar list" where
  "podAgentEnv =
     [\<lparr>ev_Name = ''NAMESPACE'', ev_FieldPath = Some ''metadata.namespace'', ev_Rest = []\<rparr>,
      \<lparr>ev_Name = ''POD_NAME'', ev_FieldPath = Some ''metadata.name'', ev_Rest = []\<rparr>,
      \<lparr>ev_Name = ''POD_UID'', ev_FieldPath = Some ''metadata.uid'', ev_Rest = []\<rparr>]"

definition podInfoVolume :: Volume where
  "podInfoVolume = \<lparr>vol_Name = ''podinfo'', vol_DownwardItems = [(''labels'', ''metadata.labels'')], vol_Rest = []\<rparr>"

text \<open>The change \<open>Handle\<close> makes to a pod it has decided to change.\<close>

definition inject_pod_agent :: "PodAgentContainerConfig \<Rightarrow> string gomap \<Rightarrow> AdmittedPod \<Rightarrow> AdmittedPod" where
  "inject_pod_agent config ann pod =
     (case collect_mounts (ap_Containers pod) [podinfo_mount] [] of (volumeMounts, mountNamesAdded) \<Rightarrow>
        pod\<lparr>ap_Containers := ap_Containers pod @
              [\<lparr>ctr_Name = pc_Name config, ctr_Image = pc_Image config, ctr_Env = podAgentEnv,
                ctr_Args = podAgentArgs config ann volumeMounts mountNamesAdded,
                ctr_VolumeMounts = volumeMounts, ctr_Rest = []\<rparr>],
            ap_Volumes := ap_Volumes pod @ [podInfoVolume]\<rparr>)"

definition Handle ::
  "(string \<Rightarrow> go_error + AdmittedPod) \<Rightarrow> (AdmittedPod \<Rightarrow> go_error + string) \<Rightarrow> PodAgentContainerConfig \<Rightarrow> string \<Rightarrow> admission_response" where
  "Handle Decode Marshal config raw =
     (case Decode raw of
        Inl err \<Rightarrow> Errored 400 err
      | Inr pod \<Rightarrow>
          (case ap_Annotations pod of
             None \<Rightarrow> Allowed ''no annotation found''
           | Some ann \<Rightarrow>
               if map_get ann inj_ThreatScanAnnotation = None \<and> map_get ann inj_RegisterAnnotation = None
               then Allowed (''annotation '' @ inj_ThreatScanAnnotation @ '' or '' @ inj_RegisterAnnotation @ '' not found'')
               else if list_ex (\<lambda>c. ctr_Name c = pc_Name config) (ap_Containers pod)
               then Allowed (''container with name '' @ pc_Name config @ '' already exists'')
               else (case Marshal (inject_pod_agent config ann pod) of
                       Inl err \<Rightarrow> Errored 500 err
                     | Inr marshaledPod \<Rightarrow> PatchResponse raw marshaledPod)))"

section \<open>The mounts of the sidecar\<close>

definition pod_mounts :: "AdmittedPod \<Rightarrow> VolumeMount list" where
  "pod_mounts pod = concat (map ctr_VolumeMounts (ap_Containers pod))"

text \<open>The loops do one pass over the mounts of all containers.\<close>

lemma add_mounts_append:
  "add_mounts (xs @ ys) vms names = (case add_mounts xs vms names of (vms, names) \<Rightarrow> add_mounts ys vms names)"
  by (induction xs vms names rule: add_mounts.induct) auto

lemma collect_mounts_concat:
  "collect_mounts cs vms names = add_mounts (concat (map ctr_VolumeMounts cs)) vms names"
  by (induction cs arbitrary: vms names) (auto simp: add_mounts_append split: prod.splits)

text \<open>The mounts that the pass adds, as a recursion without accumulators.\<close>

fun first_mounts :: "VolumeMount list \<Rightarrow> string list \<Rightarrow> VolumeMount list" where
  "first_mounts [] names = []"
| "first_mounts (vm # vms) names =
     (if vm_Name vm \<in> set names then first_mounts vms names else vm # first_mounts vms (vm_Name vm # names))"

lemma add_mounts_first: "fst (add_mounts xs vms names) = vms @ first_mounts xs names"
  by (induction xs vms names rule: add_mounts.induct) auto

lemma first_mounts_names: "vm_Name ` set (first_mounts xs names) = vm_Name ` set xs - set names"
  by (induction xs names rule: first_mounts.induct) auto

lemma first_mounts_distinct: "distinct (map vm_Name (first_mounts xs names))"
proof (induction xs names rule: first_mounts.induct)
  case (2 vm vms names)
  have "vm_Name vm \<notin> vm_Name ` set (first_mounts vms (vm_Name vm # names))"
    by (simp add: first_mounts_names)
  with 2 show ?case by auto
qed simp

lemma first_mounts_find:
  "m \<in> set (first_mounts xs names) \<Longrightarrow> List.find (\<lambda>x. vm_Name x = vm_Name m) xs = Some m"
proof (induction xs names rule: first_mounts.induct)
  case (2 vm vms names)
  show ?case
  proof (cases "vm_Name vm \<in> set names")
    case True
    moreover have "vm_Name m \<notin> set names"
      using 2(3) first_mounts_names[of "vm # vms" names] by blast
    ultimately show ?thesis using 2 by auto
  next
    case False
    then consider "m = vm" | "m \<in> set (first_mounts vms (vm_Name vm # names))" using 2(3) by auto
    then show ?thesis
    proof cases
      case 2
      moreover from this have "vm_Name m \<noteq> vm_Name vm"
        using first_mounts_names[of vms "vm_Name vm # names"] by auto
      ultimately show ?thesis using "2.IH"(2)[OF False] by simp
    qed simp
  qed
qed simp

lemma inject_containers:
  "ap_Containers (inject_pod_agent config ann pod) = ap_Containers pod @
     [\<lparr>ctr_Name = pc_Name config, ctr_Image = pc_Image config, ctr_Env = podAgentEnv,
       ctr_Args = podAgentArgs config ann (podinfo_mount # first_mounts (pod_mounts pod) [])
         (snd (add_mounts (pod_mounts pod) [podinfo_mount] [])),
       ctr_VolumeMounts = podinfo_mount # first_mounts (pod_mounts pod) [], ctr_Rest = []\<rparr>]"
  using add_mounts_first[of "pod_mounts pod" "[podinfo_mount]" "[]"]
  by (auto simp: inject_pod_agent_def collect_mounts_concat pod_mounts_def split: prod.splits)

lemma inject_keeps:
  "ap_Volumes (inject_pod_agent config ann pod) = ap_Volumes pod @ [podInfoVolume]"
  "ap_Annotations (inject_pod_agent config ann pod) = ap_Annotations pod"
  "ap_Name (inject_pod_agent config ann pod) = ap_Name pod"
  "ap_Rest (inject_pod_agent config ann pod) = ap_Rest pod"
  by (simp_all add: inject_pod_agent_def split: prod.splits)

lemma Handle_patchE:
  assumes "Handle Decode Marshal config raw = PatchResponse raw0 patched"
  obtains pod ann where "Decode raw = Inr pod" "ap_Annotations pod = Some ann" "raw0 = raw"
    "map_get ann inj_ThreatScanAnnotation \<noteq> None \<or> map_get ann inj_RegisterAnnotation \<noteq> None"
    "\<not> list_ex (\<lambda>c. ctr_Name c = pc_Name config) (ap_Containers pod)"
    "Marshal (inject_pod_agent config ann pod) = Inr patched"
  using assms by (auto simp: Handle_def split: sum.splits option.splits if_splits)

section \<open>Properties\<close>

text \<open>
  C29: a pod the webhook has changed is left alone when it is submitted again: whenever the answer to a
  request is a patch, the answer for the patched pod is that the container already exists. The
  hypothesis is that decoding gives back a pod that was serialised.
\<close>

theorem Handle_idempotent:
  assumes json: "\<And>pod text. Marshal pod = Inr text \<Longrightarrow> Decode text = Inr pod"
    and "Handle Decode Marshal config raw = PatchResponse raw patched"
  shows "Handle Decode Marshal config patched = Allowed (''container with name '' @ pc_Name config @ '' already exists'')"
proof -
  obtain pod ann where p: "ap_Annotations pod = Some ann"
    "map_get ann inj_ThreatScanAnnotation \<noteq> None \<or> map_get ann inj_RegisterAnnotation \<noteq> None"
    "Marshal (inject_pod_agent config ann pod) = Inr patched"
    using assms(2) by (rule Handle_patchE)
  from json[OF p(3)] p(1,2) show ?thesis
    by (auto simp: Handle_def inject_keeps inject_containers)
qed


definition demo_config :: PodAgentContainerConfig where
  "demo_config = \<lparr>pc_Name = ''agent'', pc_Image = ''img'', pc_LogEncoding = ''json'', pc_Host = ''h'', pc_Port = ''1''\<rparr>"

definition demo_container :: "string \<Rightarrow> VolumeMount list \<Rightarrow> Container" where
  "demo_container n vms = \<lparr>ctr_Name = n, ctr_Image = ''nginx'', ctr_Env = [], ctr_Args = [], ctr_VolumeMounts = vms, ctr_Rest = []\<rparr>"

definition demo_mount :: "string \<Rightarrow> string \<Rightarrow> VolumeMount" where
  "demo_mount n path = \<lparr>vm_Name = n, vm_MountPath = path, vm_Rest = []\<rparr>"

definition demo_admitted :: AdmittedPod where
  "demo_admitted = \<lparr>ap_Name = ''web'', ap_Annotations = Some [(inj_RegisterAnnotation, ''files'')],
     ap_Containers = [demo_container ''a'' [demo_mount ''v'' ''/data''],
                      demo_container ''b'' [demo_mount ''v'' ''/copy'', demo_mount ''w'' ''/data'']],
     ap_Volumes = [], ap_Rest = []\<rparr>"

definition demo_patched :: AdmittedPod where
  "demo_patched = inject_pod_agent demo_config [(inj_RegisterAnnotation, ''files'')] demo_admitted"

text \<open>A serialisation that knows two pods, enough to evaluate the handler on the first.\<close>

definition demo_Decode :: "string \<Rightarrow> go_error + AdmittedPod" where
  "demo_Decode t = (if t = ''1'' then Inr demo_admitted else if t = ''2'' then Inr demo_patched else Inl (ExtError ''syntax''))"

definition demo_Marshal :: "AdmittedPod \<Rightarrow> go_error + string" where
  "demo_Marshal p = (if p = demo_admitted then Inr ''1'' else if p = demo_patched then Inr ''2'' else Inl (ExtError ''unsupported''))"

lemma demo_roundtrip: "demo_Marshal p = Inr t \<Longrightarrow> demo_Decode t = Inr p"
  by (auto simp: demo_Marshal_def demo_Decode_def split: if_splits)

lemma demo_patched_other: "demo_patched \<noteq> demo_admitted"
proof
  assume "demo_patched = demo_admitted"
  then have "length (ap_Containers demo_patched) = length (ap_Containers demo_admitted)" by simp
  then show False by (simp add: demo_patched_def inject_containers)
qed

lemma demo_handled: "Handle demo_Decode demo_Marshal demo_config ''1'' = PatchResponse ''1'' ''2''"
  using demo_patched_other
  by (simp add: Handle_def demo_Decode_def demo_admitted_def[THEN arg_cong[where f = ap_Annotations]]
      demo_admitted_def[THEN arg_cong[where f = ap_Containers]] map_get_def demo_container_def demo_config_def[THEN arg_cong[where f = pc_Name]]
      demo_patched_def[symmetric] demo_Marshal_def)

theorem Handle_idempotent_witness:
  "Handle demo_Decode demo_Marshal demo_config ''2'' = Allowed ''container with name agent already exists''"
  using Handle_idempotent[of demo_Marshal demo_Decode demo_config "''1''" "''2''", OF demo_roundtrip demo_handled]
  by (simp add: demo_config_def)


text \<open>The paths that the register command is given: the loop keeps every one, in order.\<close>

definition registrable :: "VolumeMount \<Rightarrow> bool" where
  "registrable vm = (vm_MountPath vm \<noteq> podInfoPath \<and> vm_MountPath vm \<noteq> serviceAccountPath)"

lemma collect_paths_all:
  "collect_paths vms [] names paths ignored =
     (paths @ map vm_MountPath (filter registrable vms),
      ignored @ concat (map (\<lambda>vm. [vm_MountPath vm @ ''/..*'', vm_MountPath vm @ ''/..**/*'']) (filter registrable vms)))"
  by (induction vms arbitrary: names paths ignored) (auto simp: registrable_def)

text \<open>
  The agent injected for registration gets the mount path of every volume it mounts except the pod
  information and the service account, in the order of the mounts. The paths are not deduplicated:
  two volumes mounted at one path in two containers give that path twice, because the loop
  looks a path up in a set it never adds to.
\<close>

theorem register_paths_repeat:
  assumes "map_get ann inj_RegisterAnnotation = Some rules"
  shows "(''--register-file-paths='' @ Join (map vm_MountPath (filter registrable (first_mounts (pod_mounts pod) []))) '','')
    \<in> set (ctr_Args (last (ap_Containers (inject_pod_agent config ann pod))))"
proof -
  have "\<not> registrable podinfo_mount" by (simp add: registrable_def podinfo_mount_def)
  then show ?thesis
    using assms by (simp add: inject_containers podAgentArgs_def Let_def collect_paths_all split: option.splits)
qed

theorem register_paths_repeat_witness:
  "''--register-file-paths=/data,/data'' \<in> set (ctr_Args (last (ap_Containers demo_patched)))"
proof -
  have "map vm_MountPath (filter registrable (first_mounts (pod_mounts demo_admitted) [])) = [''/data'', ''/data'']"
    by (simp add: demo_admitted_def pod_mounts_def demo_container_def demo_mount_def registrable_def podInfoPath_def serviceAccountPath_def)
  then show ?thesis
    using register_paths_repeat[of "[(inj_RegisterAnnotation, ''files'')]" "''files''" demo_admitted demo_config]
    by (simp add: demo_patched_def map_get_def)
qed

end
