(* ===== verification/PodAgent.thy ===== *)
theory PodAgent
  imports Labels
begin

text \<open>
  The pod agent (\<^verbatim>\<open>pkg/podagent/podagent.go\<close>): the validation of file checksums against the constraints,
  the report of violated files, and the registration of the files of a pod as constraints. Parameters:
  \<open>sha\<close> is the hexadecimal SHA-256 of a byte string; \<open>bytes\<close> gives the bytes that reading a file yields
  before its end or an error, none when it cannot be opened (the code logs the error and hashes what
  it got); \<open>WalkDir\<close> lists what \<^verbatim>\<open>filepath.WalkDir\<close> visits, each with whether it is a directory;
  \<open>Match\<close> is \<^verbatim>\<open>filepath.Match\<close>; the remote calls are functions on the state of the cluster.
\<close>

section \<open>State\<close>

record PodAgent =
  pa_clusterAgentAddress :: string
  pa_podName :: string
  pa_podUID :: string
  pa_podLabels :: "Label slice"
  pa_namespace :: string
  pa_constraints :: "Constraint slice"
  pa_constraintsInitialized :: bool
  pa_fileValidationInterval :: int
  pa_cancelled :: bool
  pa_enableRegisterFiles :: bool
  pa_registerFilePaths :: "string list"
  pa_registerFileIgnorePaths :: "string list"

definition NewPodAgent :: "string \<Rightarrow> PodAgent" where
  "NewPodAgent addr = \<lparr>pa_clusterAgentAddress = addr, pa_podName = [], pa_podUID = [], pa_podLabels = None,
     pa_namespace = [], pa_constraints = None, pa_constraintsInitialized = False, pa_fileValidationInterval = 0,
     pa_cancelled = False, pa_enableRegisterFiles = False, pa_registerFilePaths = [], pa_registerFileIgnorePaths = []\<rparr>"

definition pa_SetPodLabels :: "Label slice \<Rightarrow> PodAgent \<Rightarrow> PodAgent" where
  "pa_SetPodLabels labels p = p\<lparr>pa_podLabels := labels\<rparr>"

definition pa_SetPodName :: "string \<Rightarrow> PodAgent \<Rightarrow> PodAgent" where
  "pa_SetPodName name p = p\<lparr>pa_podName := name\<rparr>"

definition pa_SetPodUID :: "string \<Rightarrow> PodAgent \<Rightarrow> PodAgent" where
  "pa_SetPodUID uid p = p\<lparr>pa_podUID := uid\<rparr>"

definition pa_SetNamespace :: "string \<Rightarrow> PodAgent \<Rightarrow> PodAgent" where
  "pa_SetNamespace namespace p = p\<lparr>pa_namespace := namespace\<rparr>"

definition pa_SetFileValidationInterval :: "int \<Rightarrow> PodAgent \<Rightarrow> PodAgent" where
  "pa_SetFileValidationInterval t p = p\<lparr>pa_fileValidationInterval := t\<rparr>"

definition pa_EnableRegisterFiles :: "PodAgent \<Rightarrow> PodAgent" where
  "pa_EnableRegisterFiles p = p\<lparr>pa_enableRegisterFiles := True\<rparr>"

definition pa_SetRegisterFilePaths :: "string list \<Rightarrow> PodAgent \<Rightarrow> PodAgent" where
  "pa_SetRegisterFilePaths paths p = p\<lparr>pa_registerFilePaths := paths\<rparr>"

definition pa_SetRegisterFileIgnorePaths :: "string list \<Rightarrow> PodAgent \<Rightarrow> PodAgent" where
  "pa_SetRegisterFileIgnorePaths paths p = p\<lparr>pa_registerFileIgnorePaths := paths\<rparr>"

definition pa_GracefulStop :: "PodAgent \<Rightarrow> PodAgent" where
  "pa_GracefulStop p = p\<lparr>pa_cancelled := True\<rparr>"

definition pa_SetConstraints :: "Constraint slice \<Rightarrow> PodAgent \<Rightarrow> PodAgent" where
  "pa_SetConstraints cs p = p\<lparr>pa_constraints := cs\<rparr>"

definition pa_GetConstraints :: "PodAgent \<Rightarrow> Constraint slice" where
  "pa_GetConstraints p = pa_constraints p"

text \<open>An error of \<^verbatim>\<open>SyncConstraints\<close> is fatal: \<open>None\<close>.\<close>

definition pa_SyncConstraints ::
  "('w, GetConstraintsRequest, GetConstraintsResponse) rpc \<Rightarrow> PodAgent \<Rightarrow> ('w, PodAgent option) io" where
  "pa_SyncConstraints getConstraints p w =
     (case getConstraints \<lparr>gcr_Namespace = pa_namespace p, gcr_Labels = map_option (map Some) (pa_podLabels p)\<rparr> w of
        (Inl err, w') \<Rightarrow> (None, w')
      | (Inr r, w') \<Rightarrow>
          (Some ((pa_SetConstraints (gcp_Constraints r) p)\<lparr>pa_constraintsInitialized := True\<rparr>), w'))"

section \<open>Validation of files\<close>

record violatedFile =
  v_name :: string
  v_expectedSha256Sum :: string
  v_actualSha256Sum :: string

text \<open>The two nested loops, over the maps of violated and of allowed files.\<close>

fun check_files ::
  "(string \<Rightarrow> string) \<Rightarrow> (string \<Rightarrow> string) \<Rightarrow> AllowedFileRule list \<Rightarrow>
   violatedFile gomap \<times> unit gomap \<Rightarrow> violatedFile gomap \<times> unit gomap" where
  "check_files sha bytes [] acc = acc"
| "check_files sha bytes (allowedFile # rest) (violated, allowed) =
     (if afr_Name allowedFile = [] \<or> GetSha256Sum allowedFile = [] then check_files sha bytes rest (violated, allowed)
      else
        let actualSha256Sum = sha (bytes (afr_Name allowedFile))
        in if actualSha256Sum = GetSha256Sum allowedFile
           then check_files sha bytes rest (violated, map_put (afr_Name allowedFile) () allowed)
           else check_files sha bytes rest
             (map_put (afr_Name allowedFile)
                \<lparr>v_name = afr_Name allowedFile, v_expectedSha256Sum = GetSha256Sum allowedFile,
                 v_actualSha256Sum = actualSha256Sum\<rparr> violated, allowed))"

fun check_constraints ::
  "(string \<Rightarrow> string) \<Rightarrow> (string \<Rightarrow> string) \<Rightarrow> Constraint list \<Rightarrow>
   violatedFile gomap \<times> unit gomap \<Rightarrow> violatedFile gomap \<times> unit gomap" where
  "check_constraints sha bytes [] acc = acc"
| "check_constraints sha bytes (constraint # rest) acc =
     (if c_AllowedFiles constraint = None then check_constraints sha bytes rest acc
      else check_constraints sha bytes rest (check_files sha bytes (elems (c_AllowedFiles constraint)) acc))"

definition validateFileChecksums ::
  "(string \<Rightarrow> string) \<Rightarrow> (string \<Rightarrow> string) \<Rightarrow> PodAgent \<Rightarrow> violatedFile gomap" where
  "validateFileChecksums sha bytes p =
     (let (violatedFiles, allowedFiles) = check_constraints sha bytes (elems (pa_constraints p)) ([], [])
      in foldl (\<lambda>m (name, _). map_delete name m) violatedFiles allowedFiles)"

definition violatedFilesRequest :: "Timestamp \<Rightarrow> PodAgent \<Rightarrow> violatedFile gomap \<Rightarrow> IngestEventRequest" where
  "violatedFilesRequest now p violatedFiles =
     \<lparr>ier_Event = Some \<lparr>e_Kind = [], e_Type = EventTypeViolation, e_Uid = [], e_ServerTimestamp = None,
        e_ClientTimestamp = Some now, e_AlertSentAt = None,
        e_Targets = Some [zero_Target\<lparr>
          t_Pod := Some \<lparr>pod_Uid = pa_podUID p, pod_Namespace = pa_namespace p, pod_Name = pa_podName p,
                         pod_Labels = map_option (map Some) (pa_podLabels p)\<rparr>,
          t_ViolatedFiles := Some (map (\<lambda>(_, f). \<lparr>vf_Name = v_name f, vf_ActualSha256Sum = v_actualSha256Sum f,
                         vf_ExpectedSha256Sum = v_expectedSha256Sum f\<rparr>) violatedFiles)\<rparr>]\<rparr>\<rparr>"

definition ReportViolatedFilesToClusterAgent ::
  "('w, IngestEventRequest, IngestEventResponse) rpc \<Rightarrow> Timestamp \<Rightarrow> PodAgent \<Rightarrow> violatedFile gomap \<Rightarrow> 'w \<Rightarrow> 'w" where
  "ReportViolatedFilesToClusterAgent ingestEvent now p violatedFiles w =
     snd (ingestEvent (violatedFilesRequest now p violatedFiles) w)"

text \<open>A round of \<^verbatim>\<open>loopValidateFileChecksums\<close>.\<close>

definition validate_round ::
  "(string \<Rightarrow> string) \<Rightarrow> (string \<Rightarrow> string) \<Rightarrow> ('w, IngestEventRequest, IngestEventResponse) rpc \<Rightarrow>
   Timestamp \<Rightarrow> PodAgent \<Rightarrow> 'w \<Rightarrow> 'w" where
  "validate_round sha bytes ingestEvent now p w =
     (if \<not> pa_constraintsInitialized p then w
      else let violatedFiles = validateFileChecksums sha bytes p
        in if violatedFiles \<noteq> [] then ReportViolatedFilesToClusterAgent ingestEvent now p violatedFiles w else w)"

section \<open>Registration of files\<close>

definition matchLabelsFromLabels :: "Label slice \<Rightarrow> MatchLabel slice" where
  "matchLabelsFromLabels labels = Some (map (\<lambda>l. \<lparr>ml_Key = l_Key l, ml_Value = l_Value l\<rparr>) (elems labels))"

definition fileConstraint :: "PodAgent \<Rightarrow> string \<Rightarrow> string \<Rightarrow> string \<Rightarrow> Constraint" where
  "fileConstraint p constraintName path sha256Sum =
     \<lparr>c_Kind = KindConstraint, c_Namespace = pa_namespace p, c_Name = constraintName,
      c_Selector = Some \<lparr>sel_MatchLabels = matchLabelsFromLabels (pa_podLabels p)\<rparr>,
      c_AllowedProcesses = None,
      c_AllowedFiles = Some [\<lparr>afr_Name = path, afr_Sha256Sum = Some sha256Sum\<rparr>]\<rparr>"

definition createConstraintWithFileRule ::
  "('w, AddConstraintRequest, AddConstraintResponse) rpc \<Rightarrow> PodAgent \<Rightarrow> string \<Rightarrow> string \<Rightarrow> string \<Rightarrow>
   ('w, go_error + AddConstraintResponse) io" where
  "createConstraintWithFileRule addConstraint p constraintName path sha256Sum =
     addConstraint \<lparr>acr_Constraint = Some (fileConstraint p constraintName path sha256Sum)\<rparr>"

fun delete_loop ::
  "('w, RemoveConstraintRequest, RemoveConstraintResponse) rpc \<Rightarrow> string \<Rightarrow> string \<Rightarrow> Constraint list \<Rightarrow> ('w, go_error option) io" where
  "delete_loop removeConstraint namespace pfx [] w = (None, w)"
| "delete_loop removeConstraint namespace pfx (c # cs) w =
     (if HasPrefix (c_Name c) pfx
      then (case removeConstraint \<lparr>rcr_Namespace = namespace, rcr_Name = c_Name c\<rparr> w of
              (Inl err, w') \<Rightarrow> (Some err, w')
            | (Inr _, w') \<Rightarrow> delete_loop removeConstraint namespace pfx cs w')
      else delete_loop removeConstraint namespace pfx cs w)"

definition deleteConstraintByNamePrefix ::
  "('w, RemoveConstraintRequest, RemoveConstraintResponse) rpc \<Rightarrow> PodAgent \<Rightarrow> string \<Rightarrow> ('w, go_error option) io" where
  "deleteConstraintByNamePrefix removeConstraint p pfx =
     delete_loop removeConstraint (pa_namespace p) pfx (elems (pa_constraints p))"

text \<open>The map from the name of a file to the checksum of its last rule.\<close>

definition registeredSha256Sums :: "PodAgent \<Rightarrow> string gomap" where
  "registeredSha256Sums p =
     foldl (\<lambda>m r. if afr_Name r = [] \<or> GetSha256Sum r = [] then m else map_put (afr_Name r) (GetSha256Sum r) m) []
       (concat (map (\<lambda>c. elems (c_AllowedFiles c)) (elems (pa_constraints p))))"

record ('w) agent_rpcs =
  rpc_AddConstraint :: "('w, AddConstraintRequest, AddConstraintResponse) rpc"
  rpc_RemoveConstraint :: "('w, RemoveConstraintRequest, RemoveConstraintResponse) rpc"

text \<open>The function that \<^verbatim>\<open>WalkDir\<close> calls, on an entry that is not a directory.\<close>

definition register_file ::
  "(string \<Rightarrow> string) \<Rightarrow> (string \<Rightarrow> string) \<Rightarrow> (string \<Rightarrow> string \<Rightarrow> bool) \<Rightarrow> 'w agent_rpcs \<Rightarrow> PodAgent \<Rightarrow> string \<Rightarrow> 'w \<Rightarrow> 'w" where
  "register_file sha bytes Match R p path w =
     (if list_ex (\<lambda>ignoredPattern. Match ignoredPattern path) (pa_registerFileIgnorePaths p) then w
      else
        let actualSha256Sum = sha (bytes path);
            pathShaStr = take 10 (sha path);
            namePrefix = pa_podName p @ ''-'' @ pathShaStr @ ''-'';
            create = (\<lambda>w. snd (createConstraintWithFileRule (rpc_AddConstraint R) p
                        (namePrefix @ take 10 actualSha256Sum) path actualSha256Sum w))
        in case map_get (registeredSha256Sums p) path of
             Some expectedSha256Sum \<Rightarrow>
               (if actualSha256Sum \<noteq> expectedSha256Sum
                then create (snd (deleteConstraintByNamePrefix (rpc_RemoveConstraint R) p namePrefix w))
                else w)
           | None \<Rightarrow> create w)"

fun register_entries ::
  "(string \<Rightarrow> string) \<Rightarrow> (string \<Rightarrow> string) \<Rightarrow> (string \<Rightarrow> string \<Rightarrow> bool) \<Rightarrow> 'w agent_rpcs \<Rightarrow> PodAgent \<Rightarrow>
   (string \<times> bool) list \<Rightarrow> 'w \<Rightarrow> 'w" where
  "register_entries sha bytes Match R p [] w = w"
| "register_entries sha bytes Match R p ((path, isDir) # rest) w =
     register_entries sha bytes Match R p rest
       (if isDir then w else register_file sha bytes Match R p path w)"

text \<open>
  \<^verbatim>\<open>registerFileChecksums\<close>. When a path to register does not exist, \<^verbatim>\<open>WalkDir\<close> calls its function with a
  nil entry, whose \<^verbatim>\<open>IsDir\<close> is called at once: the agent panics. \<open>None\<close> is that outcome.
\<close>

fun register_paths ::
  "(string \<Rightarrow> string) \<Rightarrow> (string \<Rightarrow> string) \<Rightarrow> (string \<Rightarrow> string \<Rightarrow> bool) \<Rightarrow> (string \<Rightarrow> (string \<times> bool) list option) \<Rightarrow>
   'w agent_rpcs \<Rightarrow> PodAgent \<Rightarrow> string list \<Rightarrow> 'w \<Rightarrow> 'w option" where
  "register_paths sha bytes Match WalkDir R p [] w = Some w"
| "register_paths sha bytes Match WalkDir R p (registerFilePath # rest) w = (case WalkDir registerFilePath of
     None \<Rightarrow> None
   | Some entries \<Rightarrow> register_paths sha bytes Match WalkDir R p rest (register_entries sha bytes Match R p entries w))"

definition registerFileChecksums ::
  "(string \<Rightarrow> string) \<Rightarrow> (string \<Rightarrow> string) \<Rightarrow> (string \<Rightarrow> string \<Rightarrow> bool) \<Rightarrow> (string \<Rightarrow> (string \<times> bool) list option) \<Rightarrow>
   'w agent_rpcs \<Rightarrow> PodAgent \<Rightarrow> 'w \<Rightarrow> 'w option" where
  "registerFileChecksums sha bytes Match WalkDir R p w =
     register_paths sha bytes Match WalkDir R p (pa_registerFilePaths p) w"

section \<open>Validation meets its specification\<close>

text \<open>The rules that count: those with a name and a checksum.\<close>

definition file_rules :: "Constraint list \<Rightarrow> AllowedFileRule list" where
  "file_rules cs = filter (\<lambda>r. afr_Name r \<noteq> [] \<and> GetSha256Sum r \<noteq> []) (concat (map (\<lambda>c. elems (c_AllowedFiles c)) cs))"

definition rule_holds :: "(string \<Rightarrow> string) \<Rightarrow> (string \<Rightarrow> string) \<Rightarrow> AllowedFileRule \<Rightarrow> bool" where
  "rule_holds sha bytes r \<longleftrightarrow> sha (bytes (afr_Name r)) = GetSha256Sum r"

definition violation_of :: "(string \<Rightarrow> string) \<Rightarrow> (string \<Rightarrow> string) \<Rightarrow> AllowedFileRule \<Rightarrow> violatedFile" where
  "violation_of sha bytes r = \<lparr>v_name = afr_Name r, v_expectedSha256Sum = GetSha256Sum r,
     v_actualSha256Sum = sha (bytes (afr_Name r))\<rparr>"

lemma check_constraints_concat:
  "check_constraints sha bytes cs acc =
     check_files sha bytes (concat (map (\<lambda>c. elems (c_AllowedFiles c)) cs)) acc"
proof -
  have app: "check_files sha bytes (xs @ ys) acc = check_files sha bytes ys (check_files sha bytes xs acc)" for xs ys acc
    by (induction sha bytes xs acc rule: check_files.induct) (auto simp: Let_def)
  show ?thesis by (induction cs arbitrary: acc) (auto simp: app)
qed

lemma check_files_fst:
  "map_get (fst (check_files sha bytes rs (v, a))) n =
     (case filter (\<lambda>r. afr_Name r = n \<and> GetSha256Sum r \<noteq> [] \<and> n \<noteq> [] \<and> \<not> rule_holds sha bytes r) (rev rs) of
        [] \<Rightarrow> map_get v n | r # _ \<Rightarrow> Some (violation_of sha bytes r))"
proof (induction rs arbitrary: v a)
  case (Cons r rs)
  show ?case
    using Cons.IH
    by (auto simp: Let_def map_get_put rule_holds_def violation_of_def split: list.splits)
qed simp

lemma check_files_snd:
  "n \<in> fst ` set (snd (check_files sha bytes rs (v, a))) \<longleftrightarrow>
     n \<in> fst ` set a \<or> (\<exists>r\<in>set rs. afr_Name r = n \<and> GetSha256Sum r \<noteq> [] \<and> n \<noteq> [] \<and> rule_holds sha bytes r)"
proof (induction rs arbitrary: v a)
  case (Cons r rs)
  show ?case using Cons.IH by (auto simp: Let_def keys_map_put rule_holds_def)
qed simp

lemma fold_map_delete:
  "map_get (foldl (\<lambda>m (name, _). map_delete name m) v a) n = (if n \<in> fst ` set a then None else map_get v n)"
proof (induction a arbitrary: v)
  case (Cons x a)
  obtain k u where "x = (k, u)" by force
  then show ?case using Cons.IH[of "map_delete k v"] by (auto simp: map_get_delete)
qed simp

lemma validateFileChecksums_get:
  "map_get (validateFileChecksums sha bytes p) n =
     (let rs = filter (\<lambda>r. afr_Name r = n) (file_rules (elems (pa_constraints p)))
      in if rs = [] \<or> list_ex (rule_holds sha bytes) rs then None else Some (violation_of sha bytes (last rs)))"
proof -
  let ?all = "concat (map (\<lambda>c. elems (c_AllowedFiles c)) (elems (pa_constraints p)))"
  let ?rs = "filter (\<lambda>r. afr_Name r = n) (file_rules (elems (pa_constraints p)))"
  have rs: "?rs = filter (\<lambda>r. afr_Name r = n \<and> GetSha256Sum r \<noteq> [] \<and> n \<noteq> []) ?all"
    by (auto simp: file_rules_def intro: filter_cong)
  have val: "map_get (validateFileChecksums sha bytes p) n =
      (if n \<in> fst ` set (snd (check_files sha bytes ?all ([], []))) then None
       else map_get (fst (check_files sha bytes ?all ([], []))) n)"
    by (cases "check_files sha bytes ?all ([], [])")
      (simp add: validateFileChecksums_def check_constraints_concat fold_map_delete)
  show ?thesis
  proof (cases "list_ex (rule_holds sha bytes) ?rs")
    case True
    then have "n \<in> fst ` set (snd (check_files sha bytes ?all ([], [])))"
      unfolding check_files_snd rs by (auto simp: list_ex_iff)
    then show ?thesis using True val by (simp add: Let_def)
  next
    case False
    then have none: "n \<notin> fst ` set (snd (check_files sha bytes ?all ([], [])))"
      unfolding check_files_snd rs by (auto simp: list_ex_iff)
    have "filter (\<lambda>r. afr_Name r = n \<and> GetSha256Sum r \<noteq> [] \<and> n \<noteq> [] \<and> \<not> rule_holds sha bytes r) (rev ?all) = rev ?rs"
      unfolding rs rev_filter using False unfolding rs by (auto simp: list_ex_iff intro!: filter_cong)
    then have "map_get (fst (check_files sha bytes ?all ([], []))) n =
        (case rev ?rs of [] \<Rightarrow> None | r # _ \<Rightarrow> Some (violation_of sha bytes r))"
      using check_files_fst[of sha bytes ?all "[]" "[]" n]
      by (simp only:) (simp add: map_get_def split: list.split)
    then show ?thesis using False val none by (cases ?rs rule: rev_cases) (simp_all add: Let_def)
  qed
qed

text \<open>
  C13: \<^verbatim>\<open>validateFileChecksums\<close> reports a file exactly when some rule of the constraints names it with a
  checksum and no rule that names it has the checksum of its bytes. It then reports the actual
  checksum and the one of the last rule for the file; rules without a name or a checksum count for
  nothing.
\<close>

theorem validateFileChecksums_spec:
  "map_get (validateFileChecksums sha bytes p) n =
     (let rs = filter (\<lambda>r. afr_Name r = n) (file_rules (elems (pa_constraints p)))
      in if rs = [] \<or> list_ex (rule_holds sha bytes) rs then None else Some (violation_of sha bytes (last rs)))"
  by (rule validateFileChecksums_get)

section \<open>Registration\<close>

text \<open>A cluster that keeps the requests it gets and answers by given functions.\<close>

datatype agent_call = AddCall AddConstraintRequest | RemoveCall RemoveConstraintRequest

definition recording_rpcs ::
  "(AddConstraintRequest \<Rightarrow> go_error + AddConstraintResponse) \<Rightarrow>
   (RemoveConstraintRequest \<Rightarrow> go_error + RemoveConstraintResponse) \<Rightarrow> agent_call list agent_rpcs" where
  "recording_rpcs add rem = \<lparr>rpc_AddConstraint = (\<lambda>req w. (add req, w @ [AddCall req])),
     rpc_RemoveConstraint = (\<lambda>req w. (rem req, w @ [RemoveCall req]))\<rparr>"

text \<open>The files of a round: visited, no directory, and not ignored.\<close>

definition walked_file :: "(string \<Rightarrow> string \<Rightarrow> bool) \<Rightarrow> (string \<Rightarrow> (string \<times> bool) list option) \<Rightarrow> PodAgent \<Rightarrow> string \<Rightarrow> bool" where
  "walked_file Match WalkDir p path \<longleftrightarrow>
     (\<exists>root\<in>set (pa_registerFilePaths p). \<exists>entries. WalkDir root = Some entries \<and> (path, False) \<in> set entries) \<and>
     \<not> list_ex (\<lambda>pat. Match pat path) (pa_registerFileIgnorePaths p)"

definition file_request :: "(string \<Rightarrow> string) \<Rightarrow> (string \<Rightarrow> string) \<Rightarrow> PodAgent \<Rightarrow> string \<Rightarrow> AddConstraintRequest" where
  "file_request sha bytes p path = \<lparr>acr_Constraint = Some (fileConstraint p
     (pa_podName p @ ''-'' @ take 10 (sha path) @ ''-'' @ take 10 (sha (bytes path))) path (sha (bytes path)))\<rparr>"

lemma delete_loop_calls:
  "\<exists>reqs. snd (delete_loop (rpc_RemoveConstraint (recording_rpcs add rem)) ns pfx cs w) = w @ map RemoveCall reqs \<and>
     (\<forall>r\<in>set reqs. rcr_Namespace r = ns \<and> HasPrefix (rcr_Name r) pfx)"
proof (induction cs arbitrary: w)
  case (Cons c cs)
  show ?case
  proof (cases "HasPrefix (c_Name c) pfx")
    case True
    let ?r = "\<lparr>rcr_Namespace = ns, rcr_Name = c_Name c\<rparr>"
    show ?thesis
    proof (cases "rem ?r")
      case (Inl err)
      then show ?thesis using True by (auto simp: recording_rpcs_def intro!: exI[of _ "[?r]"])
    next
      case (Inr resp)
      obtain reqs where "snd (delete_loop (rpc_RemoveConstraint (recording_rpcs add rem)) ns pfx cs (w @ [RemoveCall ?r])) =
          (w @ [RemoveCall ?r]) @ map RemoveCall reqs"
        "\<forall>r\<in>set reqs. rcr_Namespace r = ns \<and> HasPrefix (rcr_Name r) pfx"
        using Cons.IH[of "w @ [RemoveCall ?r]"] by blast
      then show ?thesis using True Inr by (auto simp: recording_rpcs_def intro!: exI[of _ "?r # reqs"])
    qed
  qed (use Cons.IH in simp)
qed simp

text \<open>The requests for one file: none, or removals of its previous constraints and one addition.\<close>

lemma register_file_calls:
  "\<exists>reqs. register_file sha bytes Match (recording_rpcs add rem) p path w =
     w @ map RemoveCall reqs @
       (if list_ex (\<lambda>pat. Match pat path) (pa_registerFileIgnorePaths p) \<or>
           map_get (registeredSha256Sums p) path = Some (sha (bytes path)) then []
        else [AddCall (file_request sha bytes p path)])"
proof -
  have create: "snd (createConstraintWithFileRule (rpc_AddConstraint (recording_rpcs add rem)) p n path c w) =
      w @ [AddCall \<lparr>acr_Constraint = Some (fileConstraint p n path c)\<rparr>]" for n c w
    by (simp add: createConstraintWithFileRule_def recording_rpcs_def)
  let ?pfx = "pa_podName p @ ''-'' @ take 10 (sha path) @ ''-''"
  obtain reqs where del: "snd (deleteConstraintByNamePrefix (rpc_RemoveConstraint (recording_rpcs add rem)) p ?pfx w) =
      w @ map RemoveCall reqs"
    unfolding deleteConstraintByNamePrefix_def using delete_loop_calls by blast
  show ?thesis
  proof (cases "map_get (registeredSha256Sums p) path")
    case None
    then show ?thesis
      by (auto simp: register_file_def create file_request_def Let_def intro!: exI[of _ "[]"])
  next
    case (Some e)
    then show ?thesis using del
      by (auto simp: register_file_def create file_request_def Let_def intro: exI[of _ "[]"] exI[of _ reqs])
  qed
qed

lemma register_entries_calls:
  "\<exists>log. register_entries sha bytes Match (recording_rpcs add rem) p es w = w @ log \<and>
     (\<forall>path. (path, False) \<in> set es \<and> \<not> list_ex (\<lambda>pat. Match pat path) (pa_registerFileIgnorePaths p) \<and>
        map_get (registeredSha256Sums p) path \<noteq> Some (sha (bytes path)) \<longrightarrow>
        AddCall (file_request sha bytes p path) \<in> set log)"
proof (induction es arbitrary: w)
  case (Cons e es)
  obtain path isDir where e: "e = (path, isDir)" by force
  show ?case
  proof (cases isDir)
    case True
    then show ?thesis using Cons.IH[of w] e by auto
  next
    case False
    obtain l1 where l1: "register_file sha bytes Match (recording_rpcs add rem) p path w = w @ l1"
      "\<not> list_ex (\<lambda>pat. Match pat path) (pa_registerFileIgnorePaths p) \<and>
        map_get (registeredSha256Sums p) path \<noteq> Some (sha (bytes path)) \<longrightarrow>
        AddCall (file_request sha bytes p path) \<in> set l1"
      using register_file_calls[of sha bytes Match add rem p path w] by auto
    obtain l2 where "register_entries sha bytes Match (recording_rpcs add rem) p es (w @ l1) = (w @ l1) @ l2"
      "\<forall>path. (path, False) \<in> set es \<and> \<not> list_ex (\<lambda>pat. Match pat path) (pa_registerFileIgnorePaths p) \<and>
        map_get (registeredSha256Sums p) path \<noteq> Some (sha (bytes path)) \<longrightarrow>
        AddCall (file_request sha bytes p path) \<in> set l2"
      using Cons.IH[of "w @ l1"] by blast
    then show ?thesis using e False l1 by (auto intro!: exI[of _ "l1 @ l2"])
  qed
qed simp

lemma register_paths_calls:
  "register_paths sha bytes Match WalkDir (recording_rpcs add rem) p roots w = Some w' \<Longrightarrow>
     \<exists>log. w' = w @ log \<and>
     (\<forall>path root es. root \<in> set roots \<and> WalkDir root = Some es \<and> (path, False) \<in> set es \<and>
        \<not> list_ex (\<lambda>pat. Match pat path) (pa_registerFileIgnorePaths p) \<and>
        map_get (registeredSha256Sums p) path \<noteq> Some (sha (bytes path)) \<longrightarrow>
        AddCall (file_request sha bytes p path) \<in> set log)"
proof (induction roots arbitrary: w)
  case (Cons root roots)
  from Cons.prems obtain es where es: "WalkDir root = Some es" by (auto split: option.splits)
  obtain l1 where l1: "register_entries sha bytes Match (recording_rpcs add rem) p es w = w @ l1"
    "\<forall>path. (path, False) \<in> set es \<and> \<not> list_ex (\<lambda>pat. Match pat path) (pa_registerFileIgnorePaths p) \<and>
        map_get (registeredSha256Sums p) path \<noteq> Some (sha (bytes path)) \<longrightarrow>
        AddCall (file_request sha bytes p path) \<in> set l1"
    using register_entries_calls[of sha bytes Match add rem p es w] by blast
  obtain l2 where l2: "w' = (w @ l1) @ l2"
    "\<forall>path root es. root \<in> set roots \<and> WalkDir root = Some es \<and> (path, False) \<in> set es \<and>
        \<not> list_ex (\<lambda>pat. Match pat path) (pa_registerFileIgnorePaths p) \<and>
        map_get (registeredSha256Sums p) path \<noteq> Some (sha (bytes path)) \<longrightarrow>
        AddCall (file_request sha bytes p path) \<in> set l2"
    using Cons.IH[of "w @ l1"] Cons.prems es l1(1) by auto
  show ?case using l1 l2 es by (intro exI[of _ "l1 @ l2"]) auto
qed simp

text \<open>
  C28: registration makes validation pass. After a round of registration that does not crash, if the
  constraints that it asked the cluster to add are among those the agent gets at its next
  synchronisation, then no file that the round found new or changed is reported as violated, as
  long as its bytes stay the same.
\<close>

theorem registered_files_validate:
  assumes "registerFileChecksums sha bytes Match WalkDir (recording_rpcs add rem) p [] = Some log"
    and "\<forall>req c. AddCall req \<in> set log \<and> acr_Constraint req = Some c \<longrightarrow> c \<in> set (elems cs)"
    and "walked_file Match WalkDir p path" "path \<noteq> []"
    and "map_get (registeredSha256Sums p) path \<noteq> Some (sha (bytes path))" "sha (bytes path) \<noteq> []"
  shows "map_get (validateFileChecksums sha bytes (p\<lparr>pa_constraints := cs\<rparr>)) path = None"
proof -
  have "AddCall (file_request sha bytes p path) \<in> set log"
    using register_paths_calls[of sha bytes Match WalkDir add rem p "pa_registerFilePaths p" "[]" log] assms(1,3,5)
    by (auto simp: registerFileChecksums_def walked_file_def)
  moreover obtain c where "acr_Constraint (file_request sha bytes p path) = Some c"
    and files: "c_AllowedFiles c = Some [\<lparr>afr_Name = path, afr_Sha256Sum = Some (sha (bytes path))\<rparr>]"
    by (simp add: file_request_def fileConstraint_def)
  ultimately have "c \<in> set (elems cs)" using assms(2) by blast
  note c = this files
  let ?r = "\<lparr>afr_Name = path, afr_Sha256Sum = Some (sha (bytes path))\<rparr>"
  have "?r \<in> set (filter (\<lambda>r. afr_Name r = path) (file_rules (elems cs)))"
    using c assms(4,6) by (auto simp: file_rules_def GetSha256Sum_def intro!: bexI[of _ c])
  moreover have "rule_holds sha bytes ?r" by (simp add: rule_holds_def GetSha256Sum_def)
  ultimately show ?thesis unfolding validateFileChecksums_get Let_def list_ex_iff by auto
qed

text \<open>One file, never registered; the checksum of a byte string is the byte string itself.\<close>

definition demo_pod_agent :: PodAgent where
  "demo_pod_agent = (NewPodAgent ''addr'')\<lparr>pa_podName := ''web'', pa_namespace := ''default'',
     pa_podLabels := Some [\<lparr>l_Key = ''app'', l_Value = ''nginx''\<rparr>], pa_registerFilePaths := [''/etc'']\<rparr>"

definition demo_walk :: "string \<Rightarrow> (string \<times> bool) list option" where
  "demo_walk root = Some [(root, True), (root @ ''/passwd'', False)]"

theorem registered_files_validate_witness:
  "map_get (validateFileChecksums (\<lambda>s. ''sum'' @ s) (\<lambda>_. ''x'')
     (demo_pod_agent\<lparr>pa_constraints := Some [fileConstraint demo_pod_agent ''web-sum/etc/pa-sumx'' ''/etc/passwd'' ''sumx'']\<rparr>))
     ''/etc/passwd'' = None"
proof (rule registered_files_validate[where Match = "\<lambda>_ _. False" and WalkDir = demo_walk
        and add = "\<lambda>_. Inr \<lparr>acp_Success = True\<rparr>" and rem = "\<lambda>_. Inr \<lparr>rcp_Success = True\<rparr>"])
  show "registerFileChecksums (\<lambda>s. ''sum'' @ s) (\<lambda>_. ''x'') (\<lambda>_ _. False) demo_walk
      (recording_rpcs (\<lambda>_. Inr \<lparr>acp_Success = True\<rparr>) (\<lambda>_. Inr \<lparr>rcp_Success = True\<rparr>)) demo_pod_agent [] =
    Some [AddCall (file_request (\<lambda>s. ''sum'' @ s) (\<lambda>_. ''x'') demo_pod_agent ''/etc/passwd'')]"
    by (simp add: registerFileChecksums_def demo_pod_agent_def NewPodAgent_def demo_walk_def register_file_def
        registeredSha256Sums_def createConstraintWithFileRule_def recording_rpcs_def file_request_def Let_def map_get_def)
qed (auto simp: file_request_def fileConstraint_def demo_pod_agent_def NewPodAgent_def walked_file_def demo_walk_def
      registeredSha256Sums_def map_get_def)

text \<open>
  A path to register that does not exist ends the agent: whatever was registered before, the
  round has no outcome.
\<close>

theorem register_missing_path_crashes:
  assumes "root \<in> set (pa_registerFilePaths p)" and "WalkDir root = None"
  shows "registerFileChecksums sha bytes Match WalkDir R p w = None"
proof -
  have "root \<in> set roots \<Longrightarrow> register_paths sha bytes Match WalkDir R p roots w = None" for roots
    using assms(2) by (induction roots arbitrary: w) (auto split: option.splits)
  then show ?thesis using assms(1) by (simp add: registerFileChecksums_def)
qed

theorem register_missing_path_crashes_witness:
  "registerFileChecksums (\<lambda>s. s) (\<lambda>s. s) (\<lambda>_ _. False) (\<lambda>_. None) (recording_rpcs (\<lambda>_. Inr \<lparr>acp_Success = True\<rparr>)
     (\<lambda>_. Inr \<lparr>rcp_Success = True\<rparr>)) demo_pod_agent [] = None"
  by (rule register_missing_path_crashes[of "''/etc''"]) (simp_all add: demo_pod_agent_def)

end
