(* ===== verification/PodAgentCmd.thy ===== *)
theory PodAgentCmd
  imports PodAgent
begin

text \<open>
  The command line of the pod agent (\<^verbatim>\<open>cmd/tarian-pod-agent/cmd\<close>): the global flags, reading the labels of
  the pod from the file of the downward API, and the commands \<^verbatim>\<open>register\<close> and \<^verbatim>\<open>threat-scan\<close>, which configure an
  agent and start its loops. Opening a file and the host name are parameters; a signal is the
  operation \<open>pa_GracefulStop\<close>, which may come at any time.
\<close>

section \<open>Flags\<close>

text \<open>The flags that the four daemons share, each with its own copy of this code.\<close>

record AgentFlags =
  af_LogLevel :: string
  af_LogFormatter :: string

definition SetAgentFlags :: AgentFlags where
  "SetAgentFlags = \<lparr>af_LogLevel = ''info'', af_LogFormatter = ''text''\<rparr>"

definition ValidateAgentFlags :: "AgentFlags \<Rightarrow> go_error option" where
  "ValidateAgentFlags f =
     (if af_LogLevel f \<notin> set [''debug'', ''info'', ''warn'', ''warning'', ''error'', ''fatal'']
      then Some (NewError (''invalid log level: '' @ af_LogLevel f))
      else if af_LogFormatter f \<notin> set [''json'', ''text'']
      then Some (NewError (''invalid log formatter: '' @ af_LogFormatter f))
      else None)"

section \<open>Labels from a file\<close>

text \<open>
  \<^verbatim>\<open>bufio.ScanLines\<close>: the pieces between line feeds, without an empty piece at the end, each without one
  trailing carriage return. The scanner gives up at a line that does not fit its buffer of 64 KiB;
  the code does not look at the scanner's error.
\<close>

definition newline :: string where
  "newline = [CHR 0x0A]"

definition raw_lines :: "string \<Rightarrow> string list" where
  "raw_lines s = (let ps = Split s newline in if last ps = [] then butlast ps else ps)"

definition drop_cr :: "string \<Rightarrow> string" where
  "drop_cr l = (if l \<noteq> [] \<and> last l = CHR 0x0D then butlast l else l)"

definition scan_lines :: "string \<Rightarrow> string list" where
  "scan_lines s = map drop_cr (takeWhile (\<lambda>l. length l < 65536) (raw_lines s))"

fun labels_loop :: "string list \<Rightarrow> Label list \<Rightarrow> Label list" where
  "labels_loop [] labels = labels"
| "labels_loop (line # rest) labels =
     (let idx = Index line ''='' in
      if idx < 0 then labels_loop rest labels
      else labels_loop rest
        (labels @ [\<lparr>l_Key = take (nat idx) line, l_Value = Trim (drop (nat idx + 1) line) [CHR 0x22]\<rparr>]))"

definition readLabelsFromFile :: "(string \<Rightarrow> go_error + string) \<Rightarrow> string \<Rightarrow> go_error + Label list" where
  "readLabelsFromFile Open path =
     (case Open path of
        Inl err \<Rightarrow> Inl (Wrap ''failed to open file: '' (Some err))
      | Inr content \<Rightarrow>
          (let labels = labels_loop (scan_lines content) []
           in if length labels = 0 then Inl (NewError ''no labels found in file'') else Inr labels))"

text \<open>The loop that removes the first label \<^verbatim>\<open>pod-template-hash\<close>, at index \<open>i\<close>.\<close>

fun drop_template_hash :: "nat \<Rightarrow> Label list \<Rightarrow> Label list \<Rightarrow> Label list" where
  "drop_template_hash i [] podLabels = podLabels"
| "drop_template_hash i (e # es) podLabels =
     (if l_Key e = ''pod-template-hash'' then take i podLabels @ drop (i + 1) podLabels
      else drop_template_hash (Suc i) es podLabels)"

section \<open>The commands\<close>

text \<open>The loops that a running agent has.\<close>

datatype agent_loop = SyncLoop | ValidateLoop | RegisterLoop

definition RunThreatScan :: "PodAgent \<Rightarrow> agent_loop list" where
  "RunThreatScan p = [SyncLoop, ValidateLoop]"

definition RunRegister :: "PodAgent \<Rightarrow> agent_loop list" where
  "RunRegister p = [SyncLoop] @ (if pa_enableRegisterFiles p then [RegisterLoop] else [])"

record threatScanCommand =
  ts_host :: string
  ts_port :: string
  ts_podLabelsFile :: string
  ts_podName :: string
  ts_podUID :: string
  ts_namespace :: string
  ts_fileValidationInterval :: int

record registerCommand = threatScanCommand +
  rc_registerRules :: string
  rc_registerFilePaths :: string
  rc_registerFileIgnorePaths :: string

text \<open>The defaults of the flags, with durations in nanoseconds.\<close>

definition newThreatScanCommand :: threatScanCommand where
  "newThreatScanCommand = \<lparr>ts_host = [], ts_port = ''50052'', ts_podLabelsFile = [], ts_podName = [], ts_podUID = [],
     ts_namespace = [], ts_fileValidationInterval = 3000000000\<rparr>"

definition newRegisterCommand :: registerCommand where
  "newRegisterCommand = \<lparr>ts_host = [], ts_port = ''50052'', ts_podLabelsFile = [], ts_podName = [], ts_podUID = [],
     ts_namespace = [], ts_fileValidationInterval = 3000000000, rc_registerRules = [], rc_registerFilePaths = [],
     rc_registerFileIgnorePaths = []\<rparr>"

text \<open>What runs before every command: the flags are checked and the logger is set up.\<close>

definition root_PreRun :: "(string \<Rightarrow> go_error + nat) \<Rightarrow> AgentFlags \<Rightarrow> go_error + nat \<times> bool" where
  "root_PreRun ParseLevel f = (case ValidateAgentFlags f of
     Some err \<Rightarrow> Inl err
   | None \<Rightarrow> Inr (case ParseLevel (af_LogLevel f) of Inl _ \<Rightarrow> 0 | Inr level \<Rightarrow> level, af_LogFormatter f = ''json''))"

text \<open>The part that the two commands have in common, up to the namespace.\<close>

definition configure_pod ::
  "(string \<Rightarrow> go_error + string) \<Rightarrow> go_error + string \<Rightarrow> 'a threatScanCommand_scheme \<Rightarrow> go_error + PodAgent" where
  "configure_pod Open Hostname c =
     (let p0 = NewPodAgent (ts_host c @ '':'' @ ts_port c)
      in case (if ts_podLabelsFile c \<noteq> []
               then (case readLabelsFromFile Open (ts_podLabelsFile c) of
                       Inl err \<Rightarrow> Inl (Wrap ''failed reading pod-labels-file: '' (Some err))
                     | Inr podLabels \<Rightarrow> Inr (pa_SetPodLabels (Some (drop_template_hash 0 podLabels podLabels)) p0))
               else Inr p0) of
           Inl err \<Rightarrow> Inl err
         | Inr p1 \<Rightarrow>
             (let p2 = (if ts_podName c \<noteq> [] then pa_SetPodName (ts_podName c) p1
                        else (case Hostname of Inl _ \<Rightarrow> p1 | Inr hostname \<Rightarrow> pa_SetPodName hostname p1));
                  p3 = (if ts_podUID c \<noteq> [] then pa_SetPodUID (ts_podUID c) p2 else p2)
              in Inr (if ts_namespace c \<noteq> [] then pa_SetNamespace (ts_namespace c) p3 else p3)))"

definition threat_scan_run ::
  "(string \<Rightarrow> go_error + string) \<Rightarrow> go_error + string \<Rightarrow> threatScanCommand \<Rightarrow> go_error + PodAgent \<times> agent_loop list" where
  "threat_scan_run Open Hostname c =
     (case configure_pod Open Hostname c of
        Inl err \<Rightarrow> Inl err
      | Inr p \<Rightarrow> (let p' = pa_SetFileValidationInterval (ts_fileValidationInterval c) p in Inr (p', RunThreatScan p')))"

fun enable_rules :: "string list \<Rightarrow> PodAgent \<Rightarrow> PodAgent" where
  "enable_rules [] p = p"
| "enable_rules (rule # rest) p =
     enable_rules rest
       (if TrimSpace rule = ''files'' then pa_EnableRegisterFiles p
        else if TrimSpace rule = ''all'' then pa_EnableRegisterFiles p else p)"

definition runRegisterCommand ::
  "(string \<Rightarrow> go_error + string) \<Rightarrow> go_error + string \<Rightarrow> registerCommand \<Rightarrow> go_error + PodAgent \<times> agent_loop list" where
  "runRegisterCommand Open Hostname c =
     (case configure_pod Open Hostname c of
        Inl err \<Rightarrow> Inl err
      | Inr p0 \<Rightarrow>
          (let p1 = enable_rules (Split (rc_registerRules c) '','') p0;
               p2 = pa_SetRegisterFilePaths (map TrimSpace (Split (rc_registerFilePaths c) '','')) p1;
               p3 = pa_SetRegisterFileIgnorePaths (map TrimSpace (Split (rc_registerFileIgnorePaths c) '','')) p2;
               p4 = pa_SetFileValidationInterval (ts_fileValidationInterval c) p3
           in Inr (p4, RunRegister p4)))"

section \<open>Reading labels back\<close>

text \<open>The file the downward API writes: one line \<^verbatim>\<open>key="value"\<close> per label.\<close>

definition label_line :: "Label \<Rightarrow> string" where
  "label_line l = l_Key l @ ''='' @ [CHR 0x22] @ l_Value l @ [CHR 0x22]"

definition downward_api_file :: "Label list \<Rightarrow> string" where
  "downward_api_file ls = Join (map label_line ls) newline"

text \<open>Keys and values as Kubernetes allows them, as far as the reader cares.\<close>

definition k8s_label :: "Label \<Rightarrow> bool" where
  "k8s_label l = (CHR ''='' \<notin> set (l_Key l) \<and> CHR 0x0A \<notin> set (l_Key l) \<union> set (l_Value l) \<and>
     CHR 0x22 \<notin> set (l_Value l) \<and> length (label_line l) < 65536)"

lemma Trim_quotes: "CHR 0x22 \<notin> set v \<Longrightarrow> Trim ([CHR 0x22] @ v @ [CHR 0x22]) [CHR 0x22] = v"
proof (rule Trim_surround)
  assume "CHR 0x22 \<notin> set v"
  then have "v \<noteq> [] \<Longrightarrow> hd v \<noteq> CHR 0x22 \<and> last v \<noteq> CHR 0x22" by (metis hd_in_set last_in_set)
  then show "v = [] \<or> hd v \<notin> set [CHR 0x22] \<and> last v \<notin> set [CHR 0x22]" by auto
qed simp_all

lemma labels_loop_lines: "list_all k8s_label ls \<Longrightarrow> labels_loop (map label_line ls) acc = acc @ ls"
proof (induction ls arbitrary: acc)
  case (Cons l ls)
  have eq: "CHR ''='' \<notin> set (l_Key l)" "CHR 0x22 \<notin> set (l_Value l)" using Cons.prems by (simp_all add: k8s_label_def)
  have "Index (label_line l) ''='' = int (length (l_Key l))"
    using Index_char_append[OF eq(1)] by (simp add: label_line_def)
  then show ?case
    using Cons Trim_quotes[OF eq(2)] by (simp add: Let_def label_line_def)
qed simp

lemma scan_label_lines:
  assumes "ls \<noteq> []" "list_all k8s_label ls"
  shows "scan_lines (downward_api_file ls) = map label_line ls"
proof -
  have no_nl: "CHR 0x0A \<notin> set x" if "x \<in> set (map label_line ls)" for x
    using that assms(2) by (auto simp: k8s_label_def label_line_def list_all_iff)
  have split: "Split (downward_api_file ls) newline = map label_line ls"
    unfolding downward_api_file_def newline_def using assms(1) no_nl by (intro Split_Join) auto
  have "last (map label_line ls) \<noteq> []" using assms(1) by (simp add: last_map label_line_def)
  then have raw: "raw_lines (downward_api_file ls) = map label_line ls" by (simp add: raw_lines_def split)
  have "takeWhile (\<lambda>l. length l < 65536) (map label_line ls) = map label_line ls"
    unfolding takeWhile_eq_all_conv using assms(2) by (auto simp: k8s_label_def list_all_iff)
  moreover have "map drop_cr (map label_line ls) = map label_line ls"
    by (auto simp: drop_cr_def label_line_def)
  ultimately show ?thesis unfolding scan_lines_def raw by (simp only:)
qed

lemma drop_template_hash_filter:
  assumes "podLabels = pre @ es" "i = length pre" "distinct (map l_Key es)"
  shows "drop_template_hash i es podLabels = pre @ filter (\<lambda>l. l_Key l \<noteq> ''pod-template-hash'') es"
  using assms
proof (induction es arbitrary: i pre)
  case (Cons e es)
  show ?case
  proof (cases "l_Key e = ''pod-template-hash''")
    case True
    then have "filter (\<lambda>l. l_Key l \<noteq> ''pod-template-hash'') es = es"
      using Cons.prems(3) by (auto simp: filter_id_conv image_iff)
    then show ?thesis using True Cons.prems by simp
  next
    case False
    then show ?thesis using Cons.IH[of "pre @ [e]" "Suc i"] Cons.prems by simp
  qed
qed simp

lemma labels_configured:
  assumes "ts_podLabelsFile c \<noteq> []" and "Open (ts_podLabelsFile c) = Inr (downward_api_file ls)"
    and "ls \<noteq> []" "list_all k8s_label ls" "distinct (map l_Key ls)"
  shows "\<exists>p. configure_pod Open Hostname c = Inr p \<and>
    pa_podLabels p = Some (filter (\<lambda>l. l_Key l \<noteq> ''pod-template-hash'') ls)"
proof -
  have "readLabelsFromFile Open (ts_podLabelsFile c) = Inr ls"
    using assms by (simp add: readLabelsFromFile_def scan_label_lines labels_loop_lines)
  moreover have "drop_template_hash 0 ls ls = filter (\<lambda>l. l_Key l \<noteq> ''pod-template-hash'') ls"
    using drop_template_hash_filter[of ls "[]" ls 0] assms(5) by simp
  ultimately show ?thesis
    using assms(1)
    by (auto simp: configure_pod_def Let_def pa_SetPodLabels_def pa_SetPodName_def pa_SetPodUID_def pa_SetNamespace_def
        split: sum.splits)
qed

text \<open>
  C32: the labels of the pod reach the agent unchanged: when the labels file is what the downward API writes for a
  set of labels, both commands configure the agent with exactly these labels, the hash of the pod template
  left out.
\<close>

theorem labels_file_roundtrip:
  assumes "ts_podLabelsFile c \<noteq> []" and "Open (ts_podLabelsFile c) = Inr (downward_api_file ls)"
    and "ls \<noteq> []" "list_all k8s_label ls" "distinct (map l_Key ls)"
  shows "\<exists>p. configure_pod Open Hostname c = Inr p \<and>
    pa_podLabels p = Some (filter (\<lambda>l. l_Key l \<noteq> ''pod-template-hash'') ls)"
  using labels_configured[of c Open ls Hostname] assms by blast

definition sample_labels :: "Label list" where
  "sample_labels = [\<lparr>l_Key = ''app'', l_Value = ''web''\<rparr>, \<lparr>l_Key = ''pod-template-hash'', l_Value = ''5f''\<rparr>]"

definition sample_scan :: threatScanCommand where
  "sample_scan = \<lparr>ts_host = ''h'', ts_port = ''1'', ts_podLabelsFile = ''/etc/podinfo/labels'', ts_podName = ''web'', ts_podUID = ''u'',
     ts_namespace = ''default'', ts_fileValidationInterval = 3\<rparr>"

theorem labels_file_roundtrip_witness:
  "\<exists>p. configure_pod (\<lambda>_. Inr (downward_api_file sample_labels)) (Inr ''host'') sample_scan = Inr p \<and>
     pa_podLabels p = Some [\<lparr>l_Key = ''app'', l_Value = ''web''\<rparr>]"
  using labels_file_roundtrip[of sample_scan "\<lambda>_. Inr (downward_api_file sample_labels)" sample_labels "Inr ''host''"]
  by (simp add: sample_scan_def sample_labels_def k8s_label_def label_line_def)

section \<open>The paths to register\<close>

lemma register_configures:
  assumes "runRegisterCommand Open Hostname c = Inr (p, loops)"
  shows "pa_registerFilePaths p = map TrimSpace (Split (rc_registerFilePaths c) '','')"
    "pa_registerFileIgnorePaths p = map TrimSpace (Split (rc_registerFileIgnorePaths c) '','')"
    "loops = RunRegister p"
  using assms by (auto simp: runRegisterCommand_def Let_def pa_SetRegisterFilePaths_def
      pa_SetRegisterFileIgnorePaths_def pa_SetFileValidationInterval_def split: sum.splits)

lemma TrimSpace_id: "x = [] \<or> hd x \<notin> set ascii_space \<and> last x \<notin> set ascii_space \<Longrightarrow> TrimSpace x = x"
  unfolding TrimSpace_def by (rule Trim_id)

lemma register_joined_paths:
  assumes "runRegisterCommand Open Hostname c = Inr (p, loops)" "rc_registerFilePaths c = Join paths '',''"
    and "\<And>x. x \<in> set paths \<Longrightarrow> CHR '','' \<notin> set x \<and> x \<noteq> [] \<and> hd x \<notin> set ascii_space \<and> last x \<notin> set ascii_space"
  shows "pa_registerFilePaths p = (if paths = [] then [[]] else paths)"
proof (cases "paths = []")
  case True
  then show ?thesis using register_configures(1)[OF assms(1)] assms(2) by (simp add: Split_no_sep TrimSpace_def Trim_def)
next
  case False
  then have "Split (Join paths '','') '','' = paths" using assms(3) Split_Join[of paths "CHR '',''"] by blast
  moreover have "map TrimSpace paths = paths" using assms(3) by (intro map_idI TrimSpace_id) blast
  ultimately show ?thesis using False register_configures(1)[OF assms(1)] assms(2) by simp
qed

section \<open>The running agent\<close>

text \<open>
  The process with its loops. Files, checksums, patterns and the cluster agent are parameters. A
  round that ends the process (\<^verbatim>\<open>Fatal\<close> or a panic) has the value \<open>None\<close>.
\<close>

record 'w pod_libs =
  pl_sha :: "string \<Rightarrow> string"
  pl_bytes :: "string \<Rightarrow> string"
  pl_Match :: "string \<Rightarrow> string \<Rightarrow> bool"
  pl_WalkDir :: "string \<Rightarrow> (string \<times> bool) list option"
  pl_GetConstraints :: "('w, GetConstraintsRequest, GetConstraintsResponse) rpc"
  pl_IngestEvent :: "('w, IngestEventRequest, IngestEventResponse) rpc"
  pl_rpcs :: "'w agent_rpcs"

fun loop_round :: "'w pod_libs \<Rightarrow> Timestamp \<Rightarrow> agent_loop \<Rightarrow> PodAgent \<times> 'w \<Rightarrow> (PodAgent \<times> 'w) option" where
  "loop_round L now SyncLoop (p, w) = (case pa_SyncConstraints (pl_GetConstraints L) p w of
     (None, w') \<Rightarrow> None
   | (Some p', w') \<Rightarrow> Some (p', w'))"
| "loop_round L now ValidateLoop (p, w) =
     Some (p, validate_round (pl_sha L) (pl_bytes L) (pl_IngestEvent L) now p w)"
| "loop_round L now RegisterLoop (p, w) =
     map_option (\<lambda>w'. (p, w')) (registerFileChecksums (pl_sha L) (pl_bytes L) (pl_Match L) (pl_WalkDir L) (pl_rpcs L) p w)"

record 'w pod_process =
  pp_agent :: PodAgent
  pp_world :: 'w
  pp_loops :: "agent_loop list"
  pp_dead :: bool

inductive pod_step :: "'w pod_libs \<Rightarrow> 'w pod_process \<Rightarrow> 'w pod_process \<Rightarrow> bool" for L where
  round: "l \<in> set (pp_loops s) \<Longrightarrow> \<not> pp_dead s \<Longrightarrow> loop_round L now l (pp_agent s, pp_world s) = Some (p, w) \<Longrightarrow>
    pod_step L s (s\<lparr>pp_agent := p, pp_world := w\<rparr>)"
| fatal: "l \<in> set (pp_loops s) \<Longrightarrow> \<not> pp_dead s \<Longrightarrow> loop_round L now l (pp_agent s, pp_world s) = None \<Longrightarrow>
    pod_step L s (s\<lparr>pp_loops := [], pp_dead := True\<rparr>)"
| loop_ends: "l \<in> set (pp_loops s) \<Longrightarrow> \<not> pp_dead s \<Longrightarrow> pa_cancelled (pp_agent s) \<Longrightarrow>
    pod_step L s (s\<lparr>pp_loops := remove1 l (pp_loops s)\<rparr>)"
| told_to_stop: "\<not> pp_dead s \<Longrightarrow> pod_step L s (s\<lparr>pp_agent := pa_GracefulStop (pp_agent s)\<rparr>)"

text \<open>\<^verbatim>\<open>Dial\<close> comes first and ends the process when the cluster agent cannot be dialled.\<close>

definition pod_start :: "go_error option \<Rightarrow> PodAgent \<times> agent_loop list \<Rightarrow> 'w \<Rightarrow> 'w pod_process" where
  "pod_start dial r w =
     \<lparr>pp_agent = fst r, pp_world = w, pp_loops = (if dial = None then snd r else []), pp_dead = (dial \<noteq> None)\<rparr>"

text \<open>No step starts a loop, and without the registration loop nothing is written to the server.\<close>

lemma loop_round_rpcs: "l \<noteq> RegisterLoop \<Longrightarrow> loop_round (L\<lparr>pl_rpcs := R\<rparr>) now l pw = loop_round L now l pw"
  by (cases l; cases pw) simp_all

lemma pod_step_no_register:
  assumes "pod_step L s s'" and "RegisterLoop \<notin> set (pp_loops s)"
  shows "RegisterLoop \<notin> set (pp_loops s') \<and> pod_step (L\<lparr>pl_rpcs := R\<rparr>) s s'"
  using assms
proof (cases rule: pod_step.cases)
  case (round l now p w)
  then have "l \<noteq> RegisterLoop" using assms(2) by auto
  then show ?thesis using round assms(2) by (auto intro!: pod_step.round simp: loop_round_rpcs)
next
  case (fatal l now)
  then have "l \<noteq> RegisterLoop" using assms(2) by auto
  then show ?thesis using fatal by (auto intro!: pod_step.fatal simp: loop_round_rpcs)
qed (use assms(2) in \<open>auto intro: pod_step.intros dest: notin_set_remove1\<close>)

lemma pod_steps_no_register:
  assumes "(pod_step L)\<^sup>*\<^sup>* s s'" and "RegisterLoop \<notin> set (pp_loops s)"
  shows "(pod_step (L\<lparr>pl_rpcs := R\<rparr>))\<^sup>*\<^sup>* s s' \<and> RegisterLoop \<notin> set (pp_loops s')"
  using assms
  by (induction rule: rtranclp_induct) (auto dest: pod_step_no_register intro: rtranclp.rtrancl_into_rtrancl)

lemma threat_scan_loops: "threat_scan_run Open Hostname c = Inr (p, loops) \<Longrightarrow> RegisterLoop \<notin> set loops"
  by (auto simp: threat_scan_run_def RunThreatScan_def Let_def split: sum.splits)

text \<open>
  C33: an agent that scans for threats never changes the constraints of the server: whatever it does is
  independent of the calls that add and remove constraints, so that every run of it is a run with any
  other implementation of these calls, and it never has the registration loop.
\<close>

theorem threat_scan_read_only:
  assumes "threat_scan_run Open Hostname c = Inr r"
    and "(pod_step L)\<^sup>*\<^sup>* (pod_start dial r w) s"
  shows "(pod_step (L\<lparr>pl_rpcs := R\<rparr>))\<^sup>*\<^sup>* (pod_start dial r w) s \<and> RegisterLoop \<notin> set (pp_loops s)"
proof (rule pod_steps_no_register[OF assms(2)])
  show "RegisterLoop \<notin> set (pp_loops (pod_start dial r w))"
    using assms(1) threat_scan_loops[of Open Hostname c "fst r" "snd r"] by (simp add: pod_start_def)
qed

definition sample_pod_libs :: "nat agent_rpcs \<Rightarrow> nat pod_libs" where
  "sample_pod_libs R = \<lparr>pl_sha = (\<lambda>s. s), pl_bytes = (\<lambda>s. s), pl_Match = (\<lambda>_ _. False), pl_WalkDir = (\<lambda>_. None),
     pl_GetConstraints = (\<lambda>_ w. (Inr \<lparr>gcp_Constraints = None\<rparr>, Suc w)),
     pl_IngestEvent = (\<lambda>_ w. (Inr \<lparr>iep_Success = True\<rparr>, Suc w)), pl_rpcs = R\<rparr>"

definition counting_rpcs :: "nat \<Rightarrow> nat agent_rpcs" where
  "counting_rpcs k = \<lparr>rpc_AddConstraint = (\<lambda>_ w. (Inr \<lparr>acp_Success = True\<rparr>, w + k)),
     rpc_RemoveConstraint = (\<lambda>_ w. (Inr \<lparr>rcp_Success = True\<rparr>, w + k))\<rparr>"

theorem threat_scan_read_only_witness:
  "\<exists>r s. threat_scan_run (\<lambda>_. Inr (downward_api_file sample_labels)) (Inr ''host'') sample_scan = Inr r \<and>
     pp_world s = 1 \<and> (pod_step (sample_pod_libs (counting_rpcs 7)))\<^sup>*\<^sup>* (pod_start None r 0) s"
proof -
  let ?Open = "\<lambda>_. Inr (downward_api_file sample_labels)" and ?L = "sample_pod_libs (counting_rpcs 0)"
  obtain p where "configure_pod ?Open (Inr ''host'') sample_scan = Inr p"
    using labels_configured[of sample_scan ?Open sample_labels "Inr ''host''"]
    by (auto simp: sample_scan_def sample_labels_def k8s_label_def label_line_def)
  then obtain r where r: "threat_scan_run ?Open (Inr ''host'') sample_scan = Inr r" "SyncLoop \<in> set (snd r)"
    by (simp add: threat_scan_run_def RunThreatScan_def Let_def)
  obtain p' where "loop_round ?L 0 SyncLoop (fst r, 0) = Some (p', 1)"
    by (simp add: sample_pod_libs_def pa_SyncConstraints_def)
  then have "pod_step ?L (pod_start None r 0) ((pod_start None r 0)\<lparr>pp_agent := p', pp_world := 1\<rparr>)"
    using r(2) by (intro pod_step.round[of SyncLoop _ _ 0]) (simp_all add: pod_start_def)
  then have "(pod_step ?L)\<^sup>*\<^sup>* (pod_start None r 0) ((pod_start None r 0)\<lparr>pp_agent := p', pp_world := 1\<rparr>)" by (rule r_into_rtranclp)
  from threat_scan_read_only[OF r(1) this, of "counting_rpcs 7"] show ?thesis
    using r(1) by (intro exI[of _ r] exI[of _ "(pod_start None r 0)\<lparr>pp_agent := p', pp_world := 1\<rparr>"]) (simp add: sample_pod_libs_def)
qed

end
