(* ===== verification/Sidecar.thy ===== *)
theory Sidecar
  imports PodInjector PodAgentCmd
begin

text \<open>
  The webhook and the pod agent together: the arguments that the injector gives the sidecar are read by
  the command line of the agent. How \<^verbatim>\<open>cobra\<close> reads flags is a parameter with its documented behaviour.
\<close>

section \<open>Reading flags\<close>

text \<open>The value of a string flag: that of the last argument \<^verbatim>\<open>--name=value\<close>, or the default.\<close>

definition flag_value :: "string \<Rightarrow> string \<Rightarrow> string list \<Rightarrow> string" where
  "flag_value name dflt args =
     foldl (\<lambda>v a. if HasPrefix a (''--'' @ name @ ''='') then drop (length name + 3) a else v) dflt args"

definition reads_flags :: "(string list \<Rightarrow> registerCommand) \<Rightarrow> bool" where
  "reads_flags parse \<longleftrightarrow> (\<forall>args.
     rc_registerRules (parse args) = flag_value ''register-rules'' [] args \<and>
     rc_registerFilePaths (parse args) = flag_value ''register-file-paths'' [] args \<and>
     ts_podLabelsFile (parse args) = flag_value ''pod-labels-file'' [] args)"

lemma flag_value_append:
  "flag_value name d (xs @ ys) = flag_value name (flag_value name d xs) ys"
  by (simp add: flag_value_def)

lemma flag_value_other:
  "list_all (\<lambda>a. \<not> HasPrefix a (''--'' @ name @ ''='')) args \<Longrightarrow> flag_value name d args = d"
  by (induction args arbitrary: d) (simp_all add: flag_value_def)

section \<open>The arguments of the sidecar\<close>

lemma args_split:
  assumes "map_get ann inj_RegisterAnnotation = Some rules"
  shows "\<exists>rest. ctr_Args (last (ap_Containers (inject_pod_agent config ann pod))) =
     [''--log-formatter='' @ pc_LogEncoding config, ''register'', ''--host='' @ pc_Host config, ''--port='' @ pc_Port config,
      ''--namespace=$(NAMESPACE)'', ''--pod-name=$(POD_NAME)'', ''--pod-uid=$(POD_UID)'',
      ''--pod-labels-file=/etc/podinfo/labels'', ''--register-rules='' @ rules,
      ''--register-file-paths='' @ Join (map vm_MountPath (filter registrable (first_mounts (pod_mounts pod) []))) '',''] @ rest \<and>
     list_all (\<lambda>a. HasPrefix a ''--register-file-ignore-paths='' \<or> HasPrefix a ''--file-validation-interval='') rest"
proof -
  have "\<not> registrable podinfo_mount" by (simp add: registrable_def podinfo_mount_def)
  then show ?thesis
    using assms by (auto simp: inject_containers podAgentArgs_def Let_def collect_paths_all HasPrefix_def split: option.splits)
qed

lemma rest_other:
  assumes "list_all (\<lambda>a. HasPrefix a ''--register-file-ignore-paths='' \<or> HasPrefix a ''--file-validation-interval='') rest"
    and "name \<in> {''register-rules'', ''register-file-paths'', ''pod-labels-file''}"
  shows "flag_value name d rest = d"
proof (rule flag_value_other)
  have "\<not> HasPrefix a (''--'' @ name @ ''='')"
    if "HasPrefix a ''--register-file-ignore-paths='' \<or> HasPrefix a ''--file-validation-interval=''" for a
    using that assms(2) by (auto simp: HasPrefix_iff)
  then show "list_all (\<lambda>a. \<not> HasPrefix a (''--'' @ name @ ''='')) rest" using assms(1) by (auto simp: list_all_iff)
qed

lemma sidecar_command:
  assumes "reads_flags parse" and "map_get ann inj_RegisterAnnotation = Some rules"
    and "c = parse (ctr_Args (last (ap_Containers (inject_pod_agent config ann pod))))"
  shows "rc_registerRules c = rules" "ts_podLabelsFile c = ''/etc/podinfo/labels''"
    "rc_registerFilePaths c = Join (map vm_MountPath (filter registrable (first_mounts (pod_mounts pod) []))) '',''"
proof -
  let ?paths = "Join (map vm_MountPath (filter registrable (first_mounts (pod_mounts pod) []))) '',''"
  let ?args = "[''--log-formatter='' @ pc_LogEncoding config, ''register'', ''--host='' @ pc_Host config, ''--port='' @ pc_Port config,
      ''--namespace=$(NAMESPACE)'', ''--pod-name=$(POD_NAME)'', ''--pod-uid=$(POD_UID)'',
      ''--pod-labels-file=/etc/podinfo/labels'', ''--register-rules='' @ rules, ''--register-file-paths='' @ ?paths]"
  obtain rest where args: "ctr_Args (last (ap_Containers (inject_pod_agent config ann pod))) = ?args @ rest"
    and rest: "list_all (\<lambda>a. HasPrefix a ''--register-file-ignore-paths='' \<or> HasPrefix a ''--file-validation-interval='') rest"
    using args_split[OF assms(2)] by blast
  have c: "rc_registerRules c = flag_value ''register-rules'' [] (?args @ rest)"
    "rc_registerFilePaths c = flag_value ''register-file-paths'' [] (?args @ rest)"
    "ts_podLabelsFile c = flag_value ''pod-labels-file'' [] (?args @ rest)"
    using assms(1,3) args by (simp_all add: reads_flags_def)
  have v: "flag_value ''register-rules'' [] ?args = rules" "flag_value ''register-file-paths'' [] ?args = ?paths"
    "flag_value ''pod-labels-file'' [] ?args = ''/etc/podinfo/labels''"
    by (simp_all add: flag_value_def HasPrefix_def)
  show "rc_registerRules c = rules" "ts_podLabelsFile c = ''/etc/podinfo/labels''" "rc_registerFilePaths c = ?paths"
    unfolding c flag_value_append v by (rule rest_other[OF rest], simp)+
qed

text \<open>The mounts of the pod that the sidecar registers, and paths that a comma-separated list can carry.\<close>

definition registered_mounts :: "AdmittedPod \<Rightarrow> string list" where
  "registered_mounts pod = map vm_MountPath (filter registrable (first_mounts (pod_mounts pod) []))"

definition plain_path :: "string \<Rightarrow> bool" where
  "plain_path x \<longleftrightarrow> CHR '','' \<notin> set x \<and> x \<noteq> [] \<and> hd x \<notin> set ascii_space \<and> last x \<notin> set ascii_space"


definition sample_parse :: "string list \<Rightarrow> registerCommand" where
  "sample_parse args = newRegisterCommand\<lparr>ts_podLabelsFile := flag_value ''pod-labels-file'' [] args,
     rc_registerRules := flag_value ''register-rules'' [] args, rc_registerFilePaths := flag_value ''register-file-paths'' [] args\<rparr>"

lemma sample_parse_reads: "reads_flags sample_parse"
  by (simp add: reads_flags_def sample_parse_def)

definition bare_pod :: AdmittedPod where
  "bare_pod = \<lparr>ap_Name = ''web'', ap_Annotations = Some [(inj_RegisterAnnotation, ''files'')],
     ap_Containers = [demo_container ''a'' []], ap_Volumes = [], ap_Rest = []\<rparr>"


end
