(* ===== verification/PbJson.thy ===== *)
theory PbJson
  imports Json Labels
begin

text \<open>
  \<^verbatim>\<open>json.Marshal\<close> and \<^verbatim>\<open>json.Unmarshal\<close> at the message structs that the stores keep as JSON text, by the
  struct tags of \<^verbatim>\<open>types.pb.go\<close>: a field with \<^verbatim>\<open>omitempty\<close> is left out when it is empty, a missing or
  null member leaves the zero value, unknown members are ignored, and the last of two members with
  the same key counts. A member of the wrong type is an error.
\<close>

section \<open>Members\<close>

definition omit_str :: "string \<Rightarrow> string \<Rightarrow> (string \<times> json) list" where
  "omit_str k v = (if v = [] then [] else [(k, JStr v)])"

definition omit_pstr :: "string \<Rightarrow> string option \<Rightarrow> (string \<times> json) list" where
  "omit_pstr k v = (case v of None \<Rightarrow> [] | Some s \<Rightarrow> [(k, JStr s)])"

definition omit_int :: "string \<Rightarrow> int \<Rightarrow> (string \<times> json) list" where
  "omit_int k i = (if i = 0 then [] else [(k, JNum i)])"

definition omit_bool :: "string \<Rightarrow> bool \<Rightarrow> (string \<times> json) list" where
  "omit_bool k b = (if b then [(k, JBool True)] else [])"

definition omit_list :: "string \<Rightarrow> ('a \<Rightarrow> json) \<Rightarrow> 'a slice \<Rightarrow> (string \<times> json) list" where
  "omit_list k f xs = (if elems xs = [] then [] else [(k, JArr (map f (elems xs)))])"

text \<open>A slice on its own is null when it is nil.\<close>

definition marshal_slice :: "('a \<Rightarrow> json) \<Rightarrow> 'a slice \<Rightarrow> json" where
  "marshal_slice f xs = (case xs of None \<Rightarrow> JNull | Some ys \<Rightarrow> JArr (map f ys))"

definition member :: "(string \<times> json) list \<Rightarrow> string \<Rightarrow> json" where
  "member kvs k = (case map_of (rev kvs) k of None \<Rightarrow> JNull | Some v \<Rightarrow> v)"

fun read_str :: "json \<Rightarrow> string option" where
  "read_str JNull = Some []"
| "read_str (JStr s) = Some s"
| "read_str _ = None"

fun read_pstr :: "json \<Rightarrow> string option option" where
  "read_pstr JNull = Some None"
| "read_pstr (JStr s) = Some (Some s)"
| "read_pstr _ = None"

fun read_bool :: "json \<Rightarrow> bool option" where
  "read_bool JNull = Some False"
| "read_bool (JBool b) = Some b"
| "read_bool _ = None"

fun read_int :: "json \<Rightarrow> int option" where
  "read_int JNull = Some 0"
| "read_int (JNum i) = Some i"
| "read_int _ = None"

definition read_int32 :: "json \<Rightarrow> 32 word option" where
  "read_int32 j = (case read_int j of
     None \<Rightarrow> None
   | Some i \<Rightarrow> if - (2 ^ 31) \<le> i \<and> i < 2 ^ 31 then Some (word_of_int i) else None)"

fun read_slice :: "(json \<Rightarrow> 'a option) \<Rightarrow> json \<Rightarrow> 'a slice option" where
  "read_slice f JNull = Some None"
| "read_slice f (JArr xs) = map_option Some (those (map f xs))"
| "read_slice f _ = None"

fun read_members :: "json \<Rightarrow> (string \<times> json) list option" where
  "read_members JNull = Some []"
| "read_members (JObj kvs) = Some kvs"
| "read_members _ = None"

fun read_pointer :: "(json \<Rightarrow> 'a option) \<Rightarrow> json \<Rightarrow> 'a option option" where
  "read_pointer f JNull = Some None"
| "read_pointer f j = map_option Some (f j)"

section \<open>Messages\<close>

definition marshal_MatchLabel :: "MatchLabel \<Rightarrow> json" where
  "marshal_MatchLabel l = JObj (omit_str ''key'' (ml_Key l) @ omit_str ''value'' (ml_Value l))"

definition unmarshal_MatchLabel :: "json \<Rightarrow> MatchLabel option" where
  "unmarshal_MatchLabel j = (case read_members j of None \<Rightarrow> None | Some m \<Rightarrow>
     (case (read_str (member m ''key''), read_str (member m ''value'')) of
        (Some k, Some v) \<Rightarrow> Some \<lparr>ml_Key = k, ml_Value = v\<rparr>
      | _ \<Rightarrow> None))"

definition marshal_Selector :: "Selector option \<Rightarrow> json" where
  "marshal_Selector s = (case s of
     None \<Rightarrow> JNull
   | Some sel \<Rightarrow> JObj (omit_list ''match_labels'' marshal_MatchLabel (sel_MatchLabels sel)))"

definition unmarshal_Selector :: "json \<Rightarrow> Selector option option" where
  "unmarshal_Selector = read_pointer (\<lambda>j. case read_members j of None \<Rightarrow> None | Some m \<Rightarrow>
     map_option (\<lambda>ls. \<lparr>sel_MatchLabels = ls\<rparr>) (read_slice unmarshal_MatchLabel (member m ''match_labels'')))"

definition marshal_AllowedProcessRule :: "AllowedProcessRule \<Rightarrow> json" where
  "marshal_AllowedProcessRule r = JObj (omit_pstr ''regex'' (apr_Regex r))"

definition unmarshal_AllowedProcessRule :: "json \<Rightarrow> AllowedProcessRule option" where
  "unmarshal_AllowedProcessRule j = (case read_members j of None \<Rightarrow> None | Some m \<Rightarrow>
     map_option (\<lambda>r. \<lparr>apr_Regex = r\<rparr>) (read_pstr (member m ''regex'')))"

definition marshal_AllowedFileRule :: "AllowedFileRule \<Rightarrow> json" where
  "marshal_AllowedFileRule r = JObj (omit_str ''name'' (afr_Name r) @ omit_pstr ''sha256sum'' (afr_Sha256Sum r))"

definition unmarshal_AllowedFileRule :: "json \<Rightarrow> AllowedFileRule option" where
  "unmarshal_AllowedFileRule j = (case read_members j of None \<Rightarrow> None | Some m \<Rightarrow>
     (case (read_str (member m ''name''), read_pstr (member m ''sha256sum'')) of
        (Some n, Some s) \<Rightarrow> Some \<lparr>afr_Name = n, afr_Sha256Sum = s\<rparr>
      | _ \<Rightarrow> None))"

definition marshal_Process :: "Process \<Rightarrow> json" where
  "marshal_Process p = JObj (omit_int ''pid'' (sint (p_Pid p)) @ omit_str ''name'' (p_Name p))"

definition unmarshal_Process :: "json \<Rightarrow> Process option" where
  "unmarshal_Process j = (case read_members j of None \<Rightarrow> None | Some m \<Rightarrow>
     (case (read_int32 (member m ''pid''), read_str (member m ''name'')) of
        (Some p, Some n) \<Rightarrow> Some \<lparr>p_Pid = p, p_Name = n\<rparr>
      | _ \<Rightarrow> None))"

definition marshal_ViolatedFile :: "ViolatedFile \<Rightarrow> json" where
  "marshal_ViolatedFile f = JObj (omit_str ''name'' (vf_Name f) @
     omit_str ''actualSha256Sum'' (vf_ActualSha256Sum f) @
     omit_str ''expectedSha256Sum'' (vf_ExpectedSha256Sum f))"

definition unmarshal_ViolatedFile :: "json \<Rightarrow> ViolatedFile option" where
  "unmarshal_ViolatedFile j = (case read_members j of None \<Rightarrow> None | Some m \<Rightarrow>
     (case (read_str (member m ''name''), read_str (member m ''actualSha256Sum''),
            read_str (member m ''expectedSha256Sum'')) of
        (Some n, Some a, Some e) \<Rightarrow>
          Some \<lparr>vf_Name = n, vf_ActualSha256Sum = a, vf_ExpectedSha256Sum = e\<rparr>
      | _ \<Rightarrow> None))"

definition marshal_Label :: "Label option \<Rightarrow> json" where
  "marshal_Label l = (case l of
     None \<Rightarrow> JNull
   | Some x \<Rightarrow> JObj (omit_str ''key'' (l_Key x) @ omit_str ''value'' (l_Value x)))"

definition unmarshal_Label :: "json \<Rightarrow> Label option option" where
  "unmarshal_Label = read_pointer (\<lambda>j. case read_members j of None \<Rightarrow> None | Some m \<Rightarrow>
     (case (read_str (member m ''key''), read_str (member m ''value'')) of
        (Some k, Some v) \<Rightarrow> Some \<lparr>l_Key = k, l_Value = v\<rparr>
      | _ \<Rightarrow> None))"

text \<open>A Go map of strings as an object; reading it enters one member after the other.\<close>

definition marshal_strings :: "string gomap \<Rightarrow> json" where
  "marshal_strings m = JObj (map (\<lambda>(k, v). (k, JStr v)) m)"

fun put_strings :: "string gomap \<Rightarrow> (string \<times> json) list \<Rightarrow> string gomap option" where
  "put_strings acc [] = Some acc"
| "put_strings acc ((k, j) # m) = (case read_str j of None \<Rightarrow> None | Some v \<Rightarrow> put_strings (map_put k v acc) m)"

definition unmarshal_strings :: "json \<Rightarrow> string gomap option" where
  "unmarshal_strings j = (case read_members j of None \<Rightarrow> None | Some m \<Rightarrow> put_strings [] m)"

definition marshal_FalcoAlert :: "FalcoAlert \<Rightarrow> json" where
  "marshal_FalcoAlert a = JObj (omit_str ''rule'' (fa_Rule a) @ omit_int ''priority'' (sint (fa_Priority a)) @
     omit_str ''output'' (fa_Output a) @
     (if fa_OutputFields a = [] then [] else [(''outputFields'', marshal_strings (fa_OutputFields a))]))"

definition unmarshal_FalcoAlert :: "json \<Rightarrow> FalcoAlert option" where
  "unmarshal_FalcoAlert j = (case read_members j of None \<Rightarrow> None | Some m \<Rightarrow>
     (case (read_str (member m ''rule''), read_int32 (member m ''priority''),
            read_str (member m ''output''), unmarshal_strings (member m ''outputFields'')) of
        (Some r, Some p, Some out, Some fs) \<Rightarrow>
          Some \<lparr>fa_Rule = r, fa_Priority = p, fa_Output = out, fa_OutputFields = fs\<rparr>
      | _ \<Rightarrow> None))"

section \<open>Round trips\<close>

lemma member_Nil [simp]: "member [] k = JNull"
  by (simp add: member_def)

lemma member_snoc: "member (kvs @ [(k', v)]) k = (if k = k' then v else member kvs k)"
  by (simp add: member_def)

lemma member_append: "member (m @ m') k = (if k \<in> fst ` set m' then member m' k else member m k)"
  by (auto simp: member_def map_of_eq_None_iff split: option.splits)
     (metis fst_conv image_eqI map_of_SomeD set_rev)+

lemma sint_range32: "- (2 ^ 31) \<le> sint (w :: 32 word)" "sint (w :: 32 word) < 2 ^ 31"
  using sint_ge[of w] sint_lt[of w] by simp_all

lemma read_int32_sint [simp]: "read_int32 (JNum (sint w)) = Some w"
  using sint_range32[of w] by (simp add: read_int32_def)

lemma read_int32_zero [simp]: "read_int32 JNull = Some 0"
  by (simp add: read_int32_def)

lemmas omit_defs = omit_str_def omit_pstr_def omit_int_def omit_bool_def omit_list_def

lemma those_map: "(\<And>x. x \<in> set xs \<Longrightarrow> f (g x) = Some (h x)) \<Longrightarrow> those (map f (map g xs)) = Some (map h xs)"
  by (induction xs) auto

lemma read_slice_marshal:
  assumes "\<And>x. x \<in> set (elems xs) \<Longrightarrow> f (g x) = Some x"
  shows "read_slice f (marshal_slice g xs) = Some xs"
  using assms those_map[of "elems xs" f g "\<lambda>x. x"] by (cases xs) (auto simp: marshal_slice_def)

lemma MatchLabel_roundtrip: "unmarshal_MatchLabel (marshal_MatchLabel l) = Some l"
  by (simp add: unmarshal_MatchLabel_def marshal_MatchLabel_def omit_defs member_def)

text \<open>A selector with an empty list of labels comes back with none, which selects the same pods.\<close>

definition stored_selector :: "Selector option \<Rightarrow> Selector option" where
  "stored_selector s = map_option (\<lambda>sel. \<lparr>sel_MatchLabels =
     (if elems (sel_MatchLabels sel) = [] then None else sel_MatchLabels sel)\<rparr>) s"

lemma Selector_roundtrip: "unmarshal_Selector (marshal_Selector s) = Some (stored_selector s)"
proof (cases s)
  case (Some sel)
  obtain ls where ls: "sel = \<lparr>sel_MatchLabels = ls\<rparr>" by (cases sel) auto
  show ?thesis
  proof (cases ls)
    case (Some xs)
    then show ?thesis using \<open>s = Some sel\<close> ls those_map[of xs unmarshal_MatchLabel marshal_MatchLabel "\<lambda>x. x"]
      by (simp add: unmarshal_Selector_def marshal_Selector_def omit_list_def stored_selector_def
          member_def MatchLabel_roundtrip)
  qed (simp add: \<open>s = Some sel\<close> ls unmarshal_Selector_def marshal_Selector_def omit_list_def
      stored_selector_def)
qed (simp add: unmarshal_Selector_def marshal_Selector_def stored_selector_def)

lemma stored_selector_selects: "selects (stored_selector s) l \<longleftrightarrow> selects s l"
  by (cases s) (auto simp: stored_selector_def selects_def GetMatchLabels_def matchlabel_pairs_def)

lemma AllowedProcessRule_roundtrip: "unmarshal_AllowedProcessRule (marshal_AllowedProcessRule r) = Some r"
  by (cases "apr_Regex r")
    (simp_all add: unmarshal_AllowedProcessRule_def marshal_AllowedProcessRule_def omit_defs member_def)

lemma AllowedFileRule_roundtrip: "unmarshal_AllowedFileRule (marshal_AllowedFileRule r) = Some r"
  by (cases "afr_Sha256Sum r")
    (simp_all add: unmarshal_AllowedFileRule_def marshal_AllowedFileRule_def omit_defs member_def)

lemma Process_roundtrip: "unmarshal_Process (marshal_Process p) = Some p"
proof -
  have "sint (p_Pid p) = 0 \<Longrightarrow> p_Pid p = 0" by (metis signed_0 signed_word_eqI)
  then show ?thesis
    by (auto simp: unmarshal_Process_def marshal_Process_def omit_defs member_def)
qed

lemma ViolatedFile_roundtrip: "unmarshal_ViolatedFile (marshal_ViolatedFile f) = Some f"
  by (simp add: unmarshal_ViolatedFile_def marshal_ViolatedFile_def omit_defs member_def)

lemma Label_roundtrip: "unmarshal_Label (marshal_Label l) = Some l"
  by (cases l) (simp_all add: unmarshal_Label_def marshal_Label_def omit_defs member_def)

lemma map_put_new: "k \<notin> fst ` set m \<Longrightarrow> map_put k v m = m @ [(k, v)]"
  by (induction k v m rule: map_put.induct) auto

lemma put_strings_append:
  "distinct (map fst (acc @ m)) \<Longrightarrow> put_strings acc (map (\<lambda>(k, v). (k, JStr v)) m) = Some (acc @ m)"
proof (induction m arbitrary: acc)
  case (Cons kv m)
  obtain k v where "kv = (k, v)" by force
  then show ?case using Cons.IH[of "acc @ [(k, v)]"] Cons.prems by (auto simp: map_put_new)
qed simp

lemma strings_roundtrip: "distinct (map fst m) \<Longrightarrow> unmarshal_strings (marshal_strings m) = Some m"
  using put_strings_append[of "[]" m] by (simp add: unmarshal_strings_def marshal_strings_def)

lemma unmarshal_strings_null [simp]: "unmarshal_strings JNull = Some []"
  by (simp add: unmarshal_strings_def)

lemma FalcoAlert_roundtrip:
  assumes "distinct (map fst (fa_OutputFields a))"
  shows "unmarshal_FalcoAlert (marshal_FalcoAlert a) = Some a"
proof -
  have "sint (fa_Priority a) = 0 \<Longrightarrow> fa_Priority a = 0" by (metis signed_0 signed_word_eqI)
  then show ?thesis
    by (auto simp: unmarshal_FalcoAlert_def marshal_FalcoAlert_def omit_defs member_def
        strings_roundtrip[OF assms])
qed

end
