(* ===== verification/Store.thy ===== *)
theory Store
  imports Tarianpb "HOL-Library.Multiset"
begin

text \<open>
  The store interfaces of \<^verbatim>\<open>pkg/store\<close>. \<^verbatim>\<open>ConstraintStore\<close> and \<^verbatim>\<open>ActionStore\<close> have the same operations
  at two types, so they are one record of operations here, and their contract is one locale. The
  state \<open>'s\<close> is the database behind the store; reading may change it (a failing connection may come
  back), but not what it holds.
\<close>

record ('s, 'a) config_store =
  cs_GetAll :: "('s, 'a slice \<times> go_error option) io"
  cs_FindByNamespace :: "string \<Rightarrow> ('s, 'a slice \<times> go_error option) io"
  cs_NamespaceAndNameExist :: "string \<Rightarrow> string \<Rightarrow> ('s, bool \<times> go_error option) io"
  cs_Add :: "'a \<Rightarrow> ('s, go_error option) io"
  cs_RemoveByNamespaceAndName :: "string \<Rightarrow> string \<Rightarrow> ('s, go_error option) io"

record 's event_store =
  es_GetAll :: "64 word \<Rightarrow> ('s, Event slice \<times> go_error option) io"
  es_FindByNamespace :: "string \<Rightarrow> 64 word \<Rightarrow> ('s, Event slice \<times> go_error option) io"
  es_FindWhereAlertNotSent :: "('s, Event slice \<times> go_error option) io"
  es_Add :: "Event \<Rightarrow> ('s, go_error option) io"
  es_UpdateAlertSent :: "string \<Rightarrow> ('s, go_error option) io"

text \<open>
  The contract of a store of namespaced, named items. \<open>held\<close> is the multiset of items in the
  database, \<open>stored\<close> the form in which an item is read back, \<open>nsname\<close> its namespace and name. An
  operation that returns no error did what it says. A change that returns an error may have happened
  all the same: the error may be a timeout of a transaction that was committed.
\<close>

locale named_store =
  fixes st :: "('s, 'a) config_store"
    and held :: "'s \<Rightarrow> 'a multiset"
    and stored :: "'a \<Rightarrow> 'a"
    and nsname :: "'a \<Rightarrow> string \<times> string"
  assumes nsname_stored: "nsname (stored x) = nsname x"
    and GetAll_ok: "cs_GetAll st s = ((xs, None), s') \<Longrightarrow> mset (elems xs) = held s"
    and GetAll_held: "held (snd (cs_GetAll st s)) = held s"
    and Find_ok: "cs_FindByNamespace st ns s = ((xs, None), s') \<Longrightarrow> ns \<noteq> [] \<Longrightarrow>
        mset (elems xs) = filter_mset (\<lambda>x. fst (nsname x) = ns) (held s)"
    and Find_held: "held (snd (cs_FindByNamespace st ns s)) = held s"
    and Exist_ok: "cs_NamespaceAndNameExist st ns nm s = ((b, None), s') \<Longrightarrow> ns \<noteq> [] \<Longrightarrow> nm \<noteq> [] \<Longrightarrow>
        b \<longleftrightarrow> (\<exists>x\<in>#held s. nsname x = (ns, nm))"
    and Exist_held: "held (snd (cs_NamespaceAndNameExist st ns nm s)) = held s"
    and Add_cases: "cs_Add st x s = (r, s') \<Longrightarrow> fst (nsname x) \<noteq> [] \<Longrightarrow> snd (nsname x) \<noteq> [] \<Longrightarrow>
        held s' = add_mset (stored x) (held s) \<or> r \<noteq> None \<and> held s' = held s"
    and Remove_cases: "cs_RemoveByNamespaceAndName st ns nm s = (r, s') \<Longrightarrow> ns \<noteq> [] \<Longrightarrow> nm \<noteq> [] \<Longrightarrow>
        (\<exists>x\<in>#held s. nsname x = (ns, nm) \<and> held s' = held s - {#x#}) \<or>
        held s' = held s \<and> (r = None \<longrightarrow> (\<forall>x\<in>#held s. nsname x \<noteq> (ns, nm)))"
begin

text \<open>The invariant the servers want: no two items have the same namespace and name.\<close>

definition unique :: "'s \<Rightarrow> bool" where
  "unique s \<longleftrightarrow> (\<forall>k. size (filter_mset (\<lambda>x. nsname x = k) (held s)) \<le> 1)"

definition present :: "string \<times> string \<Rightarrow> 's \<Rightarrow> bool" where
  "present k s \<longleftrightarrow> (\<exists>x\<in>#held s. nsname x = k)"

lemma not_present_filter: "\<not> present k s \<Longrightarrow> filter_mset (\<lambda>x. nsname x = k) (held s) = {#}"
  by (auto simp: present_def filter_mset_eq_mempty_iff)

lemma unique_add:
  assumes "unique s" "\<not> present (nsname x) s" "held s' = add_mset (stored x) (held s)"
  shows "unique s'"
  using assms not_present_filter[OF assms(2)] by (auto simp: unique_def nsname_stored)

lemma unique_subset:
  assumes "unique s" "held s' \<subseteq># held s"
  shows "unique s'"
  unfolding unique_def
proof
  fix k
  have "size (filter_mset (\<lambda>x. nsname x = k) (held s')) \<le> size (filter_mset (\<lambda>x. nsname x = k) (held s))"
    using assms(2) by (intro size_mset_mono multiset_filter_mono)
  also have "\<dots> \<le> 1" using assms(1) unfolding unique_def by (rule spec)
  finally show "size (filter_mset (\<lambda>x. nsname x = k) (held s')) \<le> 1" .
qed

lemma unique_remove: "unique s \<Longrightarrow> held s' = held s - {#x#} \<Longrightarrow> unique s'"
  by (rule unique_subset, assumption) (simp only: diff_subset_eq_self)

lemma remove_not_present:
  assumes "unique s" "x \<in># held s" "nsname x = k" "held s' = held s - {#x#}"
  shows "\<not> present k s'"
proof
  assume "present k s'"
  then obtain y where y: "y \<in># held s - {#x#}" and ky: "nsname y = k"
    by (auto simp: present_def assms(4))
  have "{#x, y#} \<subseteq># held s" using assms(2) y
    by (metis add_mset_add_single insert_DiffM insert_subset_eq_iff mset_subset_eq_single)
  then have "filter_mset (\<lambda>x. nsname x = k) {#x, y#} \<subseteq># filter_mset (\<lambda>x. nsname x = k) (held s)"
    by (rule multiset_filter_mono)
  then have "size (filter_mset (\<lambda>x. nsname x = k) {#x, y#}) \<le> size (filter_mset (\<lambda>x. nsname x = k) (held s))"
    by (rule size_mset_mono)
  moreover have "size (filter_mset (\<lambda>x. nsname x = k) (held s)) \<le> 1"
    using assms(1) unfolding unique_def by (rule spec)
  ultimately show False using assms(3) ky by simp
qed

lemma GetAll_heldD: "cs_GetAll st s = (r, s') \<Longrightarrow> held s' = held s"
  using GetAll_held[of s] by simp

lemma Find_heldD: "cs_FindByNamespace st ns s = (r, s') \<Longrightarrow> held s' = held s"
  using Find_held[of ns s] by simp

lemma Exist_heldD: "cs_NamespaceAndNameExist st ns nm s = (r, s') \<Longrightarrow> held s' = held s"
  using Exist_held[of ns nm s] by simp

lemmas heldD = GetAll_heldD Find_heldD Exist_heldD

lemma unique_cong: "held s' = held s \<Longrightarrow> unique s' = unique s"
  by (simp add: unique_def)

lemma present_cong: "held s' = held s \<Longrightarrow> present k s' = present k s"
  by (simp add: present_def)

text \<open>The check and the change that the handlers of the config server put together.\<close>

lemma unique_checked_add:
  assumes "cs_NamespaceAndNameExist st ns nm s = ((False, None), s1)" "cs_Add st x s1 = (r, s2)"
    "nsname x = (ns, nm)" "ns \<noteq> []" "nm \<noteq> []" "unique s"
  shows "unique s2"
proof -
  have np: "\<not> present (nsname x) s1"
    using Exist_ok[OF assms(1)] Exist_heldD[OF assms(1)] assms by (simp add: present_def)
  have "unique s1" using assms(6) unique_cong[OF Exist_heldD[OF assms(1)]] by simp
  moreover have "held s2 = add_mset (stored x) (held s1) \<or> held s2 = held s1"
    using Add_cases[OF assms(2)] assms by auto
  ultimately show ?thesis using unique_add[OF _ np] unique_cong by blast
qed

lemma unique_any_remove:
  assumes "cs_RemoveByNamespaceAndName st ns nm s = (r, s')" "ns \<noteq> []" "nm \<noteq> []" "unique s"
  shows "unique s'"
  using Remove_cases[OF assms(1-3)]
proof
  assume "\<exists>x\<in>#held s. nsname x = (ns, nm) \<and> held s' = held s - {#x#}"
  then show ?thesis using unique_remove[OF assms(4)] by blast
next
  assume "held s' = held s \<and> (r = None \<longrightarrow> (\<forall>x\<in>#held s. nsname x \<noteq> (ns, nm)))"
  then show ?thesis using unique_cong[of s' s] assms(4) by simp
qed

lemma remove_absent:
  assumes "cs_RemoveByNamespaceAndName st ns nm s = (None, s')" "ns \<noteq> []" "nm \<noteq> []" "unique s"
  shows "\<not> present (ns, nm) s'"
  using Remove_cases[OF assms(1-3)]
proof
  assume "\<exists>x\<in>#held s. nsname x = (ns, nm) \<and> held s' = held s - {#x#}"
  then show ?thesis using remove_not_present[OF assms(4)] by blast
next
  assume "held s' = held s \<and> (None = None \<longrightarrow> (\<forall>x\<in>#held s. nsname x \<noteq> (ns, nm)))"
  then show ?thesis by (simp add: present_def)
qed

end

end
