(* ===== verification/Dgraph.thy ===== *)
theory Dgraph
  imports PbJson Store
begin

text \<open>
  The graph database as the stores of \<^verbatim>\<open>pkg/server/dgraphstore\<close> use it: the queries they send, the
  client they send them through (the library \<^verbatim>\<open>dgo\<close>, a record of operations that the stores take as an
  argument), the schema of \<^verbatim>\<open>schema.go\<close>, and the laws of queries and mutations as the locale
  \<open>dgraph_db\<close>. A client in memory interprets the locale.
\<close>

section \<open>Queries and the client\<close>

datatype dql_filter =
    FTrue
  | FEq string string
  | FHas string
  | FNot dql_filter
  | FAnd dql_filter dql_filter

datatype dql_field = Fld string | Sub string "dql_field list"

text \<open>\<^verbatim>\<open>block(func: type(T), first: n) @filter(f) { fields }\<close>\<close>

record dql =
  q_block :: string
  q_type :: string
  q_first :: "nat option"
  q_filter :: dql_filter
  q_fields :: "dql_field list"

text \<open>An upsert: the query binds a variable to the nodes whose predicate has a value.\<close>

record upsert =
  u_pred :: string
  u_value :: string
  u_returns :: bool
  u_SetJson :: string

record do_response =
  r_Uids :: "string gomap"
  r_Json :: string

record 's dgraph =
  dg_Query :: "dql \<Rightarrow> ('s, go_error + string) io"
  dg_SetJson :: "string \<Rightarrow> ('s, go_error option) io"
  dg_DeleteJson :: "string \<Rightarrow> ('s, go_error option) io"
  dg_Do :: "upsert \<Rightarrow> ('s, do_response option \<times> go_error option) io"
  dg_Alter :: "(string \<times> string) list \<Rightarrow> ('s, go_error option) io"

section \<open>schema.go\<close>

definition schema :: "(string \<times> string) list" where
  "schema =
     [(''constraint_namespace'', ''string''), (''constraint_name'', ''string''),
      (''constraint_selector'', ''string''), (''constraint_allowed_processes'', ''string''),
      (''constraint_allowed_files'', ''string''),
      (''action_namespace'', ''string''), (''action_name'', ''string''),
      (''action_selector'', ''string''), (''action_on_violated_process'', ''bool''),
      (''action_on_violated_file'', ''bool''), (''action_on_falco_alert'', ''bool''),
      (''action_falco_alert_priority'', ''int''), (''action_action'', ''string''),
      (''pod_name'', ''string''), (''pod_namespace'', ''string''), (''pod_uid'', ''string''),
      (''pod_labels'', ''string''), (''pod'', ''uid''),
      (''event_uid'', ''string''), (''event_type'', ''string''),
      (''event_client_timestamp'', ''dateTime''), (''event_server_timestamp'', ''dateTime''),
      (''event_alert_sent_at'', ''dateTime''), (''targets'', ''[uid]''),
      (''target_violated_processes'', ''string''), (''target_violated_files'', ''string''),
      (''target_falco_alert'', ''string''), (''target_detection_data_type'', ''string''),
      (''target_detection_data'', ''string'')]"

definition ApplySchema :: "'s dgraph \<Rightarrow> ('s, go_error option) io" where
  "ApplySchema D = dg_Alter D schema"

section \<open>What a database holds and answers\<close>

type_synonym node = "string \<times> (string \<times> json) list"

definition has_type :: "string \<Rightarrow> node \<Rightarrow> bool" where
  "has_type t n = (case map_of (snd n) ''dgraph.type'' of Some (JArr ts) \<Rightarrow> JStr t \<in> set ts | _ \<Rightarrow> False)"

fun filter_holds :: "dql_filter \<Rightarrow> node \<Rightarrow> bool" where
  "filter_holds FTrue n = True"
| "filter_holds (FEq p v) n = (map_of (snd n) p = Some (JStr v))"
| "filter_holds (FHas p) n = (map_of (snd n) p \<noteq> None)"
| "filter_holds (FNot f) n = (\<not> filter_holds f n)"
| "filter_holds (FAnd f g) n = (filter_holds f n \<and> filter_holds g n)"

definition field_value :: "node \<Rightarrow> string \<Rightarrow> json option" where
  "field_value n f = (if f = ''uid'' then Some (JStr (fst n)) else map_of (snd n) f)"

fun project_field :: "node \<Rightarrow> dql_field \<Rightarrow> (string \<times> json) list" where
  "project_field n (Fld f) = (case field_value n f of None \<Rightarrow> [] | Some v \<Rightarrow> [(f, v)])"
| "project_field n (Sub f fs) = []"

definition project :: "dql_field list \<Rightarrow> node \<Rightarrow> (string \<times> json) list" where
  "project fs n = concat (map (project_field n) fs)"

definition matching :: "dql \<Rightarrow> node list \<Rightarrow> node list" where
  "matching q g = (let ms = filter (\<lambda>n. has_type (q_type q) n \<and> filter_holds (q_filter q) n) g in
     case q_first q of None \<Rightarrow> ms | Some k \<Rightarrow> take k ms)"

definition flat_query :: "dql \<Rightarrow> bool" where
  "flat_query q = list_all (\<lambda>f. case f of Fld _ \<Rightarrow> True | Sub _ _ \<Rightarrow> False) (q_fields q)"

definition query_answer :: "dql \<Rightarrow> node list \<Rightarrow> json" where
  "query_answer q g = JObj [(q_block q, JArr (map (\<lambda>n. JObj (project (q_fields q) n)) (matching q g)))]"

text \<open>The values the schema admits for a predicate, and the uids the server assigns.\<close>

fun scalar_ok :: "string \<Rightarrow> json \<Rightarrow> bool" where
  "scalar_ok ty (JStr _) = (ty \<notin> {''bool'', ''int''})"
| "scalar_ok ty (JBool _) = (ty \<notin> {''string'', ''int''})"
| "scalar_ok ty (JNum i) = (ty \<notin> {''string'', ''bool''} \<and> - (2 ^ 63) \<le> i \<and> i < 2 ^ 63)"
| "scalar_ok ty _ = (ty \<notin> {''string'', ''bool'', ''int''})"

fun is_string_list :: "json \<Rightarrow> bool" where
  "is_string_list (JArr xs) = list_all (\<lambda>x. case x of JStr _ \<Rightarrow> True | _ \<Rightarrow> False) xs"
| "is_string_list _ = False"

definition node_typed :: "(string \<times> json) list \<Rightarrow> bool" where
  "node_typed a = list_all (\<lambda>(p, v). if p = ''dgraph.type'' then is_string_list v
     else case map_of schema p of None \<Rightarrow> True | Some ty \<Rightarrow> scalar_ok ty v) a"

definition plain_uid :: "string \<Rightarrow> bool" where
  "plain_uid u \<longleftrightarrow> u \<noteq> [] \<and> list_all (\<lambda>c. json_escape c = [c]) u"

fun flat_value :: "json \<Rightarrow> bool" where
  "flat_value (JArr xs) = list_all (\<lambda>x. case x of JStr _ \<Rightarrow> True | _ \<Rightarrow> False) xs"
| "flat_value (JObj _) = False"
| "flat_value JNull = False"
| "flat_value _ = True"

text \<open>
  The laws. A query answers from the nodes of its type that pass the filter and changes nothing. A
  mutation that sets an object under a blank node makes one new node with an unused uid, or fails;
  one that deletes a uid removes that node; a failed mutation was committed or it was not.
\<close>

locale dgraph_db =
  fixes D :: "'s dgraph" and graph :: "'s \<Rightarrow> node list"
  assumes query_ok: "dg_Query D q s = (Inr txt, s') \<Longrightarrow> flat_query q \<Longrightarrow>
        json_parse txt = Some (query_answer q (graph s))"
    and query_keeps: "graph (snd (dg_Query D q s)) = graph s"
    and set_cases: "dg_SetJson D txt s = (r, s') \<Longrightarrow>
        json_parse txt = Some (JObj ((''uid'', JStr (''_:'' @ x)) # kvs)) \<Longrightarrow>
        list_all (\<lambda>(k, v). flat_value v) kvs \<Longrightarrow>
        r \<noteq> None \<and> graph s' = graph s \<or>
        (\<exists>u. plain_uid u \<and> u \<notin> fst ` set (graph s) \<and> mset (graph s') = add_mset (u, kvs) (mset (graph s)))"
    and delete_cases: "dg_DeleteJson D txt s = (r, s') \<Longrightarrow>
        json_parse txt = Some (JObj [(''uid'', JStr u)]) \<Longrightarrow>
        r \<noteq> None \<and> graph s' = graph s \<or> graph s' = filter (\<lambda>n. fst n \<noteq> u) (graph s)"
    and uids_distinct: "distinct (map fst (graph s))"
    and uids_plain: "n \<in> set (graph s) \<Longrightarrow> plain_uid (fst n)"
    and nodes_typed: "n \<in> set (graph s) \<Longrightarrow> node_typed (snd n)"
begin

lemma query_keepsD: "dg_Query D q s = (r, s') \<Longrightarrow> graph s' = graph s"
  using query_keeps[of q s] by simp

end

section \<open>Reading the answers\<close>

text \<open>\<^verbatim>\<open>json.Unmarshal(resp.GetJson(), &result)\<close> for a struct with one list of nodes.\<close>

definition unmarshal_list :: "string \<Rightarrow> (json \<Rightarrow> 'a option) \<Rightarrow> string \<Rightarrow> 'a list option" where
  "unmarshal_list block f txt = (case json_parse txt of
     None \<Rightarrow> None
   | Some j \<Rightarrow> (case read_members j of
       None \<Rightarrow> None
     | Some m \<Rightarrow> map_option elems (read_slice f (member m block))))"

definition unmarshal_error :: go_error where
  "unmarshal_error = ExtError ''json: cannot unmarshal''"

text \<open>\<^verbatim>\<open>tx.Query\<close> or \<^verbatim>\<open>tx.QueryWithVars\<close>, and the decoding behind it.\<close>

definition query_list :: "'s dgraph \<Rightarrow> (json \<Rightarrow> 'a option) \<Rightarrow> dql \<Rightarrow> ('s, go_error + 'a list) io" where
  "query_list D f q s = (case dg_Query D q s of
     (Inl err, s') \<Rightarrow> (Inl err, s')
   | (Inr txt, s') \<Rightarrow> (case unmarshal_list (q_block q) f txt of
       None \<Rightarrow> (Inl unmarshal_error, s')
     | Some xs \<Rightarrow> (Inr xs, s')))"

lemma member_single [simp]: "member [(k, v)] k = v"
  by (simp add: member_def)

lemma unmarshal_answer:
  assumes "json_parse txt = Some (query_answer q g)"
  shows "unmarshal_list (q_block q) f txt =
    those (map (\<lambda>n. f (JObj (project (q_fields q) n))) (matching q g))"
proof -
  have "map_option elems (map_option Some x) = x" for x :: "'a list option"
    by (cases x) auto
  then show ?thesis by (simp add: unmarshal_list_def assms query_answer_def comp_def)
qed

lemma those_SomeD: "those (map f xs) = Some ys \<Longrightarrow> ys = map (\<lambda>x. the (f x)) xs"
  by (induction xs arbitrary: ys) (auto split: option.splits)

lemma project_field_keys: "f \<in> fst ` set (project_field n x) \<longleftrightarrow> x = Fld f \<and> field_value n f \<noteq> None"
  by (cases x; cases "field_value n f") (auto split: option.splits)

lemma project_keys: "f \<in> fst ` set (project fs n) \<longleftrightarrow> Fld f \<in> set fs \<and> field_value n f \<noteq> None"
proof (induction fs)
  case (Cons x fs)
  have "f \<in> fst ` set (project (x # fs) n) \<longleftrightarrow>
      f \<in> fst ` set (project_field n x) \<or> f \<in> fst ` set (project fs n)"
    unfolding project_def by auto
  then show ?case unfolding project_field_keys Cons.IH by auto
qed (simp add: project_def)

lemma member_absent: "f \<notin> fst ` set m \<Longrightarrow> member m f = JNull"
  using map_of_eq_None_iff[of "rev m" f] by (auto simp: member_def)

text \<open>A field that the query asks for is read as the node has it.\<close>

lemma member_project:
  "Fld f \<in> set fs \<Longrightarrow>
     member (project fs n) f = (case field_value n f of None \<Rightarrow> JNull | Some v \<Rightarrow> v)"
proof (induction fs)
  case (Cons x fs)
  show ?case
  proof (cases "field_value n f")
    case None
    then show ?thesis using member_absent[of f "project (x # fs) n"] project_keys[of f "x # fs" n] by simp
  next
    case (Some v)
    have "member (project (x # fs) n) f =
        (if f \<in> fst ` set (project fs n) then member (project fs n) f else member (project_field n x) f)"
      unfolding project_def by (simp add: member_append)
    then show ?thesis using Cons project_keys[of f fs n] Some by auto
  qed
qed simp

text \<open>On a typed node, the readers never fail.\<close>

definition attr_str :: "node \<Rightarrow> string \<Rightarrow> string" where
  "attr_str n f = (case field_value n f of Some (JStr s) \<Rightarrow> s | _ \<Rightarrow> [])"

definition attr_bool :: "node \<Rightarrow> string \<Rightarrow> bool" where
  "attr_bool n f = (case field_value n f of Some (JBool b) \<Rightarrow> b | _ \<Rightarrow> False)"

definition attr_int :: "node \<Rightarrow> string \<Rightarrow> int" where
  "attr_int n f = (case field_value n f of Some (JNum i) \<Rightarrow> i | _ \<Rightarrow> 0)"

lemma typed_value:
  assumes "node_typed (snd n)" "map_of (snd n) f = Some v" "map_of schema f = Some ty"
  shows "scalar_ok ty v"
proof -
  have "f \<noteq> ''dgraph.type''" using assms(3) by (auto simp: schema_def)
  then show ?thesis using assms map_of_SomeD[OF assms(2)]
    by (force simp: node_typed_def list_all_iff split: option.splits)
qed

lemma read_str_project:
  assumes "node_typed (snd n)" "Fld f \<in> set fs" "map_of schema f = Some ''string''"
  shows "read_str (member (project fs n) f) = Some (attr_str n f)"
proof -
  have "f \<noteq> ''uid''" using assms(3) by (auto simp: schema_def)
  then show ?thesis using typed_value[OF assms(1) _ assms(3)]
    by (cases "map_of (snd n) f"; cases "the (map_of (snd n) f)")
      (auto simp: member_project[OF assms(2)] attr_str_def field_value_def)
qed

lemma read_bool_project:
  assumes "node_typed (snd n)" "Fld f \<in> set fs" "map_of schema f = Some ''bool''"
  shows "read_bool (member (project fs n) f) = Some (attr_bool n f)"
proof -
  have "f \<noteq> ''uid''" using assms(3) by (auto simp: schema_def)
  then show ?thesis using typed_value[OF assms(1) _ assms(3)]
    by (cases "map_of (snd n) f"; cases "the (map_of (snd n) f)")
      (auto simp: member_project[OF assms(2)] attr_bool_def field_value_def)
qed

lemma read_int_project:
  assumes "node_typed (snd n)" "Fld f \<in> set fs" "map_of schema f = Some ''int''"
  shows "read_int (member (project fs n) f) = Some (attr_int n f)"
proof -
  have "f \<noteq> ''uid''" using assms(3) by (auto simp: schema_def)
  then show ?thesis using typed_value[OF assms(1) _ assms(3)]
    by (cases "map_of (snd n) f"; cases "the (map_of (snd n) f)")
      (auto simp: member_project[OF assms(2)] attr_int_def field_value_def)
qed

lemma read_uid_project: "Fld ''uid'' \<in> set fs \<Longrightarrow> read_str (member (project fs n) ''uid'') = Some (fst n)"
  by (simp add: member_project field_value_def)

lemma attr_str_eq:
  assumes "node_typed (snd n)" "v \<noteq> []" "f \<noteq> ''uid''"
  shows "attr_str n f = v \<longleftrightarrow> filter_holds (FEq f v) n"
  using assms(2,3) by (auto simp: attr_str_def field_value_def split: option.splits json.splits)

lemma read_strings_project:
  assumes "node_typed (snd n)" "Fld ''dgraph.type'' \<in> set fs"
  shows "\<exists>ts. read_slice read_str (member (project fs n) ''dgraph.type'') = Some ts"
proof (cases "map_of (snd n) ''dgraph.type''")
  case (Some v)
  then have "is_string_list v"
    using assms(1) map_of_SomeD[OF Some] by (force simp: node_typed_def list_all_iff)
  then obtain xs where xs: "v = JArr xs" "list_all (\<lambda>x. case x of JStr _ \<Rightarrow> True | _ \<Rightarrow> False) xs"
    by (cases v) auto
  have "\<exists>ts. those (map read_str xs) = Some ts"
    using xs(2) by (induction xs) (auto split: json.splits)
  then show ?thesis using Some xs(1) by (auto simp: member_project[OF assms(2)] field_value_def)
qed (simp add: member_project[OF assms(2)] field_value_def)

section \<open>The items a database holds\<close>

definition held_nodes :: "string \<Rightarrow> (node \<Rightarrow> 'a) \<Rightarrow> node list \<Rightarrow> 'a multiset" where
  "held_nodes T F g = image_mset F (filter_mset (has_type T) (mset g))"

lemma held_nodes_add:
  "mset g' = add_mset n (mset g) \<Longrightarrow>
     held_nodes T F g' = (if has_type T n then add_mset (F n) (held_nodes T F g) else held_nodes T F g)"
  by (simp add: held_nodes_def)

lemma held_nodes_filter: "held_nodes T F (filter P g) \<subseteq># held_nodes T F g"
  unfolding held_nodes_def
  by (intro image_mset_subseteq_mono multiset_filter_mono) (simp add: multiset_filter_subset)

lemma filter_uid_mset:
  assumes "distinct (map fst g)" "n \<in> set g"
  shows "mset (filter (\<lambda>m. fst m \<noteq> fst n) g) = mset g - {#n#}"
  using assms
proof (induction g)
  case (Cons m g)
  show ?case
  proof (cases "m = n")
    case True
    then have "filter (\<lambda>m. fst m \<noteq> fst n) g = g" using Cons.prems(1) by (auto simp: filter_id_conv image_iff)
    then show ?thesis using True by simp
  next
    case False
    then have "fst m \<noteq> fst n" using Cons.prems by (auto simp: image_iff)
    then show ?thesis using False Cons by (simp add: insert_DiffM2)
  qed
qed simp

lemma held_nodes_delete:
  assumes "distinct (map fst g)" "n \<in> set g" "has_type T n"
  shows "held_nodes T F (filter (\<lambda>m. fst m \<noteq> fst n) g) = held_nodes T F g - {#F n#}"
  unfolding held_nodes_def filter_uid_mset[OF assms(1,2)]
  using assms(2,3) by (simp add: image_mset_Diff)

lemma held_nodes_iff: "x \<in># held_nodes T F g \<longleftrightarrow> (\<exists>n\<in>set g. has_type T n \<and> x = F n)"
  by (auto simp: held_nodes_def)

text \<open>The text of a deletion, \<^verbatim>\<open>fmt.Sprintf(`{"uid": "%s"}`, uid)\<close>.\<close>

definition delete_payload :: "string \<Rightarrow> string" where
  "delete_payload uid = [CHR ''{''] @ render_string ''uid'' @ '': '' @ [CHR 0x22] @ uid @ [CHR 0x22, CHR ''}'']"

lemma escape_plain: "list_all (\<lambda>c. json_escape c = [c]) u \<Longrightarrow> concat (map json_escape u) = u"
  by (induction u) auto

lemma plain_uid_escape: "plain_uid u \<Longrightarrow> concat (map json_escape u) = u"
  by (simp add: plain_uid_def escape_plain)

lemma delete_payload_parse:
  assumes "plain_uid u"
  shows "json_parse (delete_payload u) = Some (JObj [(''uid'', JStr u)])"
proof -
  have str: "[CHR 0x22] @ u @ [CHR 0x22, CHR ''}''] = render_string u @ ''}''"
    by (simp add: render_string_def plain_uid_escape[OF assms])
  have val: "parse_value (Suc n) ('' '' @ render_string u @ ''}'') = Some (JStr u, ''}'')" for n
    using parse_value_string[of n u "''}''"]
    by (simp add: skip_ws_def json_space_def render_string_def)
  have mem: "parse_members (Suc (Suc n)) (render_string ''uid'' @ CHR '':'' # '' '' @ render_string u @ ''}'') =
      Some ([(''uid'', JStr u)], [])" for n
    using val[of n] by (simp add: parse_members_step expect_simps del: parse_members.simps(2) parse_value.simps(2))
  have eq: "delete_payload u = CHR ''{'' # render_string ''uid'' @ CHR '':'' # '' '' @ render_string u @ ''}''"
    unfolding delete_payload_def using str by simp
  have ne: "expect (CHR ''}'') (render_string ''uid'' @ t) = None" for t
    by (simp add: render_string_def expect_def json_space_def)
  have "parse_value (Suc (length (delete_payload u))) (delete_payload u) = Some (JObj [(''uid'', JStr u)], [])"
    using mem[of "length (delete_payload u) - 2"] ne
    by (simp add: eq json_space_def render_string_def del: parse_members.simps(2))
  then show ?thesis by (simp add: json_parse_def)
qed

lemma held_nodes_bex: "(\<exists>x\<in>#held_nodes T F g. P x) \<longleftrightarrow> (\<exists>n\<in>set g. has_type T n \<and> P (F n))"
  by (auto simp: held_nodes_def)

lemma held_nodes_ball: "(\<forall>x\<in>#held_nodes T F g. P x) \<longleftrightarrow> (\<forall>n\<in>set g. has_type T n \<longrightarrow> P (F n))"
  by (auto simp: held_nodes_def)

context dgraph_db
begin

lemma query_list_ok:
  assumes "query_list D f q s = (Inr xs, s')" "flat_query q"
  shows "xs = map (\<lambda>n. the (f (JObj (project (q_fields q) n)))) (matching q (graph s))"
proof -
  from assms(1) obtain t s1 where t: "dg_Query D q s = (Inr t, s1)" "unmarshal_list (q_block q) f t = Some xs"
    by (auto simp: query_list_def split: prod.splits sum.splits option.splits)
  have "those (map (\<lambda>n. f (JObj (project (q_fields q) n))) (matching q (graph s))) = Some xs"
    using t(2) unmarshal_answer[OF query_ok[OF t(1) assms(2)], of f] by simp
  then show ?thesis by (rule those_SomeD)
qed

lemma query_list_keeps: "query_list D f q s = (r, s') \<Longrightarrow> graph s' = graph s"
  using query_keepsD by (auto simp: query_list_def split: prod.splits sum.splits option.splits)

text \<open>Setting a new object, seen from the items of a type.\<close>

lemma set_held:
  assumes "dg_SetJson D (render (JObj ((''uid'', JStr (''_:'' @ x)) # kvs))) s = (r, s')"
    "list_all (\<lambda>(k, v). flat_value v) kvs" "\<And>u. has_type T (u, kvs)" "\<And>u. F (u, kvs) = y"
  shows "held_nodes T F (graph s') = add_mset y (held_nodes T F (graph s)) \<or>
    r \<noteq> None \<and> held_nodes T F (graph s') = held_nodes T F (graph s)"
  using set_cases[OF assms(1) json_parse_render assms(2)] assms(3,4)
  by (auto simp: held_nodes_add)

lemma set_held_other:
  assumes "dg_SetJson D (render (JObj ((''uid'', JStr (''_:'' @ x)) # kvs))) s = (r, s')"
    "list_all (\<lambda>(k, v). flat_value v) kvs" "\<And>u. \<not> has_type T (u, kvs)"
  shows "held_nodes T F (graph s') = held_nodes T F (graph s)"
  using set_cases[OF assms(1) json_parse_render assms(2)] assms(3)
  by (auto simp: held_nodes_add)

lemma delete_held:
  assumes "dg_DeleteJson D (delete_payload (fst n)) s = (r, s')" "n \<in> set (graph s)" "has_type T n"
  shows "held_nodes T F (graph s') = held_nodes T F (graph s) - {#F n#} \<or>
    r \<noteq> None \<and> held_nodes T F (graph s') = held_nodes T F (graph s)"
  using delete_cases[OF assms(1) delete_payload_parse[OF uids_plain[OF assms(2)]]]
    held_nodes_delete[OF uids_distinct assms(2,3), of F] by auto

lemma delete_held_subset:
  assumes "dg_DeleteJson D (delete_payload (fst n)) s = (r, s')" "n \<in> set (graph s)"
  shows "held_nodes T F (graph s') \<subseteq># held_nodes T F (graph s)"
  using delete_cases[OF assms(1) delete_payload_parse[OF uids_plain[OF assms(2)]]]
proof
  assume "graph s' = filter (\<lambda>m. fst m \<noteq> fst n) (graph s)"
  then show ?thesis using held_nodes_filter[of T F _ "graph s"] by simp
qed simp

end

section \<open>A database in memory\<close>

text \<open>
  A database that keeps the list of its nodes, refuses values that the schema does not admit and
  gives a new node a uid longer than every other. It satisfies the laws.
\<close>

fun clean :: "node list \<Rightarrow> node list" where
  "clean [] = []"
| "clean (n # g) = (if plain_uid (fst n) \<and> node_typed (snd n) \<and> fst n \<notin> fst ` set (clean g)
     then n # clean g else clean g)"

definition fresh_uid :: "node list \<Rightarrow> string" where
  "fresh_uid g = replicate (Suc (sum_list (map (length \<circ> fst) g))) (CHR ''1'')"

definition mem_Query :: "dql \<Rightarrow> (node list, go_error + string) io" where
  "mem_Query q s = (if flat_query q then Inr (render (query_answer q (clean s))) else Inl (ExtError ''unsupported''), s)"

definition mem_SetJson :: "string \<Rightarrow> (node list, go_error option) io" where
  "mem_SetJson txt s = (case json_parse txt of
     Some (JObj ((k, JStr (a # b # x)) # kvs)) \<Rightarrow>
       (if k = ''uid'' \<and> [a, b] = ''_:'' \<and> node_typed kvs
        then (None, (fresh_uid (clean s), kvs) # clean s) else (Some (ExtError ''rejected''), s))
   | _ \<Rightarrow> (Some (ExtError ''rejected''), s))"

definition mem_DeleteJson :: "string \<Rightarrow> (node list, go_error option) io" where
  "mem_DeleteJson txt s = (case json_parse txt of
     Some (JObj [(k, JStr u)]) \<Rightarrow> (None, filter (\<lambda>n. fst n \<noteq> u) (clean s))
   | _ \<Rightarrow> (Some (ExtError ''rejected''), s))"

definition mem_dgraph :: "node list dgraph" where
  "mem_dgraph = \<lparr>dg_Query = mem_Query, dg_SetJson = mem_SetJson, dg_DeleteJson = mem_DeleteJson,
     dg_Do = (\<lambda>u s. ((None, Some (ExtError ''unsupported'')), s)), dg_Alter = (\<lambda>_ s. (None, s))\<rparr>"

lemma clean_set: "n \<in> set (clean g) \<Longrightarrow> plain_uid (fst n) \<and> node_typed (snd n)"
  by (induction g) (auto split: if_splits)

lemma clean_distinct: "distinct (map fst (clean g))"
  by (induction g) auto

lemma clean_id:
  "distinct (map fst g) \<Longrightarrow> (\<And>n. n \<in> set g \<Longrightarrow> plain_uid (fst n) \<and> node_typed (snd n)) \<Longrightarrow> clean g = g"
  by (induction g) auto

lemma clean_clean [simp]: "clean (clean g) = clean g"
  by (intro clean_id clean_distinct) (rule clean_set)

lemma clean_filter_clean [simp]: "clean (filter P (clean g)) = filter P (clean g)"
proof (intro clean_id)
  show "distinct (map fst (filter P (clean g)))"
    using clean_distinct[of g] by (induction "clean g") (auto simp: distinct_map inj_on_def)
qed (auto dest: clean_set)

lemma fresh_uid_fresh: "fresh_uid g \<notin> fst ` set g"
proof
  assume "fresh_uid g \<in> fst ` set g"
  then obtain n where "n \<in> set g" "fst n = fresh_uid g" by auto
  then have "length (fresh_uid g) \<le> sum_list (map (length \<circ> fst) g)"
    using member_le_sum_list[of "length (fst n)" "map (length \<circ> fst) g"] by force
  then show False by (simp add: fresh_uid_def)
qed

lemma fresh_uid_plain: "plain_uid (fresh_uid g)"
  by (simp add: plain_uid_def fresh_uid_def list_all_iff json_escape_def)

lemma clean_new [simp]:
  "node_typed kvs \<Longrightarrow> clean ((fresh_uid (clean g), kvs) # clean g) = (fresh_uid (clean g), kvs) # clean g"
  using fresh_uid_fresh[of "clean g"] by (simp add: fresh_uid_plain)

interpretation mem: dgraph_db mem_dgraph clean
proof
  fix tx s r s' x kvs
  assume "dg_SetJson mem_dgraph tx s = (r, s')"
    and "json_parse tx = Some (JObj ((''uid'', JStr (''_:'' @ x)) # kvs))"
  then show "r \<noteq> None \<and> clean s' = clean s \<or>
      (\<exists>u. plain_uid u \<and> u \<notin> fst ` set (clean s) \<and> mset (clean s') = add_mset (u, kvs) (mset (clean s)))"
    using fresh_uid_fresh[of "clean s"] fresh_uid_plain[of "clean s"]
    by (cases "node_typed kvs") (auto simp: mem_dgraph_def mem_SetJson_def)
next
  fix tx s r s' u
  assume "dg_DeleteJson mem_dgraph tx s = (r, s')" "json_parse tx = Some (JObj [(''uid'', JStr u)])"
  then show "r \<noteq> None \<and> clean s' = clean s \<or> clean s' = filter (\<lambda>n. fst n \<noteq> u) (clean s)"
    by (auto simp: mem_dgraph_def mem_DeleteJson_def)
qed (auto simp: mem_dgraph_def mem_Query_def json_parse_render clean_distinct dest: clean_set split: if_splits)

end
