(* ===== verification/DgraphConfigStore.thy ===== *)
theory DgraphConfigStore
  imports Dgraph
begin

text \<open>
  The constraint store and the action store of \<^verbatim>\<open>pkg/server/dgraphstore\<close>, operation by operation, with
  the node structs of \<^verbatim>\<open>types.go\<close>. Both satisfy the contract of \<open>named_store\<close> over every database
  that satisfies \<open>dgraph_db\<close>. \<^verbatim>\<open>json.Marshal\<close> cannot fail on these structs, so the branches for its
  error are not written.
\<close>

section \<open>Constraint nodes\<close>

record constraint_node =
  dc_UID :: string
  dc_DType :: "string list"
  dc_Namespace :: string
  dc_Name :: string
  dc_Selector :: string
  dc_AllowedProcesses :: string
  dc_AllowedFiles :: string

definition omit_types :: "string list \<Rightarrow> (string \<times> json) list" where
  "omit_types ts = (if ts = [] then [] else [(''dgraph.type'', JArr (map JStr ts))])"

definition marshal_constraint_node :: "constraint_node \<Rightarrow> json" where
  "marshal_constraint_node c = JObj (omit_str ''uid'' (dc_UID c) @ omit_types (dc_DType c) @
     omit_str ''constraint_namespace'' (dc_Namespace c) @ omit_str ''constraint_name'' (dc_Name c) @
     omit_str ''constraint_selector'' (dc_Selector c) @
     omit_str ''constraint_allowed_processes'' (dc_AllowedProcesses c) @
     omit_str ''constraint_allowed_files'' (dc_AllowedFiles c))"

definition read_types :: "json \<Rightarrow> string list option" where
  "read_types j = map_option elems (read_slice read_str j)"

definition unmarshal_constraint_node :: "json \<Rightarrow> constraint_node option" where
  "unmarshal_constraint_node j = (case read_members j of None \<Rightarrow> None | Some m \<Rightarrow>
     (case (read_str (member m ''uid''), read_types (member m ''dgraph.type''),
            read_str (member m ''constraint_namespace''), read_str (member m ''constraint_name''),
            read_str (member m ''constraint_selector''), read_str (member m ''constraint_allowed_processes''),
            read_str (member m ''constraint_allowed_files'')) of
        (Some u, Some ts, Some ns, Some nm, Some sel, Some ap, Some af) \<Rightarrow>
          Some \<lparr>dc_UID = u, dc_DType = ts, dc_Namespace = ns, dc_Name = nm, dc_Selector = sel,
                dc_AllowedProcesses = ap, dc_AllowedFiles = af\<rparr>
      | _ \<Rightarrow> None))"

text \<open>\<^verbatim>\<open>_ = json.Unmarshal(text, &field)\<close>: on an error the field keeps its zero value.\<close>

definition unmarshal_or :: "'a \<Rightarrow> (json \<Rightarrow> 'a option) \<Rightarrow> string \<Rightarrow> 'a" where
  "unmarshal_or zero f txt = (case json_parse txt of
     None \<Rightarrow> zero
   | Some j \<Rightarrow> (case f j of None \<Rightarrow> zero | Some x \<Rightarrow> x))"

lemma unmarshal_or_render [simp]: "unmarshal_or z f (render j) = (case f j of None \<Rightarrow> z | Some x \<Rightarrow> x)"
  by (simp add: unmarshal_or_def json_parse_render)

definition toPbConstraint :: "constraint_node \<Rightarrow> Constraint" where
  "toPbConstraint c = NewConstraint\<lparr>c_Namespace := dc_Namespace c, c_Name := dc_Name c,
     c_Selector := unmarshal_or None unmarshal_Selector (dc_Selector c),
     c_AllowedProcesses := unmarshal_or None (read_slice unmarshal_AllowedProcessRule) (dc_AllowedProcesses c),
     c_AllowedFiles := unmarshal_or None (read_slice unmarshal_AllowedFileRule) (dc_AllowedFiles c)\<rparr>"

definition toPbConstraints :: "constraint_node list \<Rightarrow> Constraint slice" where
  "toPbConstraints cs = Some (map toPbConstraint cs)"

definition dgraphConstraintFromPb :: "Constraint \<Rightarrow> constraint_node" where
  "dgraphConstraintFromPb c = \<lparr>dc_UID = ''_:constraint'', dc_DType = [''Constraint''],
     dc_Namespace = c_Namespace c, dc_Name = c_Name c,
     dc_Selector = render (marshal_Selector (c_Selector c)),
     dc_AllowedProcesses = render (marshal_slice marshal_AllowedProcessRule (c_AllowedProcesses c)),
     dc_AllowedFiles = render (marshal_slice marshal_AllowedFileRule (c_AllowedFiles c))\<rparr>"

section \<open>The constraint store\<close>

definition constraintFields :: "dql_field list" where
  "constraintFields = [Fld ''uid'', Fld ''dgraph.type'', Fld ''constraint_namespace'',
     Fld ''constraint_name'', Fld ''constraint_selector'', Fld ''constraint_allowed_processes'',
     Fld ''constraint_allowed_files'']"

definition constraint_GetAll :: "'s dgraph \<Rightarrow> ('s, Constraint slice \<times> go_error option) io" where
  "constraint_GetAll D s =
     (case query_list D unmarshal_constraint_node \<lparr>q_block = ''constraints'', q_type = ''Constraint'',
            q_first = None, q_filter = FTrue, q_fields = constraintFields\<rparr> s of
        (Inl err, s') \<Rightarrow> ((None, Some err), s')
      | (Inr cs, s') \<Rightarrow> ((toPbConstraints cs, None), s'))"

definition constraint_FindByNamespace :: "'s dgraph \<Rightarrow> string \<Rightarrow> ('s, Constraint slice \<times> go_error option) io" where
  "constraint_FindByNamespace D ns s =
     (case query_list D unmarshal_constraint_node \<lparr>q_block = ''constraints'', q_type = ''Constraint'',
            q_first = None, q_filter = FEq ''constraint_namespace'' ns, q_fields = constraintFields\<rparr> s of
        (Inl err, s') \<Rightarrow> ((None, Some err), s')
      | (Inr cs, s') \<Rightarrow> ((toPbConstraints cs, None), s'))"

definition findConstraintUIDByNamespaceAndName :: "'s dgraph \<Rightarrow> string \<Rightarrow> string \<Rightarrow> ('s, string \<times> go_error option) io" where
  "findConstraintUIDByNamespaceAndName D ns nm s =
     (case query_list D unmarshal_constraint_node \<lparr>q_block = ''constraints'', q_type = ''Constraint'',
            q_first = Some 1,
            q_filter = FAnd (FEq ''constraint_namespace'' ns) (FEq ''constraint_name'' nm),
            q_fields = [Fld ''uid'']\<rparr> s of
        (Inl err, s') \<Rightarrow> (([], Some err), s')
      | (Inr [], s') \<Rightarrow> (([], None), s')
      | (Inr (c # cs), s') \<Rightarrow> ((dc_UID c, None), s'))"

definition constraint_NamespaceAndNameExist :: "'s dgraph \<Rightarrow> string \<Rightarrow> string \<Rightarrow> ('s, bool \<times> go_error option) io" where
  "constraint_NamespaceAndNameExist D ns nm s =
     (case findConstraintUIDByNamespaceAndName D ns nm s of
        ((uid, Some err), s') \<Rightarrow> ((False, Some err), s')
      | ((uid, None), s') \<Rightarrow> ((uid \<noteq> [], None), s'))"

definition constraint_Add :: "'s dgraph \<Rightarrow> Constraint \<Rightarrow> ('s, go_error option) io" where
  "constraint_Add D c s = dg_SetJson D (render (marshal_constraint_node (dgraphConstraintFromPb c))) s"

definition constraint_RemoveByNamespaceAndName :: "'s dgraph \<Rightarrow> string \<Rightarrow> string \<Rightarrow> ('s, go_error option) io" where
  "constraint_RemoveByNamespaceAndName D ns nm s =
     (case findConstraintUIDByNamespaceAndName D ns nm s of
        ((uid, Some err), s') \<Rightarrow> (Some err, s')
      | ((uid, None), s') \<Rightarrow> (if uid = [] then (None, s') else dg_DeleteJson D (delete_payload uid) s'))"

definition dgraphConstraintStore :: "'s dgraph \<Rightarrow> ('s, Constraint) config_store" where
  "dgraphConstraintStore D = \<lparr>cs_GetAll = constraint_GetAll D,
     cs_FindByNamespace = constraint_FindByNamespace D,
     cs_NamespaceAndNameExist = constraint_NamespaceAndNameExist D,
     cs_Add = constraint_Add D,
     cs_RemoveByNamespaceAndName = constraint_RemoveByNamespaceAndName D\<rparr>"

section \<open>Action nodes\<close>

record action_node =
  da_UID :: string
  da_DType :: "string list"
  da_Namespace :: string
  da_Name :: string
  da_Selector :: string
  da_OnViolatedProcess :: bool
  da_OnViolatedFile :: bool
  da_OnFalcoAlert :: bool
  da_FalcoAlertPriority :: int
  da_Action :: string

definition marshal_action_node :: "action_node \<Rightarrow> json" where
  "marshal_action_node a = JObj (omit_str ''uid'' (da_UID a) @ omit_types (da_DType a) @
     omit_str ''action_namespace'' (da_Namespace a) @ omit_str ''action_name'' (da_Name a) @
     omit_str ''action_selector'' (da_Selector a) @
     omit_bool ''action_on_violated_process'' (da_OnViolatedProcess a) @
     omit_bool ''action_on_violated_file'' (da_OnViolatedFile a) @
     omit_bool ''action_on_falco_alert'' (da_OnFalcoAlert a) @
     omit_int ''action_falco_alert_priority'' (da_FalcoAlertPriority a) @
     omit_str ''action_action'' (da_Action a))"

definition unmarshal_action_node :: "json \<Rightarrow> action_node option" where
  "unmarshal_action_node j = (case read_members j of None \<Rightarrow> None | Some m \<Rightarrow>
     (case (read_str (member m ''uid''), read_types (member m ''dgraph.type''),
            read_str (member m ''action_namespace''), read_str (member m ''action_name''),
            read_str (member m ''action_selector''), read_bool (member m ''action_on_violated_process''),
            read_bool (member m ''action_on_violated_file''), read_bool (member m ''action_on_falco_alert''),
            read_int (member m ''action_falco_alert_priority''), read_str (member m ''action_action'')) of
        (Some u, Some ts, Some ns, Some nm, Some sel, Some vp, Some vf, Some fa, Some pr, Some ac) \<Rightarrow>
          Some \<lparr>da_UID = u, da_DType = ts, da_Namespace = ns, da_Name = nm, da_Selector = sel,
                da_OnViolatedProcess = vp, da_OnViolatedFile = vf, da_OnFalcoAlert = fa,
                da_FalcoAlertPriority = pr, da_Action = ac\<rparr>
      | _ \<Rightarrow> None))"

definition toPbAction :: "action_node \<Rightarrow> Action" where
  "toPbAction a = NewAction\<lparr>a_Namespace := da_Namespace a, a_Name := da_Name a,
     a_Selector := unmarshal_or None unmarshal_Selector (da_Selector a),
     a_OnViolatedProcess := da_OnViolatedProcess a, a_OnViolatedFile := da_OnViolatedFile a,
     a_OnFalcoAlert := da_OnFalcoAlert a, a_FalcoPriority := word_of_int (da_FalcoAlertPriority a),
     a_Action := da_Action a\<rparr>"

definition toPbActions :: "action_node list \<Rightarrow> Action slice" where
  "toPbActions as = Some (map toPbAction as)"

definition dgraphActionFromPb :: "Action \<Rightarrow> action_node" where
  "dgraphActionFromPb a = \<lparr>da_UID = ''_:action'', da_DType = [''Action''],
     da_Namespace = a_Namespace a, da_Name = a_Name a,
     da_Selector = render (marshal_Selector (a_Selector a)),
     da_OnViolatedProcess = a_OnViolatedProcess a, da_OnViolatedFile = a_OnViolatedFile a,
     da_OnFalcoAlert = a_OnFalcoAlert a, da_FalcoAlertPriority = sint (a_FalcoPriority a),
     da_Action = a_Action a\<rparr>"

section \<open>The action store\<close>

definition actionFields :: "dql_field list" where
  "actionFields = [Fld ''uid'', Fld ''dgraph.type'', Fld ''action_namespace'', Fld ''action_name'',
     Fld ''action_selector'', Fld ''action_on_violated_process'', Fld ''action_on_violated_file'',
     Fld ''action_on_falco_alert'', Fld ''action_falco_alert_priority'', Fld ''action_action'']"

definition action_GetAll :: "'s dgraph \<Rightarrow> ('s, Action slice \<times> go_error option) io" where
  "action_GetAll D s =
     (case query_list D unmarshal_action_node \<lparr>q_block = ''actions'', q_type = ''Action'',
            q_first = None, q_filter = FTrue, q_fields = actionFields\<rparr> s of
        (Inl err, s') \<Rightarrow> ((None, Some err), s')
      | (Inr as, s') \<Rightarrow> ((toPbActions as, None), s'))"

definition action_FindByNamespace :: "'s dgraph \<Rightarrow> string \<Rightarrow> ('s, Action slice \<times> go_error option) io" where
  "action_FindByNamespace D ns s =
     (case query_list D unmarshal_action_node \<lparr>q_block = ''actions'', q_type = ''Action'',
            q_first = None, q_filter = FEq ''action_namespace'' ns, q_fields = actionFields\<rparr> s of
        (Inl err, s') \<Rightarrow> ((None, Some err), s')
      | (Inr as, s') \<Rightarrow> ((toPbActions as, None), s'))"

definition findActionUIDByNamespaceAndName :: "'s dgraph \<Rightarrow> string \<Rightarrow> string \<Rightarrow> ('s, string \<times> go_error option) io" where
  "findActionUIDByNamespaceAndName D ns nm s =
     (case query_list D unmarshal_action_node \<lparr>q_block = ''actions'', q_type = ''Action'',
            q_first = Some 1,
            q_filter = FAnd (FEq ''action_namespace'' ns) (FEq ''action_name'' nm),
            q_fields = [Fld ''uid'']\<rparr> s of
        (Inl err, s') \<Rightarrow> (([], Some err), s')
      | (Inr [], s') \<Rightarrow> (([], None), s')
      | (Inr (a # as), s') \<Rightarrow> ((da_UID a, None), s'))"

definition action_NamespaceAndNameExist :: "'s dgraph \<Rightarrow> string \<Rightarrow> string \<Rightarrow> ('s, bool \<times> go_error option) io" where
  "action_NamespaceAndNameExist D ns nm s =
     (case findActionUIDByNamespaceAndName D ns nm s of
        ((uid, Some err), s') \<Rightarrow> ((False, Some err), s')
      | ((uid, None), s') \<Rightarrow> ((uid \<noteq> [], None), s'))"

definition action_Add :: "'s dgraph \<Rightarrow> Action \<Rightarrow> ('s, go_error option) io" where
  "action_Add D a s = dg_SetJson D (render (marshal_action_node (dgraphActionFromPb a))) s"

definition action_RemoveByNamespaceAndName :: "'s dgraph \<Rightarrow> string \<Rightarrow> string \<Rightarrow> ('s, go_error option) io" where
  "action_RemoveByNamespaceAndName D ns nm s =
     (case findActionUIDByNamespaceAndName D ns nm s of
        ((uid, Some err), s') \<Rightarrow> (Some err, s')
      | ((uid, None), s') \<Rightarrow> (if uid = [] then (None, s') else dg_DeleteJson D (delete_payload uid) s'))"

definition dgraphActionStore :: "'s dgraph \<Rightarrow> ('s, Action) config_store" where
  "dgraphActionStore D = \<lparr>cs_GetAll = action_GetAll D,
     cs_FindByNamespace = action_FindByNamespace D,
     cs_NamespaceAndNameExist = action_NamespaceAndNameExist D,
     cs_Add = action_Add D,
     cs_RemoveByNamespaceAndName = action_RemoveByNamespaceAndName D\<rparr>"

lemma fields_in_constraint:
  "Fld ''uid'' \<in> set constraintFields" "Fld ''dgraph.type'' \<in> set constraintFields" "Fld ''constraint_namespace'' \<in> set constraintFields" "Fld ''constraint_name'' \<in> set constraintFields" "Fld ''constraint_selector'' \<in> set constraintFields" "Fld ''constraint_allowed_processes'' \<in> set constraintFields" "Fld ''constraint_allowed_files'' \<in> set constraintFields"
  "map_of schema ''constraint_namespace'' = Some ''string''" "map_of schema ''constraint_name'' = Some ''string''" "map_of schema ''constraint_selector'' = Some ''string''" "map_of schema ''constraint_allowed_processes'' = Some ''string''" "map_of schema ''constraint_allowed_files'' = Some ''string''"
  by (simp_all add: constraintFields_def schema_def)

section \<open>What a constraint node holds\<close>

definition constraint_of :: "node \<Rightarrow> Constraint" where
  "constraint_of n = toPbConstraint (the (unmarshal_constraint_node (JObj (project constraintFields n))))"

definition constraint_nsname :: "Constraint \<Rightarrow> string \<times> string" where
  "constraint_nsname x = (c_Namespace x, c_Name x)"

definition stored_constraint :: "Constraint \<Rightarrow> Constraint" where
  "stored_constraint x = x\<lparr>c_Kind := KindConstraint, c_Selector := stored_selector (c_Selector x)\<rparr>"

text \<open>The members of the payload behind its blank node.\<close>

definition constraint_members :: "Constraint \<Rightarrow> (string \<times> json) list" where
  "constraint_members x = tl (the (read_members (marshal_constraint_node (dgraphConstraintFromPb x))))"

lemma constraint_payload:
  "marshal_constraint_node (dgraphConstraintFromPb x) = JObj ((''uid'', JStr (''_:'' @ ''constraint'')) # constraint_members x)"
  by (simp add: constraint_members_def marshal_constraint_node_def dgraphConstraintFromPb_def omit_str_def)

lemma constraint_members_type: "has_type T (u, constraint_members x) \<longleftrightarrow> T = ''Constraint''"
  by (auto simp: has_type_def constraint_members_def marshal_constraint_node_def dgraphConstraintFromPb_def omit_str_def
      omit_types_def)

lemma constraint_members_flat: "list_all (\<lambda>(k, v). flat_value v) (constraint_members x)"
  by (simp add: constraint_members_def marshal_constraint_node_def dgraphConstraintFromPb_def omit_defs omit_types_def)

lemma unmarshal_constraint_uid: "the (unmarshal_constraint_node (JObj (project [Fld ''uid''] n))) =
    (the (unmarshal_constraint_node (JObj [])))\<lparr>dc_UID := fst n\<rparr>"
  by (simp add: project_def field_value_def unmarshal_constraint_node_def member_def read_types_def)

lemma constraint_of_nsname:
  assumes "node_typed (snd n)"
  shows "constraint_nsname (constraint_of n) = (attr_str n ''constraint_namespace'', attr_str n ''constraint_name'')"
proof -
  obtain ts where "read_slice read_str (member (project constraintFields n) ''dgraph.type'') = Some ts"
    using read_strings_project[OF assms, of constraintFields] by (auto simp: constraintFields_def)
  then have types: "read_types (member (project constraintFields n) ''dgraph.type'') = Some (elems ts)"
    by (simp add: read_types_def)
  show ?thesis
    by (simp add: constraint_of_def unmarshal_constraint_node_def read_uid_project types
        read_str_project[OF assms] read_bool_project[OF assms] read_int_project[OF assms]
        fields_in_constraint toPbConstraint_def constraint_nsname_def)
qed

lemma fields_in_action:
  "Fld ''uid'' \<in> set actionFields" "Fld ''dgraph.type'' \<in> set actionFields" "Fld ''action_namespace'' \<in> set actionFields" "Fld ''action_name'' \<in> set actionFields" "Fld ''action_selector'' \<in> set actionFields" "Fld ''action_on_violated_process'' \<in> set actionFields" "Fld ''action_on_violated_file'' \<in> set actionFields" "Fld ''action_on_falco_alert'' \<in> set actionFields" "Fld ''action_falco_alert_priority'' \<in> set actionFields" "Fld ''action_action'' \<in> set actionFields"
  "map_of schema ''action_namespace'' = Some ''string''" "map_of schema ''action_name'' = Some ''string''" "map_of schema ''action_selector'' = Some ''string''" "map_of schema ''action_on_violated_process'' = Some ''bool''" "map_of schema ''action_on_violated_file'' = Some ''bool''" "map_of schema ''action_on_falco_alert'' = Some ''bool''" "map_of schema ''action_falco_alert_priority'' = Some ''int''" "map_of schema ''action_action'' = Some ''string''"
  by (simp_all add: actionFields_def schema_def)

section \<open>What a action node holds\<close>

definition action_of :: "node \<Rightarrow> Action" where
  "action_of n = toPbAction (the (unmarshal_action_node (JObj (project actionFields n))))"

definition action_nsname :: "Action \<Rightarrow> string \<times> string" where
  "action_nsname x = (a_Namespace x, a_Name x)"

definition stored_action :: "Action \<Rightarrow> Action" where
  "stored_action x = x\<lparr>a_Kind := KindAction, a_Selector := stored_selector (a_Selector x)\<rparr>"

text \<open>The members of the payload behind its blank node.\<close>

definition action_members :: "Action \<Rightarrow> (string \<times> json) list" where
  "action_members x = tl (the (read_members (marshal_action_node (dgraphActionFromPb x))))"

lemma action_payload:
  "marshal_action_node (dgraphActionFromPb x) = JObj ((''uid'', JStr (''_:'' @ ''action'')) # action_members x)"
  by (simp add: action_members_def marshal_action_node_def dgraphActionFromPb_def omit_str_def)

lemma action_members_type: "has_type T (u, action_members x) \<longleftrightarrow> T = ''Action''"
  by (auto simp: has_type_def action_members_def marshal_action_node_def dgraphActionFromPb_def omit_str_def
      omit_types_def)

lemma action_members_flat: "list_all (\<lambda>(k, v). flat_value v) (action_members x)"
  by (simp add: action_members_def marshal_action_node_def dgraphActionFromPb_def omit_defs omit_types_def)

lemma unmarshal_action_uid: "the (unmarshal_action_node (JObj (project [Fld ''uid''] n))) =
    (the (unmarshal_action_node (JObj [])))\<lparr>da_UID := fst n\<rparr>"
  by (simp add: project_def field_value_def unmarshal_action_node_def member_def read_types_def)

lemma action_of_nsname:
  assumes "node_typed (snd n)"
  shows "action_nsname (action_of n) = (attr_str n ''action_namespace'', attr_str n ''action_name'')"
proof -
  obtain ts where "read_slice read_str (member (project actionFields n) ''dgraph.type'') = Some ts"
    using read_strings_project[OF assms, of actionFields] by (auto simp: actionFields_def)
  then have types: "read_types (member (project actionFields n) ''dgraph.type'') = Some (elems ts)"
    by (simp add: read_types_def)
  show ?thesis
    by (simp add: action_of_def unmarshal_action_node_def read_uid_project types
        read_str_project[OF assms] read_bool_project[OF assms] read_int_project[OF assms]
        fields_in_action toPbAction_def action_nsname_def)
qed

section \<open>Round trips\<close>

lemmas rule_roundtrips =
  read_slice_marshal[of _ unmarshal_AllowedProcessRule marshal_AllowedProcessRule, OF AllowedProcessRule_roundtrip]
  read_slice_marshal[of _ unmarshal_AllowedFileRule marshal_AllowedFileRule, OF AllowedFileRule_roundtrip]

lemma toPb_dgraphConstraintFromPb: "toPbConstraint (dgraphConstraintFromPb c) = stored_constraint c"
  by (simp add: toPbConstraint_def dgraphConstraintFromPb_def stored_constraint_def NewConstraint_def
      Selector_roundtrip rule_roundtrips)

lemma toPb_dgraphActionFromPb: "toPbAction (dgraphActionFromPb a) = stored_action a"
  by (simp add: toPbAction_def dgraphActionFromPb_def stored_action_def NewAction_def Selector_roundtrip)

text \<open>What a query reads of a new node is the struct that was written, under the new uid.\<close>

lemma constraint_node_written:
  "unmarshal_constraint_node (JObj (project constraintFields (u, constraint_members c))) =
     Some ((dgraphConstraintFromPb c)\<lparr>dc_UID := u\<rparr>)"
proof -
  have fv:
    "field_value (u, constraint_members c) ''uid'' = Some (JStr (u))"
    "field_value (u, constraint_members c) ''dgraph.type'' = Some (JArr [JStr ''Constraint''])"
    "field_value (u, constraint_members c) ''constraint_namespace'' = (if c_Namespace c = [] then None else Some (JStr (c_Namespace c)))"
    "field_value (u, constraint_members c) ''constraint_name'' = (if c_Name c = [] then None else Some (JStr (c_Name c)))"
    "field_value (u, constraint_members c) ''constraint_selector'' = Some (JStr (render (marshal_Selector (c_Selector c))))"
    "field_value (u, constraint_members c) ''constraint_allowed_processes'' = Some (JStr (render (marshal_slice marshal_AllowedProcessRule (c_AllowedProcesses c))))"
    "field_value (u, constraint_members c) ''constraint_allowed_files'' = Some (JStr (render (marshal_slice marshal_AllowedFileRule (c_AllowedFiles c))))"
    by (simp_all add: field_value_def constraint_members_def marshal_constraint_node_def dgraphConstraintFromPb_def
        omit_defs omit_types_def)
  show ?thesis
    by (simp add: unmarshal_constraint_node_def member_project fields_in_constraint fv read_types_def dgraphConstraintFromPb_def)
qed

lemma action_node_written:
  "unmarshal_action_node (JObj (project actionFields (u, action_members a))) =
     Some ((dgraphActionFromPb a)\<lparr>da_UID := u\<rparr>)"
proof -
  have fv:
    "field_value (u, action_members a) ''uid'' = Some (JStr (u))"
    "field_value (u, action_members a) ''dgraph.type'' = Some (JArr [JStr ''Action''])"
    "field_value (u, action_members a) ''action_namespace'' = (if a_Namespace a = [] then None else Some (JStr (a_Namespace a)))"
    "field_value (u, action_members a) ''action_name'' = (if a_Name a = [] then None else Some (JStr (a_Name a)))"
    "field_value (u, action_members a) ''action_selector'' = Some (JStr (render (marshal_Selector (a_Selector a))))"
    "field_value (u, action_members a) ''action_on_violated_process'' = (if a_OnViolatedProcess a then Some (JBool True) else None)"
    "field_value (u, action_members a) ''action_on_violated_file'' = (if a_OnViolatedFile a then Some (JBool True) else None)"
    "field_value (u, action_members a) ''action_on_falco_alert'' = (if a_OnFalcoAlert a then Some (JBool True) else None)"
    "field_value (u, action_members a) ''action_falco_alert_priority'' = (if sint (a_FalcoPriority a) = 0 then None else Some (JNum (sint (a_FalcoPriority a))))"
    "field_value (u, action_members a) ''action_action'' = (if a_Action a = [] then None else Some (JStr (a_Action a)))"
    by (simp_all add: field_value_def action_members_def marshal_action_node_def dgraphActionFromPb_def
        omit_defs omit_types_def)
  show ?thesis
    by (simp add: unmarshal_action_node_def member_project fields_in_action fv read_types_def dgraphActionFromPb_def)
qed

lemma constraint_of_written: "constraint_of (u, constraint_members c) = stored_constraint c"
proof -
  have "toPbConstraint (n\<lparr>dc_UID := u\<rparr>) = toPbConstraint n" for n by (simp add: toPbConstraint_def)
  then show ?thesis by (simp add: constraint_of_def constraint_node_written toPb_dgraphConstraintFromPb)
qed

lemma action_of_written: "action_of (u, action_members a) = stored_action a"
proof -
  have "toPbAction (n\<lparr>da_UID := u\<rparr>) = toPbAction n" for n by (simp add: toPbAction_def)
  then show ?thesis by (simp add: action_of_def action_node_written toPb_dgraphActionFromPb)
qed

section \<open>The stores satisfy their contract\<close>

text \<open>The first match of the query for a namespace and a name.\<close>

lemma matching_first:
  "matching \<lparr>q_block = b, q_type = T, q_first = Some 1, q_filter = f, q_fields = fs\<rparr> g =
     take 1 (filter (\<lambda>n. has_type T n \<and> filter_holds f n) g)"
  by (simp add: matching_def Let_def)

lemma matching_all:
  "matching \<lparr>q_block = b, q_type = T, q_first = None, q_filter = f, q_fields = fs\<rparr> g =
     filter (\<lambda>n. has_type T n \<and> filter_holds f n) g"
  by (simp add: matching_def)

lemma mset_matching_all:
  "mset (map F (filter (\<lambda>n. has_type T n \<and> P n) g)) =
     image_mset F (filter_mset P (filter_mset (has_type T) (mset g)))"
  by (simp add: filter_filter_mset conj_commute)

context dgraph_db
begin

lemma find_constraint:
  assumes "findConstraintUIDByNamespaceAndName D ns nm s = ((uid, None), s')"
  shows "graph s' = graph s" and
    "uid = (case filter (\<lambda>n. has_type ''Constraint'' n \<and>
        filter_holds (FAnd (FEq ''constraint_namespace'' ns) (FEq ''constraint_name'' nm)) n) (graph s) of
        [] \<Rightarrow> [] | n # _ \<Rightarrow> fst n)"
proof -
  let ?q = "\<lparr>q_block = ''constraints'', q_type = ''Constraint'', q_first = Some 1,
     q_filter = FAnd (FEq ''constraint_namespace'' ns) (FEq ''constraint_name'' nm), q_fields = [Fld ''uid'']\<rparr>"
  from assms obtain xs where xs: "query_list D unmarshal_constraint_node ?q s = (Inr xs, s')"
    and uid: "uid = (case xs of [] \<Rightarrow> [] | c # _ \<Rightarrow> dc_UID c)"
    by (auto simp: findConstraintUIDByNamespaceAndName_def split: prod.splits sum.splits list.splits)
  have "flat_query ?q" by (simp add: flat_query_def)
  from query_list_ok[OF xs this] show "uid = (case filter (\<lambda>n. has_type ''Constraint'' n \<and>
        filter_holds (FAnd (FEq ''constraint_namespace'' ns) (FEq ''constraint_name'' nm)) n) (graph s) of
        [] \<Rightarrow> [] | n # _ \<Rightarrow> fst n)"
    unfolding uid matching_first by (auto simp: unmarshal_constraint_uid split: list.splits)
  show "graph s' = graph s" by (rule query_list_keeps[OF xs])
qed

lemma constraint_matches:
  assumes "n \<in> set (graph s)" "ns \<noteq> []" "nm \<noteq> []"
  shows "filter_holds (FAnd (FEq ''constraint_namespace'' ns) (FEq ''constraint_name'' nm)) n \<longleftrightarrow>
    constraint_nsname (constraint_of n) = (ns, nm)"
  using attr_str_eq[OF nodes_typed[OF assms(1)] assms(2), of "''constraint_namespace''"]
    attr_str_eq[OF nodes_typed[OF assms(1)] assms(3), of "''constraint_name''"]
  by (auto simp: constraint_of_nsname[OF nodes_typed[OF assms(1)]])

lemma find_constraint_cases:
  assumes "findConstraintUIDByNamespaceAndName D ns nm s = ((uid, None), s')" "ns \<noteq> []" "nm \<noteq> []"
  shows "uid = [] \<and> (\<forall>x\<in>#held_nodes ''Constraint'' constraint_of (graph s). constraint_nsname x \<noteq> (ns, nm)) \<or>
    (\<exists>n\<in>set (graph s). uid = fst n \<and> uid \<noteq> [] \<and> has_type ''Constraint'' n \<and> constraint_nsname (constraint_of n) = (ns, nm))"
proof (cases "filter (\<lambda>n. has_type ''Constraint'' n \<and>
    filter_holds (FAnd (FEq ''constraint_namespace'' ns) (FEq ''constraint_name'' nm)) n) (graph s)")
  case Nil
  then have "\<forall>n\<in>set (graph s). has_type ''Constraint'' n \<longrightarrow> constraint_nsname (constraint_of n) \<noteq> (ns, nm)"
    using constraint_matches[OF _ assms(2,3), of _ s] by (auto simp: filter_empty_conv)
  then show ?thesis using find_constraint(2)[OF assms(1)] Nil by (auto simp: held_nodes_bex held_nodes_ball)
next
  case (Cons n rest)
  then have "n \<in> set (filter (\<lambda>n. has_type ''Constraint'' n \<and>
      filter_holds (FAnd (FEq ''constraint_namespace'' ns) (FEq ''constraint_name'' nm)) n) (graph s))" by simp
  then have n: "n \<in> set (graph s)" "has_type ''Constraint'' n" "constraint_nsname (constraint_of n) = (ns, nm)"
    using constraint_matches[OF _ assms(2,3), of n s] by auto
  moreover have "fst n \<noteq> []" using uids_plain[OF n(1)] by (simp add: plain_uid_def)
  moreover have "uid = fst n" using find_constraint(2)[OF assms(1)] Cons by simp
  ultimately show ?thesis by blast
qed

lemma constraint_FindByNamespace_ok:
  assumes "constraint_FindByNamespace D ns s = ((xs, None), s')" "ns \<noteq> []"
  shows "mset (elems xs) = filter_mset (\<lambda>x. fst (constraint_nsname x) = ns) (held_nodes ''Constraint'' constraint_of (graph s))"
proof -
  let ?q = "\<lparr>q_block = ''constraints'', q_type = ''Constraint'', q_first = None,
     q_filter = FEq ''constraint_namespace'' ns, q_fields = constraintFields\<rparr>"
  from assms(1) obtain ys where ys: "query_list D unmarshal_constraint_node ?q s = (Inr ys, s')"
    and xs: "xs = toPbConstraints ys"
    by (auto simp: constraint_FindByNamespace_def split: prod.splits sum.splits)
  have "flat_query ?q" by (simp add: flat_query_def constraintFields_def)
  from query_list_ok[OF ys this] have "map toPbConstraint ys = map constraint_of (matching ?q (graph s))"
    by (simp add: constraint_of_def)
  then have "mset (elems xs) = mset (map constraint_of (matching ?q (graph s)))"
    by (simp only: xs toPbConstraints_def elems_Some)
  also have "\<dots> = image_mset constraint_of (filter_mset (\<lambda>n. map_of (snd n) ''constraint_namespace'' = Some (JStr ns))
      (filter_mset (has_type ''Constraint'') (mset (graph s))))"
    unfolding matching_all mset_matching_all by simp
  also have "\<dots> = filter_mset (\<lambda>x. fst (constraint_nsname x) = ns) (held_nodes ''Constraint'' constraint_of (graph s))"
    unfolding held_nodes_def filter_mset_image_mset
  proof (rule arg_cong[where f = "image_mset constraint_of"], rule filter_mset_cong0)
    fix n assume "n \<in># filter_mset (has_type ''Constraint'') (mset (graph s))"
    then have typed: "node_typed (snd n)" using nodes_typed[of n s] by simp
    show "(map_of (snd n) ''constraint_namespace'' = Some (JStr ns)) = (fst (constraint_nsname (constraint_of n)) = ns)"
      using attr_str_eq[OF typed assms(2), of "''constraint_namespace''"] constraint_of_nsname[OF typed] by simp
  qed
  finally show ?thesis .
qed

lemma constraint_GetAll_ok:
  assumes "constraint_GetAll D s = ((xs, None), s')"
  shows "mset (elems xs) = held_nodes ''Constraint'' constraint_of (graph s)"
proof -
  let ?q = "\<lparr>q_block = ''constraints'', q_type = ''Constraint'', q_first = None, q_filter = FTrue, q_fields = constraintFields\<rparr>"
  from assms(1) obtain ys where ys: "query_list D unmarshal_constraint_node ?q s = (Inr ys, s')"
    and xs: "xs = toPbConstraints ys"
    by (auto simp: constraint_GetAll_def split: prod.splits sum.splits)
  have "flat_query ?q" by (simp add: flat_query_def constraintFields_def)
  from query_list_ok[OF ys this] have "map toPbConstraint ys = map constraint_of (matching ?q (graph s))"
    by (simp add: constraint_of_def)
  then have "mset (elems xs) = mset (map constraint_of (matching ?q (graph s)))"
    by (simp only: xs toPbConstraints_def elems_Some)
  then show ?thesis unfolding matching_all by (simp add: held_nodes_def)
qed

lemma constraint_reads_keep:
  "graph (snd (constraint_GetAll D s)) = graph s" "graph (snd (constraint_FindByNamespace D ns s)) = graph s"
  "graph (snd (findConstraintUIDByNamespaceAndName D ns nm s)) = graph s"
  "graph (snd (constraint_NamespaceAndNameExist D ns nm s)) = graph s"
  using query_list_keeps
  by (auto simp: constraint_GetAll_def constraint_FindByNamespace_def findConstraintUIDByNamespaceAndName_def
      constraint_NamespaceAndNameExist_def split: prod.splits sum.splits list.splits option.splits)

lemma constraint_Exist_ok:
  assumes "constraint_NamespaceAndNameExist D ns nm s = ((b, None), s')" "ns \<noteq> []" "nm \<noteq> []"
  shows "b \<longleftrightarrow> (\<exists>x\<in>#held_nodes ''Constraint'' constraint_of (graph s). constraint_nsname x = (ns, nm))"
proof -
  from assms(1) obtain uid where uid: "findConstraintUIDByNamespaceAndName D ns nm s = ((uid, None), s')" "b = (uid \<noteq> [])"
    by (auto simp: constraint_NamespaceAndNameExist_def split: prod.splits option.splits)
  show ?thesis using find_constraint_cases[OF uid(1) assms(2,3)] uid(2) by (auto simp: held_nodes_bex held_nodes_ball)
qed

lemma constraint_Add_cases:
  assumes "constraint_Add D x s = (r, s')"
  shows "held_nodes ''Constraint'' constraint_of (graph s') = add_mset (stored_constraint x) (held_nodes ''Constraint'' constraint_of (graph s)) \<or>
    r \<noteq> None \<and> held_nodes ''Constraint'' constraint_of (graph s') = held_nodes ''Constraint'' constraint_of (graph s)"
  using assms unfolding constraint_Add_def constraint_payload
  by (rule set_held) (simp_all add: constraint_members_flat constraint_members_type constraint_of_written)

lemma constraint_Add_other:
  assumes "constraint_Add D x s = (r, s')" "T \<noteq> ''Constraint''"
  shows "held_nodes T F (graph s') = held_nodes T F (graph s)"
  using assms(1) unfolding constraint_Add_def constraint_payload
  by (rule set_held_other) (simp_all add: constraint_members_flat constraint_members_type assms(2))

lemma constraint_Remove_cases:
  assumes "constraint_RemoveByNamespaceAndName D ns nm s = (r, s')" "ns \<noteq> []" "nm \<noteq> []"
  shows "(\<exists>x\<in>#held_nodes ''Constraint'' constraint_of (graph s). constraint_nsname x = (ns, nm) \<and>
      held_nodes ''Constraint'' constraint_of (graph s') = held_nodes ''Constraint'' constraint_of (graph s) - {#x#}) \<or>
    held_nodes ''Constraint'' constraint_of (graph s') = held_nodes ''Constraint'' constraint_of (graph s) \<and>
      (r = None \<longrightarrow> (\<forall>x\<in>#held_nodes ''Constraint'' constraint_of (graph s). constraint_nsname x \<noteq> (ns, nm)))"
proof -
  obtain uid err s1 where f: "findConstraintUIDByNamespaceAndName D ns nm s = ((uid, err), s1)" by (metis surj_pair)
  have g: "graph s1 = graph s" using constraint_reads_keep(3)[of ns nm s] f by simp
  show ?thesis
  proof (cases "err = None \<and> uid \<noteq> []")
    case True
    then have f': "findConstraintUIDByNamespaceAndName D ns nm s = ((uid, None), s1)" using f by simp
    obtain n where n: "n \<in> set (graph s)" "uid = fst n" "has_type ''Constraint'' n" "constraint_nsname (constraint_of n) = (ns, nm)"
      using find_constraint_cases[OF f' assms(2,3)] True by auto
    have "dg_DeleteJson D (delete_payload (fst n)) s1 = (r, s')"
      using assms(1) f' True n(2) by (simp add: constraint_RemoveByNamespaceAndName_def)
    from delete_held[OF this, of "''Constraint''" constraint_of] n g show ?thesis
      by (auto simp: held_nodes_bex held_nodes_ball)
  next
    case False
    then have "r = err \<and> s' = s1" using assms(1) f
      by (auto simp: constraint_RemoveByNamespaceAndName_def split: option.splits)
    then show ?thesis using g f False find_constraint_cases[OF _ assms(2,3), of s "[]" s1] by auto
  qed
qed

lemma constraint_Remove_subset:
  assumes "constraint_RemoveByNamespaceAndName D ns nm s = (r, s')" "ns \<noteq> []" "nm \<noteq> []"
  shows "held_nodes T F (graph s') \<subseteq># held_nodes T F (graph s)"
proof -
  obtain uid err s1 where f: "findConstraintUIDByNamespaceAndName D ns nm s = ((uid, err), s1)" by (metis surj_pair)
  have g: "graph s1 = graph s" using constraint_reads_keep(3)[of ns nm s] f by simp
  show ?thesis
  proof (cases "err = None \<and> uid \<noteq> []")
    case True
    then have f': "findConstraintUIDByNamespaceAndName D ns nm s = ((uid, None), s1)" using f by simp
    obtain n where n: "n \<in> set (graph s)" "uid = fst n"
      using find_constraint_cases[OF f' assms(2,3)] True by auto
    have "dg_DeleteJson D (delete_payload (fst n)) s1 = (r, s')"
      using assms(1) f' True n(2) by (simp add: constraint_RemoveByNamespaceAndName_def)
    from delete_held_subset[OF this] n g show ?thesis by simp
  next
    case False
    then have "s' = s1" using assms(1) f
      by (auto simp: constraint_RemoveByNamespaceAndName_def split: option.splits)
    then show ?thesis using g by simp
  qed
qed

lemma find_action:
  assumes "findActionUIDByNamespaceAndName D ns nm s = ((uid, None), s')"
  shows "graph s' = graph s" and
    "uid = (case filter (\<lambda>n. has_type ''Action'' n \<and>
        filter_holds (FAnd (FEq ''action_namespace'' ns) (FEq ''action_name'' nm)) n) (graph s) of
        [] \<Rightarrow> [] | n # _ \<Rightarrow> fst n)"
proof -
  let ?q = "\<lparr>q_block = ''actions'', q_type = ''Action'', q_first = Some 1,
     q_filter = FAnd (FEq ''action_namespace'' ns) (FEq ''action_name'' nm), q_fields = [Fld ''uid'']\<rparr>"
  from assms obtain xs where xs: "query_list D unmarshal_action_node ?q s = (Inr xs, s')"
    and uid: "uid = (case xs of [] \<Rightarrow> [] | c # _ \<Rightarrow> da_UID c)"
    by (auto simp: findActionUIDByNamespaceAndName_def split: prod.splits sum.splits list.splits)
  have "flat_query ?q" by (simp add: flat_query_def)
  from query_list_ok[OF xs this] show "uid = (case filter (\<lambda>n. has_type ''Action'' n \<and>
        filter_holds (FAnd (FEq ''action_namespace'' ns) (FEq ''action_name'' nm)) n) (graph s) of
        [] \<Rightarrow> [] | n # _ \<Rightarrow> fst n)"
    unfolding uid matching_first by (auto simp: unmarshal_action_uid split: list.splits)
  show "graph s' = graph s" by (rule query_list_keeps[OF xs])
qed

lemma action_matches:
  assumes "n \<in> set (graph s)" "ns \<noteq> []" "nm \<noteq> []"
  shows "filter_holds (FAnd (FEq ''action_namespace'' ns) (FEq ''action_name'' nm)) n \<longleftrightarrow>
    action_nsname (action_of n) = (ns, nm)"
  using attr_str_eq[OF nodes_typed[OF assms(1)] assms(2), of "''action_namespace''"]
    attr_str_eq[OF nodes_typed[OF assms(1)] assms(3), of "''action_name''"]
  by (auto simp: action_of_nsname[OF nodes_typed[OF assms(1)]])

lemma find_action_cases:
  assumes "findActionUIDByNamespaceAndName D ns nm s = ((uid, None), s')" "ns \<noteq> []" "nm \<noteq> []"
  shows "uid = [] \<and> (\<forall>x\<in>#held_nodes ''Action'' action_of (graph s). action_nsname x \<noteq> (ns, nm)) \<or>
    (\<exists>n\<in>set (graph s). uid = fst n \<and> uid \<noteq> [] \<and> has_type ''Action'' n \<and> action_nsname (action_of n) = (ns, nm))"
proof (cases "filter (\<lambda>n. has_type ''Action'' n \<and>
    filter_holds (FAnd (FEq ''action_namespace'' ns) (FEq ''action_name'' nm)) n) (graph s)")
  case Nil
  then have "\<forall>n\<in>set (graph s). has_type ''Action'' n \<longrightarrow> action_nsname (action_of n) \<noteq> (ns, nm)"
    using action_matches[OF _ assms(2,3), of _ s] by (auto simp: filter_empty_conv)
  then show ?thesis using find_action(2)[OF assms(1)] Nil by (auto simp: held_nodes_bex held_nodes_ball)
next
  case (Cons n rest)
  then have "n \<in> set (filter (\<lambda>n. has_type ''Action'' n \<and>
      filter_holds (FAnd (FEq ''action_namespace'' ns) (FEq ''action_name'' nm)) n) (graph s))" by simp
  then have n: "n \<in> set (graph s)" "has_type ''Action'' n" "action_nsname (action_of n) = (ns, nm)"
    using action_matches[OF _ assms(2,3), of n s] by auto
  moreover have "fst n \<noteq> []" using uids_plain[OF n(1)] by (simp add: plain_uid_def)
  moreover have "uid = fst n" using find_action(2)[OF assms(1)] Cons by simp
  ultimately show ?thesis by blast
qed

lemma action_FindByNamespace_ok:
  assumes "action_FindByNamespace D ns s = ((xs, None), s')" "ns \<noteq> []"
  shows "mset (elems xs) = filter_mset (\<lambda>x. fst (action_nsname x) = ns) (held_nodes ''Action'' action_of (graph s))"
proof -
  let ?q = "\<lparr>q_block = ''actions'', q_type = ''Action'', q_first = None,
     q_filter = FEq ''action_namespace'' ns, q_fields = actionFields\<rparr>"
  from assms(1) obtain ys where ys: "query_list D unmarshal_action_node ?q s = (Inr ys, s')"
    and xs: "xs = toPbActions ys"
    by (auto simp: action_FindByNamespace_def split: prod.splits sum.splits)
  have "flat_query ?q" by (simp add: flat_query_def actionFields_def)
  from query_list_ok[OF ys this] have "map toPbAction ys = map action_of (matching ?q (graph s))"
    by (simp add: action_of_def)
  then have "mset (elems xs) = mset (map action_of (matching ?q (graph s)))"
    by (simp only: xs toPbActions_def elems_Some)
  also have "\<dots> = image_mset action_of (filter_mset (\<lambda>n. map_of (snd n) ''action_namespace'' = Some (JStr ns))
      (filter_mset (has_type ''Action'') (mset (graph s))))"
    unfolding matching_all mset_matching_all by simp
  also have "\<dots> = filter_mset (\<lambda>x. fst (action_nsname x) = ns) (held_nodes ''Action'' action_of (graph s))"
    unfolding held_nodes_def filter_mset_image_mset
  proof (rule arg_cong[where f = "image_mset action_of"], rule filter_mset_cong0)
    fix n assume "n \<in># filter_mset (has_type ''Action'') (mset (graph s))"
    then have typed: "node_typed (snd n)" using nodes_typed[of n s] by simp
    show "(map_of (snd n) ''action_namespace'' = Some (JStr ns)) = (fst (action_nsname (action_of n)) = ns)"
      using attr_str_eq[OF typed assms(2), of "''action_namespace''"] action_of_nsname[OF typed] by simp
  qed
  finally show ?thesis .
qed

lemma action_GetAll_ok:
  assumes "action_GetAll D s = ((xs, None), s')"
  shows "mset (elems xs) = held_nodes ''Action'' action_of (graph s)"
proof -
  let ?q = "\<lparr>q_block = ''actions'', q_type = ''Action'', q_first = None, q_filter = FTrue, q_fields = actionFields\<rparr>"
  from assms(1) obtain ys where ys: "query_list D unmarshal_action_node ?q s = (Inr ys, s')"
    and xs: "xs = toPbActions ys"
    by (auto simp: action_GetAll_def split: prod.splits sum.splits)
  have "flat_query ?q" by (simp add: flat_query_def actionFields_def)
  from query_list_ok[OF ys this] have "map toPbAction ys = map action_of (matching ?q (graph s))"
    by (simp add: action_of_def)
  then have "mset (elems xs) = mset (map action_of (matching ?q (graph s)))"
    by (simp only: xs toPbActions_def elems_Some)
  then show ?thesis unfolding matching_all by (simp add: held_nodes_def)
qed

lemma action_reads_keep:
  "graph (snd (action_GetAll D s)) = graph s" "graph (snd (action_FindByNamespace D ns s)) = graph s"
  "graph (snd (findActionUIDByNamespaceAndName D ns nm s)) = graph s"
  "graph (snd (action_NamespaceAndNameExist D ns nm s)) = graph s"
  using query_list_keeps
  by (auto simp: action_GetAll_def action_FindByNamespace_def findActionUIDByNamespaceAndName_def
      action_NamespaceAndNameExist_def split: prod.splits sum.splits list.splits option.splits)

lemma action_Exist_ok:
  assumes "action_NamespaceAndNameExist D ns nm s = ((b, None), s')" "ns \<noteq> []" "nm \<noteq> []"
  shows "b \<longleftrightarrow> (\<exists>x\<in>#held_nodes ''Action'' action_of (graph s). action_nsname x = (ns, nm))"
proof -
  from assms(1) obtain uid where uid: "findActionUIDByNamespaceAndName D ns nm s = ((uid, None), s')" "b = (uid \<noteq> [])"
    by (auto simp: action_NamespaceAndNameExist_def split: prod.splits option.splits)
  show ?thesis using find_action_cases[OF uid(1) assms(2,3)] uid(2) by (auto simp: held_nodes_bex held_nodes_ball)
qed

lemma action_Add_cases:
  assumes "action_Add D x s = (r, s')"
  shows "held_nodes ''Action'' action_of (graph s') = add_mset (stored_action x) (held_nodes ''Action'' action_of (graph s)) \<or>
    r \<noteq> None \<and> held_nodes ''Action'' action_of (graph s') = held_nodes ''Action'' action_of (graph s)"
  using assms unfolding action_Add_def action_payload
  by (rule set_held) (simp_all add: action_members_flat action_members_type action_of_written)

lemma action_Add_other:
  assumes "action_Add D x s = (r, s')" "T \<noteq> ''Action''"
  shows "held_nodes T F (graph s') = held_nodes T F (graph s)"
  using assms(1) unfolding action_Add_def action_payload
  by (rule set_held_other) (simp_all add: action_members_flat action_members_type assms(2))

lemma action_Remove_cases:
  assumes "action_RemoveByNamespaceAndName D ns nm s = (r, s')" "ns \<noteq> []" "nm \<noteq> []"
  shows "(\<exists>x\<in>#held_nodes ''Action'' action_of (graph s). action_nsname x = (ns, nm) \<and>
      held_nodes ''Action'' action_of (graph s') = held_nodes ''Action'' action_of (graph s) - {#x#}) \<or>
    held_nodes ''Action'' action_of (graph s') = held_nodes ''Action'' action_of (graph s) \<and>
      (r = None \<longrightarrow> (\<forall>x\<in>#held_nodes ''Action'' action_of (graph s). action_nsname x \<noteq> (ns, nm)))"
proof -
  obtain uid err s1 where f: "findActionUIDByNamespaceAndName D ns nm s = ((uid, err), s1)" by (metis surj_pair)
  have g: "graph s1 = graph s" using action_reads_keep(3)[of ns nm s] f by simp
  show ?thesis
  proof (cases "err = None \<and> uid \<noteq> []")
    case True
    then have f': "findActionUIDByNamespaceAndName D ns nm s = ((uid, None), s1)" using f by simp
    obtain n where n: "n \<in> set (graph s)" "uid = fst n" "has_type ''Action'' n" "action_nsname (action_of n) = (ns, nm)"
      using find_action_cases[OF f' assms(2,3)] True by auto
    have "dg_DeleteJson D (delete_payload (fst n)) s1 = (r, s')"
      using assms(1) f' True n(2) by (simp add: action_RemoveByNamespaceAndName_def)
    from delete_held[OF this, of "''Action''" action_of] n g show ?thesis
      by (auto simp: held_nodes_bex held_nodes_ball)
  next
    case False
    then have "r = err \<and> s' = s1" using assms(1) f
      by (auto simp: action_RemoveByNamespaceAndName_def split: option.splits)
    then show ?thesis using g f False find_action_cases[OF _ assms(2,3), of s "[]" s1] by auto
  qed
qed

lemma action_Remove_subset:
  assumes "action_RemoveByNamespaceAndName D ns nm s = (r, s')" "ns \<noteq> []" "nm \<noteq> []"
  shows "held_nodes T F (graph s') \<subseteq># held_nodes T F (graph s)"
proof -
  obtain uid err s1 where f: "findActionUIDByNamespaceAndName D ns nm s = ((uid, err), s1)" by (metis surj_pair)
  have g: "graph s1 = graph s" using action_reads_keep(3)[of ns nm s] f by simp
  show ?thesis
  proof (cases "err = None \<and> uid \<noteq> []")
    case True
    then have f': "findActionUIDByNamespaceAndName D ns nm s = ((uid, None), s1)" using f by simp
    obtain n where n: "n \<in> set (graph s)" "uid = fst n"
      using find_action_cases[OF f' assms(2,3)] True by auto
    have "dg_DeleteJson D (delete_payload (fst n)) s1 = (r, s')"
      using assms(1) f' True n(2) by (simp add: action_RemoveByNamespaceAndName_def)
    from delete_held_subset[OF this] n g show ?thesis by simp
  next
    case False
    then have "s' = s1" using assms(1) f
      by (auto simp: action_RemoveByNamespaceAndName_def split: option.splits)
    then show ?thesis using g by simp
  qed
qed

end

sublocale dgraph_db \<subseteq> constraints: named_store "dgraphConstraintStore D"
  "\<lambda>s. held_nodes ''Constraint'' constraint_of (graph s)" stored_constraint constraint_nsname
proof
  show "constraint_nsname (stored_constraint x) = constraint_nsname x" for x
    by (simp add: constraint_nsname_def stored_constraint_def)
qed (simp_all add: dgraphConstraintStore_def constraint_GetAll_ok constraint_FindByNamespace_ok constraint_Exist_ok
    constraint_Add_cases[simplified] constraint_Remove_cases[simplified] constraint_reads_keep)

sublocale dgraph_db \<subseteq> actions: named_store "dgraphActionStore D"
  "\<lambda>s. held_nodes ''Action'' action_of (graph s)" stored_action action_nsname
proof
  show "action_nsname (stored_action x) = action_nsname x" for x
    by (simp add: action_nsname_def stored_action_def)
qed (simp_all add: dgraphActionStore_def action_GetAll_ok action_FindByNamespace_ok action_Exist_ok
    action_Add_cases[simplified] action_Remove_cases[simplified] action_reads_keep)

end
