(* ===== verification/ConfigServer.thy ===== *)
theory ConfigServer
  imports DgraphConfigStore
begin

text \<open>
  The gRPC service \<^verbatim>\<open>Config\<close> of \<^verbatim>\<open>pkg/server/config_server.go\<close>: the six handlers on the two stores. The two
  handlers that add are written in the two halves between which another request can run: the check
  that the name is free, and the change.
\<close>

record 's ConfigServer =
  constraintStore :: "('s, Constraint) config_store"
  actionStore :: "('s, Action) config_store"

definition NewConfigServer :: "('s, Constraint) config_store \<Rightarrow> ('s, Action) config_store \<Rightarrow> 's ConfigServer" where
  "NewConfigServer cst ast = \<lparr>constraintStore = cst, actionStore = ast\<rparr>"

section \<open>Constraints\<close>

definition GetConstraints ::
  "'k strset \<Rightarrow> 's ConfigServer \<Rightarrow> GetConstraintsRequest \<Rightarrow> ('s, GetConstraintsResponse reply) io" where
  "GetConstraints S cs req s =
     (let ((constraints, err), s') =
        (if gcr_Namespace req = [] then cs_GetAll (constraintStore cs) s
         else cs_FindByNamespace (constraintStore cs) (gcr_Namespace req) s);
        matched = (case gcr_Labels req of
            None \<Rightarrow> constraints
          | Some ls \<Rightarrow> Some (filter (\<lambda>c. \<not> no_selector (c_Selector c) \<and>
                         labels_include S (label_pairs (Some ls)) (c_Selector c)) (elems constraints)))
      in ((Some \<lparr>gcp_Constraints = matched\<rparr>, None), s'))"

text \<open>\<open>Inl\<close> is the reply of a request that ends at the check, \<open>Inr\<close> the constraint to be added.\<close>

definition AddConstraint_check ::
  "'s ConfigServer \<Rightarrow> AddConstraintRequest \<Rightarrow> ('s, AddConstraintResponse reply + Constraint) io" where
  "AddConstraint_check cs req s = (case acr_Constraint req of
     None \<Rightarrow> (Inl (None, Some (StatusErr InvalidArgument ''required constraint is empty'')), s)
   | Some c \<Rightarrow>
      (if c_Namespace c = [] then (Inl (None, Some (StatusErr InvalidArgument ''required field is empty: namespace'')), s)
       else if c_Name c = [] then (Inl (None, Some (StatusErr InvalidArgument ''required field is empty: name'')), s)
       else (case cs_NamespaceAndNameExist (constraintStore cs) (c_Namespace c) (c_Name c) s of
          ((exist, Some err), s') \<Rightarrow> (Inl (None, Some (StatusErr Internal ''internal server error'')), s')
        | ((True, None), s') \<Rightarrow> (Inl (None, Some (StatusErr InvalidArgument ''namespace and name already exists'')), s')
        | ((False, None), s') \<Rightarrow> (Inr c, s'))))"

definition AddConstraint_commit :: "'s ConfigServer \<Rightarrow> Constraint \<Rightarrow> ('s, AddConstraintResponse reply) io" where
  "AddConstraint_commit cs c s = (case cs_Add (constraintStore cs) c s of
     (Some err, s') \<Rightarrow> ((Some \<lparr>acp_Success = False\<rparr>, None), s')
   | (None, s') \<Rightarrow> ((Some \<lparr>acp_Success = True\<rparr>, None), s'))"

definition AddConstraint :: "'s ConfigServer \<Rightarrow> AddConstraintRequest \<Rightarrow> ('s, AddConstraintResponse reply) io" where
  "AddConstraint cs req s = (case AddConstraint_check cs req s of
     (Inl r, s') \<Rightarrow> (r, s')
   | (Inr c, s') \<Rightarrow> AddConstraint_commit cs c s')"

definition RemoveConstraint :: "'s ConfigServer \<Rightarrow> RemoveConstraintRequest \<Rightarrow> ('s, RemoveConstraintResponse reply) io" where
  "RemoveConstraint cs req s =
     (if rcr_Namespace req = [] \<or> rcr_Name req = []
      then ((None, Some (StatusErr InvalidArgument ''required namespace or name is empty'')), s)
      else (case cs_NamespaceAndNameExist (constraintStore cs) (rcr_Namespace req) (rcr_Name req) s of
         ((exist, Some err), s') \<Rightarrow> ((None, Some (StatusErr Internal ''internal server error'')), s')
       | ((False, None), s') \<Rightarrow>
           ((Some \<lparr>rcp_Success = False\<rparr>, Some (StatusErr NotFound ''Constraint not found'')), s')
       | ((True, None), s') \<Rightarrow>
          (case cs_RemoveByNamespaceAndName (constraintStore cs) (rcr_Namespace req) (rcr_Name req) s' of
             (Some err, s'') \<Rightarrow> ((None, Some (StatusErr Internal ''internal server error'')), s'')
           | (None, s'') \<Rightarrow> ((Some \<lparr>rcp_Success = True\<rparr>, None), s''))))"

section \<open>Actions\<close>

definition AddAction_check ::
  "'s ConfigServer \<Rightarrow> AddActionRequest \<Rightarrow> ('s, AddActionResponse reply + Action) io" where
  "AddAction_check cs req s = (case aar_Action req of
     None \<Rightarrow> (Inl (None, Some (StatusErr InvalidArgument ''required action is empty'')), s)
   | Some a \<Rightarrow>
      (if a_Namespace a = [] then (Inl (None, Some (StatusErr InvalidArgument ''required field is empty: namespace'')), s)
       else if a_Name a = [] then (Inl (None, Some (StatusErr InvalidArgument ''required field is empty: name'')), s)
       else (case cs_NamespaceAndNameExist (actionStore cs) (a_Namespace a) (a_Name a) s of
          ((exist, Some err), s') \<Rightarrow> (Inl (None, Some (StatusErr Internal ''internal server error'')), s')
        | ((True, None), s') \<Rightarrow> (Inl (None, Some (StatusErr InvalidArgument ''namespace and name already exists'')), s')
        | ((False, None), s') \<Rightarrow> (Inr a, s'))))"

definition AddAction_commit :: "'s ConfigServer \<Rightarrow> Action \<Rightarrow> ('s, AddActionResponse reply) io" where
  "AddAction_commit cs a s = (case cs_Add (actionStore cs) a s of
     (Some err, s') \<Rightarrow> ((Some \<lparr>aap_Success = False\<rparr>, None), s')
   | (None, s') \<Rightarrow> ((Some \<lparr>aap_Success = True\<rparr>, None), s'))"

definition AddAction :: "'s ConfigServer \<Rightarrow> AddActionRequest \<Rightarrow> ('s, AddActionResponse reply) io" where
  "AddAction cs req s = (case AddAction_check cs req s of
     (Inl r, s') \<Rightarrow> (r, s')
   | (Inr a, s') \<Rightarrow> AddAction_commit cs a s')"

definition GetActions ::
  "'k strset \<Rightarrow> 's ConfigServer \<Rightarrow> GetActionsRequest \<Rightarrow> ('s, GetActionsResponse reply) io" where
  "GetActions S cs req s =
     (let ((actions, err), s') =
        (if gar_Namespace req = [] then cs_GetAll (actionStore cs) s
         else cs_FindByNamespace (actionStore cs) (gar_Namespace req) s);
        matched = (case gar_Labels req of
            None \<Rightarrow> actions
          | Some ls \<Rightarrow> Some (filter (\<lambda>a. \<not> no_selector (a_Selector a) \<and>
                         labels_include S (label_pairs (Some ls)) (a_Selector a)) (elems actions)))
      in ((Some \<lparr>gap_Actions = matched\<rparr>, None), s'))"

definition RemoveAction :: "'s ConfigServer \<Rightarrow> RemoveActionRequest \<Rightarrow> ('s, RemoveActionResponse reply) io" where
  "RemoveAction cs req s =
     (if rar_Namespace req = [] \<or> rar_Name req = []
      then ((None, Some (StatusErr InvalidArgument ''required namespace or name is empty'')), s)
      else (case cs_NamespaceAndNameExist (actionStore cs) (rar_Namespace req) (rar_Name req) s of
         ((exist, Some err), s') \<Rightarrow> ((None, Some (StatusErr Internal ''internal server error'')), s')
       | ((False, None), s') \<Rightarrow>
           ((Some \<lparr>rap_Success = False\<rparr>, Some (StatusErr NotFound ''Action not found'')), s')
       | ((True, None), s') \<Rightarrow>
          (case cs_RemoveByNamespaceAndName (actionStore cs) (rar_Namespace req) (rar_Name req) s' of
             (Some err, s'') \<Rightarrow> ((None, Some (StatusErr Internal ''internal server error'')), s'')
           | (None, s'') \<Rightarrow> ((Some \<lparr>rap_Success = True\<rparr>, None), s''))))"

lemmas config_handlers [handler_defs] =
  AddConstraint_def AddConstraint_check_def AddConstraint_commit_def RemoveConstraint_def
  AddAction_def AddAction_check_def AddAction_commit_def RemoveAction_def

section \<open>The handlers as steps\<close>

text \<open>The server over the two Dgraph stores, and one request after the other.\<close>

definition dgraph_server :: "'s dgraph \<Rightarrow> 's ConfigServer" where
  "dgraph_server D = NewConfigServer (dgraphConstraintStore D) (dgraphActionStore D)"

lemma dgraph_server_simps [simp]:
  "constraintStore (dgraph_server D) = dgraphConstraintStore D"
  "actionStore (dgraph_server D) = dgraphActionStore D"
  by (simp_all add: dgraph_server_def NewConfigServer_def)

inductive config_step :: "'k strset \<Rightarrow> 's ConfigServer \<Rightarrow> 's \<Rightarrow> 's \<Rightarrow> bool" for S cs where
  step_add_constraint: "AddConstraint cs req s = (r, s') \<Longrightarrow> config_step S cs s s'"
| step_remove_constraint: "RemoveConstraint cs req s = (r, s') \<Longrightarrow> config_step S cs s s'"
| step_get_constraints: "GetConstraints S cs req s = (r, s') \<Longrightarrow> config_step S cs s s'"
| step_add_action: "AddAction cs req s = (r, s') \<Longrightarrow> config_step S cs s s'"
| step_remove_action: "RemoveAction cs req s = (r, s') \<Longrightarrow> config_step S cs s s'"
| step_get_actions: "GetActions S cs req s = (r, s') \<Longrightarrow> config_step S cs s s'"

text \<open>What the server means to keep: at most one constraint, and one action, of each name.\<close>

definition held_constraints :: "node list \<Rightarrow> Constraint multiset" where
  "held_constraints g = held_nodes ''Constraint'' constraint_of g"

definition held_actions :: "node list \<Rightarrow> Action multiset" where
  "held_actions g = held_nodes ''Action'' action_of g"

definition no_duplicates :: "node list \<Rightarrow> bool" where
  "no_duplicates g \<longleftrightarrow>
     (\<forall>k. size (filter_mset (\<lambda>c. constraint_nsname c = k) (held_constraints g)) \<le> 1) \<and>
     (\<forall>k. size (filter_mset (\<lambda>a. action_nsname a = k) (held_actions g)) \<le> 1)"

section \<open>The cases of the handlers\<close>

lemma AddConstraint_cases:
  assumes "AddConstraint cs req s = (r, s')"
  obtains (refused) "snd r \<noteq> None" "s' = s \<or> (\<exists>ns nm x. cs_NamespaceAndNameExist (constraintStore cs) ns nm s = (x, s'))"
  | (tried) c s1 e where "acr_Constraint req = Some c" "c_Namespace c \<noteq> []" "c_Name c \<noteq> []"
      "cs_NamespaceAndNameExist (constraintStore cs) (c_Namespace c) (c_Name c) s = ((False, None), s1)"
      "cs_Add (constraintStore cs) c s1 = (e, s')" "r = (Some \<lparr>acp_Success = (e = None)\<rparr>, None)"
proof (cases "AddConstraint_check cs req s")
  case (Pair res s1)
  show ?thesis
  proof (cases res)
    case (Inl r0)
    then have eq: "r0 = r" "s1 = s'" using assms Pair by (simp_all add: AddConstraint_def)
    have "snd r \<noteq> None \<and> (s' = s \<or> (\<exists>ns nm x. cs_NamespaceAndNameExist (constraintStore cs) ns nm s = (x, s')))"
      using Pair Inl eq
      by (auto simp: AddConstraint_check_def split: option.splits if_splits prod.splits bool.splits)
    then show ?thesis using refused by blast
  next
    case (Inr c)
    then have c: "acr_Constraint req = Some c" "c_Namespace c \<noteq> []" "c_Name c \<noteq> []"
      "cs_NamespaceAndNameExist (constraintStore cs) (c_Namespace c) (c_Name c) s = ((False, None), s1)"
      using Pair
      by (auto simp: AddConstraint_check_def split: option.splits if_splits prod.splits bool.splits)
    obtain e s2 where e: "cs_Add (constraintStore cs) c s1 = (e, s2)" by (metis surj_pair)
    then have "s2 = s'" "r = (Some \<lparr>acp_Success = (e = None)\<rparr>, None)"
      using assms Pair Inr by (auto simp: AddConstraint_def AddConstraint_commit_def split: option.splits)
    then show ?thesis using tried c e by blast
  qed
qed

lemma RemoveConstraint_cases:
  assumes "RemoveConstraint cs req s = (r, s')"
  obtains (refused) "snd r \<noteq> None" "s' = s \<or> (\<exists>ns nm x. cs_NamespaceAndNameExist (constraintStore cs) ns nm s = (x, s'))"
  | (tried) s1 e where "rcr_Namespace req \<noteq> []" "rcr_Name req \<noteq> []"
      "cs_NamespaceAndNameExist (constraintStore cs) (rcr_Namespace req) (rcr_Name req) s = ((True, None), s1)"
      "cs_RemoveByNamespaceAndName (constraintStore cs) (rcr_Namespace req) (rcr_Name req) s1 = (e, s')"
      "e = None \<longleftrightarrow> r = (Some \<lparr>rcp_Success = True\<rparr>, None)" "e \<noteq> None \<longleftrightarrow> snd r \<noteq> None"
proof -
  have "snd r \<noteq> None \<and> (s' = s \<or> (\<exists>ns nm x. cs_NamespaceAndNameExist (constraintStore cs) ns nm s = (x, s'))) \<or>
    (\<exists>s1 e. rcr_Namespace req \<noteq> [] \<and> rcr_Name req \<noteq> [] \<and>
      cs_NamespaceAndNameExist (constraintStore cs) (rcr_Namespace req) (rcr_Name req) s = ((True, None), s1) \<and>
      cs_RemoveByNamespaceAndName (constraintStore cs) (rcr_Namespace req) (rcr_Name req) s1 = (e, s') \<and>
      (e = None \<longleftrightarrow> r = (Some \<lparr>rcp_Success = True\<rparr>, None)) \<and> (e \<noteq> None \<longleftrightarrow> snd r \<noteq> None))"
    using assms unfolding RemoveConstraint_def
    by (simp split: if_splits prod.splits option.splits bool.splits) auto
  then show ?thesis using that by blast
qed

lemma GetConstraints_state:
  assumes "GetConstraints S cs req s = (r, s')"
  shows "(\<exists>x. cs_GetAll (constraintStore cs) s = (x, s')) \<or> (\<exists>ns x. cs_FindByNamespace (constraintStore cs) ns s = (x, s'))"
  using assms by (auto simp: GetConstraints_def Let_def split: prod.splits if_splits)

lemma AddAction_cases:
  assumes "AddAction cs req s = (r, s')"
  obtains (refused) "snd r \<noteq> None" "s' = s \<or> (\<exists>ns nm x. cs_NamespaceAndNameExist (actionStore cs) ns nm s = (x, s'))"
  | (tried) c s1 e where "aar_Action req = Some c" "a_Namespace c \<noteq> []" "a_Name c \<noteq> []"
      "cs_NamespaceAndNameExist (actionStore cs) (a_Namespace c) (a_Name c) s = ((False, None), s1)"
      "cs_Add (actionStore cs) c s1 = (e, s')" "r = (Some \<lparr>aap_Success = (e = None)\<rparr>, None)"
proof (cases "AddAction_check cs req s")
  case (Pair res s1)
  show ?thesis
  proof (cases res)
    case (Inl r0)
    then have eq: "r0 = r" "s1 = s'" using assms Pair by (simp_all add: AddAction_def)
    have "snd r \<noteq> None \<and> (s' = s \<or> (\<exists>ns nm x. cs_NamespaceAndNameExist (actionStore cs) ns nm s = (x, s')))"
      using Pair Inl eq
      by (auto simp: AddAction_check_def split: option.splits if_splits prod.splits bool.splits)
    then show ?thesis using refused by blast
  next
    case (Inr c)
    then have c: "aar_Action req = Some c" "a_Namespace c \<noteq> []" "a_Name c \<noteq> []"
      "cs_NamespaceAndNameExist (actionStore cs) (a_Namespace c) (a_Name c) s = ((False, None), s1)"
      using Pair
      by (auto simp: AddAction_check_def split: option.splits if_splits prod.splits bool.splits)
    obtain e s2 where e: "cs_Add (actionStore cs) c s1 = (e, s2)" by (metis surj_pair)
    then have "s2 = s'" "r = (Some \<lparr>aap_Success = (e = None)\<rparr>, None)"
      using assms Pair Inr by (auto simp: AddAction_def AddAction_commit_def split: option.splits)
    then show ?thesis using tried c e by blast
  qed
qed

lemma RemoveAction_cases:
  assumes "RemoveAction cs req s = (r, s')"
  obtains (refused) "snd r \<noteq> None" "s' = s \<or> (\<exists>ns nm x. cs_NamespaceAndNameExist (actionStore cs) ns nm s = (x, s'))"
  | (tried) s1 e where "rar_Namespace req \<noteq> []" "rar_Name req \<noteq> []"
      "cs_NamespaceAndNameExist (actionStore cs) (rar_Namespace req) (rar_Name req) s = ((True, None), s1)"
      "cs_RemoveByNamespaceAndName (actionStore cs) (rar_Namespace req) (rar_Name req) s1 = (e, s')"
      "e = None \<longleftrightarrow> r = (Some \<lparr>rap_Success = True\<rparr>, None)" "e \<noteq> None \<longleftrightarrow> snd r \<noteq> None"
proof -
  have "snd r \<noteq> None \<and> (s' = s \<or> (\<exists>ns nm x. cs_NamespaceAndNameExist (actionStore cs) ns nm s = (x, s'))) \<or>
    (\<exists>s1 e. rar_Namespace req \<noteq> [] \<and> rar_Name req \<noteq> [] \<and>
      cs_NamespaceAndNameExist (actionStore cs) (rar_Namespace req) (rar_Name req) s = ((True, None), s1) \<and>
      cs_RemoveByNamespaceAndName (actionStore cs) (rar_Namespace req) (rar_Name req) s1 = (e, s') \<and>
      (e = None \<longleftrightarrow> r = (Some \<lparr>rap_Success = True\<rparr>, None)) \<and> (e \<noteq> None \<longleftrightarrow> snd r \<noteq> None))"
    using assms unfolding RemoveAction_def
    by (simp split: if_splits prod.splits option.splits bool.splits) auto
  then show ?thesis using that by blast
qed

lemma GetActions_state:
  assumes "GetActions S cs req s = (r, s')"
  shows "(\<exists>x. cs_GetAll (actionStore cs) s = (x, s')) \<or> (\<exists>ns x. cs_FindByNamespace (actionStore cs) ns s = (x, s'))"
  using assms by (auto simp: GetActions_def Let_def split: prod.splits if_splits)

section \<open>No duplicates\<close>

context dgraph_db
begin

lemma no_duplicates_unique: "no_duplicates (graph s) \<longleftrightarrow> constraints.unique s \<and> actions.unique s"
  unfolding no_duplicates_def constraints.unique_def actions.unique_def
    held_constraints_def held_actions_def ..

lemma constraint_read_keeps:
  "cs_NamespaceAndNameExist (dgraphConstraintStore D) ns nm s = (x, s') \<Longrightarrow> graph s' = graph s"
  "cs_GetAll (dgraphConstraintStore D) s = (y, s') \<Longrightarrow> graph s' = graph s"
  "cs_FindByNamespace (dgraphConstraintStore D) ns s = (y, s') \<Longrightarrow> graph s' = graph s"
  using constraint_reads_keep(1)[of s] constraint_reads_keep(2)[of ns s] constraint_reads_keep(4)[of ns nm s]
  by (simp_all add: dgraphConstraintStore_def)

lemma constraintAdd_other_kind:
  "cs_Add (dgraphConstraintStore D) x s = (r, s') \<Longrightarrow> held_nodes ''Action'' F (graph s') = held_nodes ''Action'' F (graph s)"
  using constraint_Add_other[of x s r s' "''Action''" F] by (simp add: dgraphConstraintStore_def)

lemma constraintRemove_other_kind:
  "cs_RemoveByNamespaceAndName (dgraphConstraintStore D) ns nm s = (r, s') \<Longrightarrow> ns \<noteq> [] \<Longrightarrow> nm \<noteq> [] \<Longrightarrow>
     held_nodes T F (graph s') \<subseteq># held_nodes T F (graph s)"
  using constraint_Remove_subset[of ns nm s r s' T F] by (simp add: dgraphConstraintStore_def)

lemma AddConstraint_no_duplicates:
  assumes "AddConstraint (dgraph_server D) req s = (r, s')" "no_duplicates (graph s)"
  shows "no_duplicates (graph s')"
  using assms(1)
proof (cases rule: AddConstraint_cases)
  case refused
  then have "graph s' = graph s" using constraint_read_keeps(1) by auto
  then show ?thesis using assms(2) by simp
next
  case (tried c s1 e)
  have u: "constraints.unique s" "actions.unique s" using assms(2) by (simp_all add: no_duplicates_unique)
  have g1: "graph s1 = graph s" using tried(4) constraint_read_keeps(1) by simp
  have "constraints.unique s'"
    using constraints.unique_checked_add[of "c_Namespace c" "c_Name c" s s1 c e s'] tried u
    by (simp add: constraint_nsname_def)
  moreover have "actions.unique s'"
    using actions.unique_cong[of s' s] constraintAdd_other_kind[OF tried(5)[simplified], of action_of] g1 u by simp
  ultimately show ?thesis by (simp add: no_duplicates_unique)
qed

lemma RemoveConstraint_no_duplicates:
  assumes "RemoveConstraint (dgraph_server D) req s = (r, s')" "no_duplicates (graph s)"
  shows "no_duplicates (graph s')"
  using assms(1)
proof (cases rule: RemoveConstraint_cases)
  case refused
  then have "graph s' = graph s" using constraint_read_keeps(1) by auto
  then show ?thesis using assms(2) by simp
next
  case (tried s1 e)
  have g1: "graph s1 = graph s" using tried(3) constraint_read_keeps(1) by simp
  have u: "constraints.unique s1" "actions.unique s1"
    using assms(2) unfolding no_duplicates_unique[symmetric] g1[symmetric] by (simp_all add: no_duplicates_unique)
  have sub: "held_nodes T F (graph s') \<subseteq># held_nodes T F (graph s1)" for T and F :: "node \<Rightarrow> 'b"
    using constraintRemove_other_kind tried by simp
  have "constraints.unique s'" "actions.unique s'"
    using constraints.unique_subset[OF u(1) sub] actions.unique_subset[OF u(2) sub] by simp_all
  then show ?thesis by (simp add: no_duplicates_unique)
qed

lemma action_read_keeps:
  "cs_NamespaceAndNameExist (dgraphActionStore D) ns nm s = (x, s') \<Longrightarrow> graph s' = graph s"
  "cs_GetAll (dgraphActionStore D) s = (y, s') \<Longrightarrow> graph s' = graph s"
  "cs_FindByNamespace (dgraphActionStore D) ns s = (y, s') \<Longrightarrow> graph s' = graph s"
  using action_reads_keep(1)[of s] action_reads_keep(2)[of ns s] action_reads_keep(4)[of ns nm s]
  by (simp_all add: dgraphActionStore_def)

lemma actionAdd_other_kind:
  "cs_Add (dgraphActionStore D) x s = (r, s') \<Longrightarrow> held_nodes ''Constraint'' F (graph s') = held_nodes ''Constraint'' F (graph s)"
  using action_Add_other[of x s r s' "''Constraint''" F] by (simp add: dgraphActionStore_def)

lemma actionRemove_other_kind:
  "cs_RemoveByNamespaceAndName (dgraphActionStore D) ns nm s = (r, s') \<Longrightarrow> ns \<noteq> [] \<Longrightarrow> nm \<noteq> [] \<Longrightarrow>
     held_nodes T F (graph s') \<subseteq># held_nodes T F (graph s)"
  using action_Remove_subset[of ns nm s r s' T F] by (simp add: dgraphActionStore_def)

lemma AddAction_no_duplicates:
  assumes "AddAction (dgraph_server D) req s = (r, s')" "no_duplicates (graph s)"
  shows "no_duplicates (graph s')"
  using assms(1)
proof (cases rule: AddAction_cases)
  case refused
  then have "graph s' = graph s" using action_read_keeps(1) by auto
  then show ?thesis using assms(2) by simp
next
  case (tried c s1 e)
  have u: "constraints.unique s" "actions.unique s" using assms(2) by (simp_all add: no_duplicates_unique)
  have g1: "graph s1 = graph s" using tried(4) action_read_keeps(1) by simp
  have "actions.unique s'"
    using actions.unique_checked_add[of "a_Namespace c" "a_Name c" s s1 c e s'] tried u
    by (simp add: action_nsname_def)
  moreover have "constraints.unique s'"
    using constraints.unique_cong[of s' s] actionAdd_other_kind[OF tried(5)[simplified], of constraint_of] g1 u by simp
  ultimately show ?thesis by (simp add: no_duplicates_unique)
qed

lemma RemoveAction_no_duplicates:
  assumes "RemoveAction (dgraph_server D) req s = (r, s')" "no_duplicates (graph s)"
  shows "no_duplicates (graph s')"
  using assms(1)
proof (cases rule: RemoveAction_cases)
  case refused
  then have "graph s' = graph s" using action_read_keeps(1) by auto
  then show ?thesis using assms(2) by simp
next
  case (tried s1 e)
  have g1: "graph s1 = graph s" using tried(3) action_read_keeps(1) by simp
  have u: "constraints.unique s1" "actions.unique s1"
    using assms(2) unfolding no_duplicates_unique[symmetric] g1[symmetric] by (simp_all add: no_duplicates_unique)
  have sub: "held_nodes T F (graph s') \<subseteq># held_nodes T F (graph s1)" for T and F :: "node \<Rightarrow> 'b"
    using actionRemove_other_kind tried by simp
  have "constraints.unique s'" "actions.unique s'"
    using constraints.unique_subset[OF u(1) sub] actions.unique_subset[OF u(2) sub] by simp_all
  then show ?thesis by (simp add: no_duplicates_unique)
qed

lemma config_step_no_duplicates:
  assumes "config_step S (dgraph_server D) s s'" "no_duplicates (graph s)"
  shows "no_duplicates (graph s')"
  using assms
proof (induction rule: config_step.induct)
  case (step_get_constraints req s r s')
  then have "graph s' = graph s" using GetConstraints_state[OF step_get_constraints(1)] constraint_read_keeps(2,3) by auto
  then show ?case using step_get_constraints by simp
next
  case (step_get_actions req s r s')
  then have "graph s' = graph s" using GetActions_state[OF step_get_actions(1)] action_read_keeps(2,3) by auto
  then show ?case using step_get_actions by simp
qed (auto intro: AddConstraint_no_duplicates RemoveConstraint_no_duplicates
      AddAction_no_duplicates RemoveAction_no_duplicates)

lemma config_steps_no_duplicates:
  "(config_step S (dgraph_server D))\<^sup>*\<^sup>* s s' \<Longrightarrow> no_duplicates (graph s) \<Longrightarrow> no_duplicates (graph s')"
  by (induction rule: rtranclp_induct) (auto intro: config_step_no_duplicates)

end

section \<open>What the handlers promise\<close>

context dgraph_db
begin

lemma AddConstraint_promise:
  assumes "AddConstraint (dgraph_server D) req s = (r, s')"
  shows "(snd r \<noteq> None \<longrightarrow> graph s' = graph s) \<and>
    (snd r = None \<longrightarrow> (\<exists>c. acr_Constraint req = Some c \<and> c_Namespace c \<noteq> [] \<and> c_Name c \<noteq> [] \<and>
       (\<forall>x\<in>#held_constraints (graph s). constraint_nsname x \<noteq> constraint_nsname c) \<and>
       (r = (Some \<lparr>acp_Success = True\<rparr>, None) \<longrightarrow>
          held_constraints (graph s') = add_mset (stored_constraint c) (held_constraints (graph s)))))"
  using assms
proof (cases rule: AddConstraint_cases)
  case refused
  then have "graph s' = graph s" using constraint_read_keeps(1) by auto
  then show ?thesis using refused(1) by auto
next
  case (tried c s1 e)
  have g1: "graph s1 = graph s" using tried(4) constraint_read_keeps(1) by simp
  have "\<forall>x\<in>#held_constraints (graph s). constraint_nsname x \<noteq> constraint_nsname c"
    using constraints.Exist_ok[OF tried(4)[simplified] tried(2,3)] by (auto simp: held_constraints_def constraint_nsname_def)
  moreover have "e = None \<longrightarrow> held_constraints (graph s') = add_mset (stored_constraint c) (held_constraints (graph s))"
    using constraints.Add_cases[OF tried(5)[simplified]] tried(2,3) g1
    by (auto simp: held_constraints_def constraint_nsname_def)
  ultimately show ?thesis using tried by simp
qed

lemma RemoveConstraint_removes:
  assumes "RemoveConstraint (dgraph_server D) req s = (r, s')" "no_duplicates (graph s)" "snd r = None"
  shows "r = (Some \<lparr>rcp_Success = True\<rparr>, None) \<and>
      (\<forall>x\<in>#held_constraints (graph s'). constraint_nsname x \<noteq> (rcr_Namespace req, rcr_Name req)) \<and>
      (\<exists>x\<in>#held_constraints (graph s). constraint_nsname x = (rcr_Namespace req, rcr_Name req) \<and>
         held_constraints (graph s') = held_constraints (graph s) - {#x#})"
  using assms(1)
proof (cases rule: RemoveConstraint_cases)
  case (tried s1 e)
  have e: "e = None" using tried(6) assms(3) by blast
  have g1: "graph s1 = graph s" using tried(3) constraint_read_keeps(1) by simp
  have u: "constraints.unique s1"
    using assms(2) g1 constraints.unique_cong[of s1 s] by (simp add: no_duplicates_unique)
  have "\<exists>x\<in>#held_constraints (graph s). constraint_nsname x = (rcr_Namespace req, rcr_Name req)"
    using constraints.Exist_ok[OF tried(3)[simplified] tried(1,2)] by (simp add: held_constraints_def)
  then show ?thesis
    using constraints.Remove_cases[OF tried(4)[simplified] tried(1,2)] tried(5) e g1
      constraints.remove_absent[OF tried(4)[simplified, unfolded e] tried(1,2) u]
    by (auto simp: held_constraints_def constraints.present_def)
qed (use assms(3) in simp)

lemma RemoveConstraint_not_found:
  assumes "RemoveConstraint (dgraph_server D) req s = (r, s')"
    "snd r = Some (StatusErr NotFound ''Constraint not found'')"
  shows "(\<forall>x\<in>#held_constraints (graph s). constraint_nsname x \<noteq> (rcr_Namespace req, rcr_Name req)) \<and>
      graph s' = graph s"
proof -
  have k: "rcr_Namespace req \<noteq> []" "rcr_Name req \<noteq> []"
    and ex: "cs_NamespaceAndNameExist (dgraphConstraintStore D) (rcr_Namespace req) (rcr_Name req) s = ((False, None), s')"
    using assms by (auto simp: RemoveConstraint_def split: if_splits prod.splits option.splits bool.splits)
  show ?thesis using constraints.Exist_ok[OF ex k] constraint_read_keeps(1)[OF ex]
    by (simp add: held_constraints_def)
qed

text \<open>Two requests that both pass their check before either of them adds.\<close>

lemma AddConstraint_race:
  assumes "AddConstraint_commit (dgraph_server D) c1 s2 = ((Some \<lparr>acp_Success = True\<rparr>, None), s3)"
    "AddConstraint_commit (dgraph_server D) c2 s3 = ((Some \<lparr>acp_Success = True\<rparr>, None), s4)"
    "constraint_nsname c1 = constraint_nsname c2" "c_Namespace c1 \<noteq> []" "c_Name c1 \<noteq> []"
  shows "\<not> no_duplicates (graph s4)"
proof -
  have a: "cs_Add (dgraphConstraintStore D) c1 s2 = (None, s3)" "cs_Add (dgraphConstraintStore D) c2 s3 = (None, s4)"
    using assms(1,2) by (auto simp: AddConstraint_commit_def split: prod.splits option.splits)
  have "held_constraints (graph s4) =
      add_mset (stored_constraint c2) (add_mset (stored_constraint c1) (held_constraints (graph s2)))"
    using constraints.Add_cases[OF a(1)] constraints.Add_cases[OF a(2)] assms(3-5)
    by (auto simp: held_constraints_def constraint_nsname_def)
  then have "2 \<le> size (filter_mset (\<lambda>c. constraint_nsname c = constraint_nsname c1) (held_constraints (graph s4)))"
    using assms(3) by (simp add: constraints.nsname_stored)
  then have "\<not> size (filter_mset (\<lambda>c. constraint_nsname c = constraint_nsname c1) (held_constraints (graph s4))) \<le> 1"
    by linarith
  then show ?thesis unfolding no_duplicates_def by blast
qed

lemma GetConstraints_promise:
  assumes "GetConstraints S (dgraph_server D) req s = (r, s')"
    and "snd (fst (if gcr_Namespace req = [] then constraint_GetAll D s
                   else constraint_FindByNamespace D (gcr_Namespace req) s)) = None"
  shows "\<exists>resp. r = (Some resp, None) \<and> graph s' = graph s \<and>
    mset (elems (gcp_Constraints resp)) = filter_mset (\<lambda>c.
      (gcr_Namespace req = [] \<or> c_Namespace c = gcr_Namespace req) \<and>
      (gcr_Labels req = None \<or> \<not> no_selector (c_Selector c) \<and>
         labels_include S (label_pairs (gcr_Labels req)) (c_Selector c))) (held_constraints (graph s))"
proof -
  obtain cs where read: "(if gcr_Namespace req = [] then cs_GetAll (dgraphConstraintStore D) s
      else cs_FindByNamespace (dgraphConstraintStore D) (gcr_Namespace req) s) = ((cs, None), s')"
    and r: "r = (Some \<lparr>gcp_Constraints = (case gcr_Labels req of None \<Rightarrow> cs
      | Some ls \<Rightarrow> Some (filter (\<lambda>c. \<not> no_selector (c_Selector c) \<and>
          labels_include S (label_pairs (Some ls)) (c_Selector c)) (elems cs)))\<rparr>, None)"
    using assms by (auto simp: GetConstraints_def dgraphConstraintStore_def Let_def split: if_splits prod.splits)
  have held: "mset (elems cs) = filter_mset (\<lambda>c. gcr_Namespace req = [] \<or> c_Namespace c = gcr_Namespace req)
      (held_constraints (graph s))"
    using read constraints.GetAll_ok[of s cs s'] constraints.Find_ok[of "gcr_Namespace req" s cs s']
    by (auto simp: held_constraints_def constraint_nsname_def split: if_splits)
  have "graph s' = graph s" using read constraint_read_keeps(2,3) by (auto split: if_splits)
  then show ?thesis using r held
    by (cases "gcr_Labels req") (simp_all add: filter_filter_mset conj_commute)
qed

end

section \<open>Properties\<close>

text \<open>A concrete constraint, and a server over the database in memory.\<close>

definition sample_constraint :: Constraint where
  "sample_constraint = NewConstraint\<lparr>c_Namespace := ''ns'', c_Name := ''nginx'',
     c_Selector := Some \<lparr>sel_MatchLabels = Some [\<lparr>ml_Key = ''app'', ml_Value = ''nginx''\<rparr>]\<rparr>,
     c_AllowedProcesses := Some [\<lparr>apr_Regex = Some ''nginx''\<rparr>]\<rparr>"

definition sample_server :: "node list ConfigServer" where
  "sample_server = dgraph_server mem_dgraph"

definition sample_add :: AddConstraintRequest where
  "sample_add = \<lparr>acr_Constraint = Some sample_constraint\<rparr>"

definition sample_remove :: RemoveConstraintRequest where
  "sample_remove = \<lparr>rcr_Namespace = ''ns'', rcr_Name = ''nginx''\<rparr>"

definition sample_get :: GetConstraintsRequest where
  "sample_get = \<lparr>gcr_Namespace = ''ns'', gcr_Labels = Some [Some \<lparr>l_Key = ''app'', l_Value = ''nginx''\<rparr>]\<rparr>"

definition sample_db :: "node list" where
  "sample_db = snd (AddConstraint sample_server sample_add [])"

lemma sample_add_ok: "AddConstraint sample_server sample_add [] = ((Some \<lparr>acp_Success = True\<rparr>, None), sample_db)"
  unfolding sample_db_def by code_simp

lemma sample_empty: "no_duplicates (clean [])"
  by (simp add: no_duplicates_def held_constraints_def held_actions_def held_nodes_def)

text \<open>
  C8: Whatever requests the config server handles, one after the other and over any database that
  satisfies the laws of Dgraph, failures and timeouts included: no two constraints and no two actions
  ever have the same namespace and name.
\<close>

theorem config_server_no_duplicates:
  assumes "dgraph_db D graph" and "(config_step S (dgraph_server D))\<^sup>*\<^sup>* s s'" and "no_duplicates (graph s)"
  shows "no_duplicates (graph s')"
  using dgraph_db.config_steps_no_duplicates[OF assms] .

theorem config_server_no_duplicates_witness: "no_duplicates (clean sample_db)"
proof (rule config_server_no_duplicates[OF mem.dgraph_db_axioms _ sample_empty])
  show "(config_step list_strset (dgraph_server mem_dgraph))\<^sup>*\<^sup>* [] sample_db"
    using sample_add_ok by (auto simp: sample_server_def intro: step_add_constraint)
qed

text \<open>
  \<^verbatim>\<open>AddConstraint\<close>. An error reply means that nothing changed. Any other reply means that the request
  named a namespace and a name that were free, and a reply of success that the database now holds
  the constraint besides what it held.
\<close>

theorem AddConstraint_spec:
  assumes "dgraph_db D graph" and "AddConstraint (dgraph_server D) req s = (r, s')"
  shows "(snd r \<noteq> None \<longrightarrow> graph s' = graph s) \<and>
    (snd r = None \<longrightarrow> (\<exists>c. acr_Constraint req = Some c \<and> c_Namespace c \<noteq> [] \<and> c_Name c \<noteq> [] \<and>
       (\<forall>x\<in>#held_constraints (graph s). constraint_nsname x \<noteq> constraint_nsname c) \<and>
       (r = (Some \<lparr>acp_Success = True\<rparr>, None) \<longrightarrow>
          held_constraints (graph s') = add_mset (stored_constraint c) (held_constraints (graph s)))))"
  using dgraph_db.AddConstraint_promise[OF assms] .

theorem AddConstraint_spec_witness:
  "held_constraints (clean sample_db) = {#stored_constraint sample_constraint#}"
  using AddConstraint_spec[OF mem.dgraph_db_axioms sample_add_ok[unfolded sample_server_def]]
  by (auto simp: sample_add_def held_constraints_def held_nodes_def)

text \<open>
  \<^verbatim>\<open>RemoveConstraint\<close>. A reply without error means that exactly the named constraint is gone, and
  none of that name is left.
\<close>

theorem RemoveConstraint_spec:
  assumes "dgraph_db D graph" and "RemoveConstraint (dgraph_server D) req s = (r, s')"
    and "no_duplicates (graph s)" and "snd r = None"
  shows "r = (Some \<lparr>rcp_Success = True\<rparr>, None) \<and>
    (\<forall>x\<in>#held_constraints (graph s'). constraint_nsname x \<noteq> (rcr_Namespace req, rcr_Name req)) \<and>
    (\<exists>x\<in>#held_constraints (graph s). constraint_nsname x = (rcr_Namespace req, rcr_Name req) \<and>
       held_constraints (graph s') = held_constraints (graph s) - {#x#})"
  using dgraph_db.RemoveConstraint_removes[OF assms] .

lemma sample_db_no_duplicates: "no_duplicates (clean sample_db)"
  using mem.config_step_no_duplicates[OF step_add_constraint[OF sample_add_ok[unfolded sample_server_def]] sample_empty] .

lemma sample_remove_ok:
  "RemoveConstraint sample_server sample_remove sample_db = ((Some \<lparr>rcp_Success = True\<rparr>, None), [])"
  by code_simp

theorem RemoveConstraint_spec_witness:
  "\<exists>x\<in>#held_constraints (clean sample_db). constraint_nsname x = (''ns'', ''nginx'') \<and>
     held_constraints (clean []) = held_constraints (clean sample_db) - {#x#}"
  using RemoveConstraint_spec[OF mem.dgraph_db_axioms sample_remove_ok[unfolded sample_server_def] sample_db_no_duplicates]
  by (simp add: sample_remove_def)

text \<open>
  C25: The check and the change of \<^verbatim>\<open>AddConstraint\<close> are not one transaction: when two requests for the
  same name both pass their check before either adds, the database ends with a duplicate.
\<close>

theorem AddConstraint_check_then_act:
  assumes "dgraph_db D graph"
    and "AddConstraint_check (dgraph_server D) req1 s = (Inr c1, s1)"
    and "AddConstraint_check (dgraph_server D) req2 s1 = (Inr c2, s2)"
    and "constraint_nsname c1 = constraint_nsname c2"
    and "AddConstraint_commit (dgraph_server D) c1 s2 = ((Some \<lparr>acp_Success = True\<rparr>, None), s3)"
    and "AddConstraint_commit (dgraph_server D) c2 s3 = ((Some \<lparr>acp_Success = True\<rparr>, None), s4)"
  shows "\<not> no_duplicates (graph s4)"
proof -
  have "c_Namespace c1 \<noteq> []" "c_Name c1 \<noteq> []"
    using assms(2) by (auto simp: AddConstraint_check_def split: option.splits if_splits prod.splits bool.splits)
  then show ?thesis using dgraph_db.AddConstraint_race[OF assms(1,5,6,4)] by simp
qed

lemma sample_race:
  "AddConstraint_check sample_server sample_add [] = (Inr sample_constraint, [])"
  "fst (AddConstraint_commit sample_server sample_constraint []) = (Some \<lparr>acp_Success = True\<rparr>, None)"
  "fst (AddConstraint_commit sample_server sample_constraint (snd (AddConstraint_commit sample_server sample_constraint [])))
     = (Some \<lparr>acp_Success = True\<rparr>, None)"
  by code_simp+

theorem AddConstraint_check_then_act_witness:
  "\<not> no_duplicates (clean (snd (AddConstraint_commit sample_server sample_constraint
      (snd (AddConstraint_commit sample_server sample_constraint [])))))"
  using sample_race
  by (intro AddConstraint_check_then_act[OF mem.dgraph_db_axioms, where ?req1.0 = sample_add and
        ?req2.0 = sample_add and s = "[]" and ?s1.0 = "[]" and ?s2.0 = "[]" and ?c1.0 = sample_constraint and
        ?c2.0 = sample_constraint and ?s3.0 = "snd (AddConstraint_commit sample_server sample_constraint [])"])
    (auto simp: sample_server_def prod_eq_iff)

text \<open>
  \<^verbatim>\<open>GetConstraints\<close>. When the store can be read, the reply lists exactly the constraints of the
  namespace (of every namespace when none is given) whose selector is there and applies to the
  labels of the request (all of them when the request has no labels).
\<close>

theorem GetConstraints_spec:
  assumes "dgraph_db D graph" and "strset_ok S mem"
    and "GetConstraints S (dgraph_server D) req s = (r, s')"
    and "snd (fst (if gcr_Namespace req = [] then constraint_GetAll D s
                   else constraint_FindByNamespace D (gcr_Namespace req) s)) = None"
    and "plain_keys (label_pairs (gcr_Labels req))"
    and "\<forall>c\<in>#held_constraints (graph s). plain_keys (matchlabel_pairs (GetMatchLabels (c_Selector c)))"
  shows "\<exists>resp. r = (Some resp, None) \<and> graph s' = graph s \<and>
    mset (elems (gcp_Constraints resp)) = filter_mset (\<lambda>c.
      (gcr_Namespace req = [] \<or> c_Namespace c = gcr_Namespace req) \<and>
      (gcr_Labels req = None \<or> \<not> no_selector (c_Selector c) \<and>
         selects (c_Selector c) (label_pairs (gcr_Labels req)))) (held_constraints (graph s))"
proof -
  have "filter_mset (\<lambda>c. (gcr_Namespace req = [] \<or> c_Namespace c = gcr_Namespace req) \<and>
      (gcr_Labels req = None \<or> \<not> no_selector (c_Selector c) \<and>
         labels_include S (label_pairs (gcr_Labels req)) (c_Selector c))) (held_constraints (graph s)) =
    filter_mset (\<lambda>c. (gcr_Namespace req = [] \<or> c_Namespace c = gcr_Namespace req) \<and>
      (gcr_Labels req = None \<or> \<not> no_selector (c_Selector c) \<and>
         selects (c_Selector c) (label_pairs (gcr_Labels req)))) (held_constraints (graph s))"
    by (rule filter_mset_cong0) (use labels_include_iff[OF assms(2,5)] assms(6) in blast)
  then show ?thesis using dgraph_db.GetConstraints_promise[OF assms(1,3,4)] by simp
qed

lemma sample_held: "held_constraints (clean sample_db) = {#stored_constraint sample_constraint#}"
  using mem.AddConstraint_promise[OF sample_add_ok[unfolded sample_server_def]]
  by (auto simp: sample_add_def held_constraints_def held_nodes_def)

theorem GetConstraints_spec_witness:
  "\<exists>resp. fst (GetConstraints list_strset sample_server sample_get sample_db) = (Some resp, None) \<and>
     mset (elems (gcp_Constraints resp)) = {#stored_constraint sample_constraint#}"
proof -
  have read: "snd (fst (constraint_FindByNamespace mem_dgraph ''ns'' sample_db)) = None" by code_simp
  obtain r s' where g: "GetConstraints list_strset sample_server sample_get sample_db = (r, s')" by (metis surj_pair)
  show ?thesis
    using GetConstraints_spec[OF mem.dgraph_db_axioms list_strset_ok g[unfolded sample_server_def]] read sample_held g
    by (force simp: sample_get_def sample_constraint_def stored_constraint_def stored_selector_def plain_keys_def
        label_pairs_def matchlabel_pairs_def GetMatchLabels_def Label_GetKey_def Label_GetValue_def
        no_selector_def selects_def NewConstraint_def)
qed

end
