(* ===== verification/Queue.thy ===== *)
theory Queue
  imports Tarianpb
begin

text \<open>
  The message queues of \<^verbatim>\<open>pkg/protoqueue\<close>. The interface \<^verbatim>\<open>QueuePublisher\<close>/\<^verbatim>\<open>QueueSubscriber\<close> is a record of
  two operations and its contract the locale \<open>message_queue\<close>, which the channel queue satisfies. An
  operation that would block has the value \<open>None\<close>. The JetStream queue is modelled against the NATS
  client as a parameter.
\<close>

section \<open>The interface\<close>

record ('q, 'm) queue =
  q_Publish :: "'m \<Rightarrow> 'q \<Rightarrow> (go_error option \<times> 'q) option"
  q_NextMessage :: "'q \<Rightarrow> ((go_error + 'm) \<times> 'q) option"

text \<open>
  The contract of a reliable queue: what is published without an error waits behind what was
  published before, what is taken was the first, a failed operation changes nothing, and reading
  blocks only when nothing waits.
\<close>

locale message_queue =
  fixes Q :: "('q, 'm) queue" and waiting :: "'q \<Rightarrow> 'm list" and capacity :: nat
  assumes publish_ok: "q_Publish Q m q = Some (None, q') \<Longrightarrow> waiting q' = waiting q @ [m]"
    and publish_err: "q_Publish Q m q = Some (Some e, q') \<Longrightarrow> waiting q' = waiting q"
    and publish_blocks: "length (waiting q) < capacity \<Longrightarrow> q_Publish Q m q \<noteq> None"
    and publish_bound: "q_Publish Q m q = Some (None, q') \<Longrightarrow> length (waiting q') \<le> capacity"
    and next_ok: "q_NextMessage Q q = Some (Inr m, q') \<Longrightarrow> waiting q = m # waiting q'"
    and next_err: "q_NextMessage Q q = Some (Inl e, q') \<Longrightarrow> waiting q' = waiting q"
    and next_blocks: "q_NextMessage Q q = None \<Longrightarrow> waiting q = []"

section \<open>channel.go\<close>

record 'm ChannelQueue =
  channel :: "'m list"

definition channel_capacity :: nat where "channel_capacity = 1000"

definition NewChannelQueue :: "'m ChannelQueue" where
  "NewChannelQueue = \<lparr>channel = []\<rparr>"

definition ChannelQueue_Publish :: "'m \<Rightarrow> 'm ChannelQueue \<Rightarrow> (go_error option \<times> 'm ChannelQueue) option" where
  "ChannelQueue_Publish message cq =
     (if length (channel cq) < channel_capacity then Some (None, cq\<lparr>channel := channel cq @ [message]\<rparr>)
      else None)"

definition ChannelQueue_NextMessage :: "'m ChannelQueue \<Rightarrow> ((go_error + 'm) \<times> 'm ChannelQueue) option" where
  "ChannelQueue_NextMessage cq = (case channel cq of
     [] \<Rightarrow> None
   | m # rest \<Rightarrow> Some (Inr m, cq\<lparr>channel := rest\<rparr>))"

definition channel_queue :: "('m ChannelQueue, 'm) queue" where
  "channel_queue = \<lparr>q_Publish = ChannelQueue_Publish, q_NextMessage = ChannelQueue_NextMessage\<rparr>"

interpretation cq: message_queue channel_queue channel channel_capacity
  by unfold_locales
    (auto simp: channel_queue_def ChannelQueue_Publish_def ChannelQueue_NextMessage_def
      split: if_splits list.splits)

section \<open>nats.go\<close>

text \<open>
  The stream configuration, with durations in nanoseconds. The constants \<^verbatim>\<open>LimitsPolicy\<close>, \<^verbatim>\<open>DiscardOld\<close> and
  \<^verbatim>\<open>FileStorage\<close> that the program always uses are left out.
\<close>

record StreamConfig =
  st_Name :: string
  st_Subjects :: "string list"
  st_MaxMsgs :: int
  st_MaxAge :: int
  st_MaxBytes :: int
  st_Replicas :: int
  st_Duplicates :: int

text \<open>
  The operations of the NATS client that the queue calls, on the state of the server. \<^verbatim>\<open>StreamInfo\<close>
  tells whether it returned a stream.
\<close>

record 'w nats =
  nats_Connect :: "string \<Rightarrow> ('w, go_error option) io"
  nats_JetStream :: "('w, go_error option) io"
  nats_StreamInfo :: "string \<Rightarrow> ('w, bool \<times> go_error option) io"
  nats_AddStream :: "StreamConfig \<Rightarrow> ('w, go_error option) io"
  nats_AddConsumer :: "string \<Rightarrow> ('w, go_error option) io"
  nats_QueueSubscribeSync :: "string \<Rightarrow> string \<Rightarrow> ('w, go_error option) io"
  nats_Publish :: "string \<Rightarrow> string \<Rightarrow> ('w, go_error option) io"
  nats_NextMsg :: "('w, go_error + string) io"
  nats_Ack :: "('w, go_error option) io"

definition ErrTimeout :: go_error where "ErrTimeout = ExtError ''nats: timeout''"

record JetStream =
  js_URL :: string
  js_StreamName :: string
  js_Connected :: bool
  js_Subscribed :: bool

definition NewJetstream :: "string \<Rightarrow> string \<Rightarrow> JetStream" where
  "NewJetstream url streamName = \<lparr>js_URL = url, js_StreamName = streamName, js_Connected = False, js_Subscribed = False\<rparr>"

definition js_Connect :: "'w nats \<Rightarrow> JetStream \<Rightarrow> ('w, go_error option \<times> JetStream) io" where
  "js_Connect N j w = (case nats_Connect N (js_URL j) w of
     (Some err, w') \<Rightarrow>
       ((Errorf_w ''nats: jetstream connect: failed to connect to NATS server: %w'' (Some err), j), w')
   | (None, w') \<Rightarrow> (case nats_JetStream N w' of
       (Some err, w'') \<Rightarrow>
         ((Errorf_w ''nats: jetstream connect: failed to get JetStream context: %w'' (Some err), j), w'')
     | (None, w'') \<Rightarrow> ((None, j\<lparr>js_Connected := True\<rparr>), w'')))"

definition CreateStreamIfNotExist :: "'w nats \<Rightarrow> StreamConfig \<Rightarrow> JetStream \<Rightarrow> ('w, go_error option) io" where
  "CreateStreamIfNotExist N streamConfig j w =
     (if \<not> js_Connected j then
        (Errorf_w ''nats: jetstream CreateStreamIfNotExist: %w''
           (Some (NewError ''cannot create stream due to nil connection'')), w)
      else case nats_StreamInfo N (js_StreamName j) w of
        ((found, err), w') \<Rightarrow>
          (if found \<and> err = None then (None, w')
           else case nats_AddStream N streamConfig w' of
             (Some err, w'') \<Rightarrow>
               (Errorf_w ''nats: jetstream CreateStreamIfNotExist: %w''
                  (Some (Wrap (''error while creating stream '' @ js_StreamName j @ ''. %s'') (Some err))), w'')
           | (None, w'') \<Rightarrow> (None, w'')))"

definition CreateConsumer :: "'w nats \<Rightarrow> JetStream \<Rightarrow> ('w, go_error option) io" where
  "CreateConsumer N j = nats_AddConsumer N (js_StreamName j)"

definition CreateSubscription :: "'w nats \<Rightarrow> JetStream \<Rightarrow> ('w, go_error option \<times> JetStream) io" where
  "CreateSubscription N j w =
     (case nats_QueueSubscribeSync N (js_StreamName j @ ''-DeliverSubject'') (js_StreamName j @ ''-TODO'') w of
        (Some err, w') \<Rightarrow>
          ((Errorf_w ''nats: jetstream CreateSubscription: failed to create subscription: %w'' (Some err), j), w')
      | (None, w') \<Rightarrow> ((None, j\<lparr>js_Subscribed := True\<rparr>), w'))"

definition js_Init :: "'w nats \<Rightarrow> StreamConfig \<Rightarrow> JetStream \<Rightarrow> ('w, go_error option \<times> JetStream) io" where
  "js_Init N streamConfig j w = (case CreateStreamIfNotExist N streamConfig j w of
     (Some err, w') \<Rightarrow> ((Errorf_w ''nats: jetstream init: failed to create stream: %w'' (Some err), j), w')
   | (None, w') \<Rightarrow> (case CreateConsumer N j w' of
       (Some err, w'') \<Rightarrow> ((Errorf_w ''nats: jetstream init: failed to create consumer: %w'' (Some err), j), w'')
     | (None, w'') \<Rightarrow> CreateSubscription N j w''))"

text \<open>The loop of \<^verbatim>\<open>publishWithRetry\<close> with \<open>n\<close> attempts left and the error of the last one.\<close>

fun publish_loop :: "('w, go_error option) io \<Rightarrow> nat \<Rightarrow> go_error option \<Rightarrow> ('w, go_error option) io" where
  "publish_loop attempt 0 err w = (err, w)"
| "publish_loop attempt (Suc n) err w = (case attempt w of
     (None, w') \<Rightarrow> (None, w')
   | (Some e, w') \<Rightarrow> publish_loop attempt n (Some e) w')"

definition maxRetries :: nat where "maxRetries = 5"

definition publishWithRetry :: "'w nats \<Rightarrow> string \<Rightarrow> string \<Rightarrow> ('w, go_error option) io" where
  "publishWithRetry N subject payload w = publish_loop (nats_Publish N subject payload) maxRetries None w"

text \<open>\<^verbatim>\<open>proto.Marshal\<close> and \<^verbatim>\<open>proto.Unmarshal\<close> are parameters.\<close>

definition JetStream_Publish ::
  "'w nats \<Rightarrow> ('m \<Rightarrow> go_error + string) \<Rightarrow> JetStream \<Rightarrow> 'm \<Rightarrow> ('w, go_error option) io" where
  "JetStream_Publish N Marshal j queuedMessage w = (case Marshal queuedMessage of
     Inl err \<Rightarrow> (Errorf_w ''nats: jetstream publish: failed to marshal queued message: %w'' (Some err), w)
   | Inr payload \<Rightarrow> (case publishWithRetry N (js_StreamName j) payload w of
       (Some err, w') \<Rightarrow> (Errorf_w ''nats: jetstream publish: failed to publish message: %w'' (Some err), w')
     | (None, w') \<Rightarrow> (None, w')))"

definition JetStream_NextMessage ::
  "'w nats \<Rightarrow> (string \<Rightarrow> go_error + 'm) \<Rightarrow> ('w, go_error + 'm) io" where
  "JetStream_NextMessage N Unmarshal w = (case nats_NextMsg N w of
     (Inl err, w') \<Rightarrow>
       (Inl (if err = ErrTimeout
             then Wrap ''nats: jetstream NextMessage: no message in the queue until the timeout is reached: %w'' (Some err)
             else err), w')
   | (Inr payload, w') \<Rightarrow> (case nats_Ack N w' of
       (_, w'') \<Rightarrow> (case Unmarshal payload of
          Inl err \<Rightarrow> (Inl (Wrap ''nats: jetstream NextMessage: failed to unmarshal message: %w'' (Some err)), w'')
        | Inr m \<Rightarrow> (Inr m, w''))))"

section \<open>Retries\<close>

text \<open>The state after \<open>i\<close> attempts, if all are made.\<close>

primrec after_attempts :: "('w, go_error option) io \<Rightarrow> nat \<Rightarrow> 'w \<Rightarrow> 'w" where
  "after_attempts attempt 0 w = w"
| "after_attempts attempt (Suc i) w = after_attempts attempt i (snd (attempt w))"

lemma publish_loop_success:
  "k < n \<Longrightarrow> fst (attempt (after_attempts attempt k w)) = None \<Longrightarrow>
     (\<forall>i<k. fst (attempt (after_attempts attempt i w)) \<noteq> None) \<Longrightarrow>
     publish_loop attempt n err w = (None, after_attempts attempt (Suc k) w)"
proof (induction n arbitrary: k w err)
  case (Suc n)
  show ?case
  proof (cases k)
    case 0
    then show ?thesis using Suc.prems(2) by (cases "attempt w") auto
  next
    case (Suc j)
    have "fst (attempt w) \<noteq> None" using Suc.prems(3) Suc by fastforce
    then obtain e w' where a: "attempt w = (Some e, w')" by (cases "attempt w") auto
    have "\<forall>i<j. fst (attempt (after_attempts attempt i w')) \<noteq> None"
    proof (intro allI impI)
      fix i assume "i < j"
      then show "fst (attempt (after_attempts attempt i w')) \<noteq> None"
        using Suc.prems(3)[rule_format, of "Suc i"] Suc a by simp
    qed
    then show ?thesis using Suc.IH[of j w' "Some e"] Suc.prems Suc a by simp
  qed
qed simp

lemma publish_loop_failure:
  "\<forall>i<n. fst (attempt (after_attempts attempt i w)) \<noteq> None \<Longrightarrow> 0 < n \<or> err \<noteq> None \<Longrightarrow>
     \<exists>e. publish_loop attempt n err w = (Some e, after_attempts attempt n w)"
proof (induction n arbitrary: w err)
  case (Suc n)
  have "fst (attempt w) \<noteq> None" using Suc.prems(1) by fastforce
  then obtain e w' where a: "attempt w = (Some e, w')" by (cases "attempt w") auto
  have "\<forall>i<n. fst (attempt (after_attempts attempt i w')) \<noteq> None"
  proof (intro allI impI)
    fix i assume "i < n"
    then show "fst (attempt (after_attempts attempt i w')) \<noteq> None"
      using Suc.prems(1)[rule_format, of "Suc i"] a by simp
  qed
  then show ?case using Suc.IH[of w' "Some e"] a by simp
qed auto


text \<open>A server that refuses the first two messages it is sent.\<close>

definition flaky_nats :: "nat nats" where
  "flaky_nats = \<lparr>nats_Connect = (\<lambda>_ w. (None, w)), nats_JetStream = (\<lambda>w. (None, w)),
     nats_StreamInfo = (\<lambda>_ w. ((False, None), w)), nats_AddStream = (\<lambda>_ w. (None, w)),
     nats_AddConsumer = (\<lambda>_ w. (None, w)), nats_QueueSubscribeSync = (\<lambda>_ _ w. (None, w)),
     nats_Publish = (\<lambda>_ _ w. (if w < 2 then Some ErrTimeout else None, Suc w)),
     nats_NextMsg = (\<lambda>w. (Inl ErrTimeout, w)), nats_Ack = (\<lambda>w. (None, w))\<rparr>"


end
