(* ===== verification/EventServer.thy ===== *)
theory EventServer
  imports Queue Store
begin

text \<open>
  The ingestion of events: the gRPC service \<^verbatim>\<open>Event\<close> (\<^verbatim>\<open>pkg/server/event_server.go\<close>), which puts an event
  on one of two queues, and the worker (\<^verbatim>\<open>pkg/server/ingestion_worker.go\<close>), which for each queue has
  a goroutine that reads the queue into a channel and one that stamps and stores what comes out of it.
  The goroutines and the callers of the service interleave: a run is a sequence of their steps.
\<close>

section \<open>The service\<close>

text \<open>The two queues: of general events and of detection events.\<close>

type_synonym 'q queues = "'q \<times> 'q"

definition IngestEvent ::
  "('q, Event) queue \<Rightarrow> IngestEventRequest \<Rightarrow> 'q queues \<Rightarrow> (IngestEventResponse reply \<times> 'q queues) option" where
  "IngestEvent Q request qs = (case ier_Event request of
     None \<Rightarrow> Some ((None, Some (StatusErr InvalidArgument ''required event is empty'')), qs)
   | Some event \<Rightarrow>
       (case (if e_Type event = EventTypeDetection
              then map_option (\<lambda>(err, q). (err, (fst qs, q))) (q_Publish Q event (snd qs))
              else map_option (\<lambda>(err, q). (err, (q, snd qs))) (q_Publish Q event (fst qs))) of
          None \<Rightarrow> None
        | Some (Some err, qs') \<Rightarrow> Some ((None, Some (StatusErr Internal ''internal server error'')), qs')
        | Some (None, qs') \<Rightarrow> Some ((Some \<lparr>iep_Success = True\<rparr>, None), qs')))"

definition GetEvents :: "'s event_store \<Rightarrow> GetEventsRequest \<Rightarrow> ('s, GetEventsResponse reply) io" where
  "GetEvents es request s =
     (let limit = (if ger_Limit request = 0 then 1000 else ger_Limit request);
          ((events, err), s') =
            (if ger_Namespace request = [] then es_GetAll es (ucast limit) s
             else es_FindByNamespace es (ger_Namespace request) (ucast limit) s)
      in ((Some \<lparr>gep_Events = events\<rparr>, None), s'))"

section \<open>The worker\<close>

definition processEvent :: "'s event_store \<Rightarrow> Timestamp \<Rightarrow> string \<Rightarrow> Event \<Rightarrow> 's \<Rightarrow> Event \<times> 's" where
  "processEvent es now uid event s =
     (let event' = event\<lparr>e_ServerTimestamp := Some now, e_Uid := uid\<rparr>
      in (event', snd (es_Add es event' s)))"

text \<open>
  The state of the whole: the queues, the channel between the two goroutines of each loop (one for
  general, one for detection events), and the database.
\<close>

record ('q, 's) ingestion =
  in_queues :: "'q queues"
  in_chan :: "Event list"
  in_chan_detection :: "Event list"
  in_store :: 's

definition eventChan_capacity :: nat where "eventChan_capacity = 1000"

datatype lane = General | Detection

definition lane_of :: "Event \<Rightarrow> lane" where
  "lane_of e = (if e_Type e = EventTypeDetection then Detection else General)"

fun lane_queue :: "lane \<Rightarrow> 'q queues \<Rightarrow> 'q" where
  "lane_queue General qs = fst qs"
| "lane_queue Detection qs = snd qs"

fun set_lane_queue :: "lane \<Rightarrow> 'q \<Rightarrow> 'q queues \<Rightarrow> 'q queues" where
  "set_lane_queue General q qs = (q, snd qs)"
| "set_lane_queue Detection q qs = (fst qs, q)"

fun lane_chan :: "lane \<Rightarrow> ('q, 's) ingestion \<Rightarrow> Event list" where
  "lane_chan General st = in_chan st"
| "lane_chan Detection st = in_chan_detection st"

fun set_lane_chan :: "lane \<Rightarrow> Event list \<Rightarrow> ('q, 's) ingestion \<Rightarrow> ('q, 's) ingestion" where
  "set_lane_chan General c st = st\<lparr>in_chan := c\<rparr>"
| "set_lane_chan Detection c st = st\<lparr>in_chan_detection := c\<rparr>"

text \<open>What a step does that matters outside.\<close>

datatype ingest_label =
    Replied IngestEventRequest "IngestEventResponse reply"
  | Moved lane
  | Stored lane Event Event

text \<open>
  The steps: a call of \<^verbatim>\<open>IngestEvent\<close> that does not block; a round of the reading goroutine that got a
  message (and there is room in the channel) or an error; a round of the storing goroutine.
\<close>

inductive ingest_step ::
  "('q, Event) queue \<Rightarrow> 's event_store \<Rightarrow> ('q, 's) ingestion \<Rightarrow> ingest_label \<Rightarrow> ('q, 's) ingestion \<Rightarrow> bool"
  for Q es where
  step_ingest: "IngestEvent Q req (in_queues st) = Some (r, qs) \<Longrightarrow>
     ingest_step Q es st (Replied req r) (st\<lparr>in_queues := qs\<rparr>)"
| step_move: "q_NextMessage Q (lane_queue l (in_queues st)) = Some (Inr event, q) \<Longrightarrow>
     length (lane_chan l st) < eventChan_capacity \<Longrightarrow>
     ingest_step Q es st (Moved l)
       (set_lane_chan l (lane_chan l st @ [event]) (st\<lparr>in_queues := set_lane_queue l q (in_queues st)\<rparr>))"
| step_move_error: "q_NextMessage Q (lane_queue l (in_queues st)) = Some (Inl err, q) \<Longrightarrow>
     ingest_step Q es st (Moved l) (st\<lparr>in_queues := set_lane_queue l q (in_queues st)\<rparr>)"
| step_store: "lane_chan l st = event # rest \<Longrightarrow> processEvent es now uid event (in_store st) = (event', s') \<Longrightarrow>
     ingest_step Q es st (Stored l event event') (set_lane_chan l rest (st\<lparr>in_store := s'\<rparr>))"

inductive ingest_run ::
  "('q, Event) queue \<Rightarrow> 's event_store \<Rightarrow> ('q, 's) ingestion \<Rightarrow> ingest_label list \<Rightarrow> ('q, 's) ingestion \<Rightarrow> bool"
  for Q es where
  run_empty: "ingest_run Q es st [] st"
| run_step: "ingest_run Q es st tr st' \<Longrightarrow> ingest_step Q es st' a st'' \<Longrightarrow> ingest_run Q es st (tr @ [a]) st''"

text \<open>The events that were accepted for a lane, and those that were stored from it, in order.\<close>

fun accepted_by :: "lane \<Rightarrow> ingest_label \<Rightarrow> Event list" where
  "accepted_by l (Replied req r) = (case ier_Event req of
     Some e \<Rightarrow> if r = (Some \<lparr>iep_Success = True\<rparr>, None) \<and> lane_of e = l then [e] else []
   | None \<Rightarrow> [])"
| "accepted_by l _ = []"

definition accepted :: "lane \<Rightarrow> ingest_label list \<Rightarrow> Event list" where
  "accepted l tr = concat (map (accepted_by l) tr)"

fun taken_by :: "lane \<Rightarrow> ingest_label \<Rightarrow> Event list" where
  "taken_by l (Stored l' e e') = (if l = l' then [e] else [])"
| "taken_by l _ = []"

definition taken :: "lane \<Rightarrow> ingest_label list \<Rightarrow> Event list" where
  "taken l tr = concat (map (taken_by l) tr)"

lemma lane_simps [simp]:
  "lane_queue l (set_lane_queue l' q qs) = (if l = l' then q else lane_queue l qs)"
  "lane_chan l (set_lane_chan l' c st) = (if l = l' then c else lane_chan l st)"
  "in_queues (set_lane_chan l' c st) = in_queues st"
  "in_store (set_lane_chan l' c st) = in_store st"
  "lane_chan l (st\<lparr>in_queues := qs'\<rparr>) = lane_chan l st"
  "lane_chan l (st\<lparr>in_store := s\<rparr>) = lane_chan l st"
  by (cases l; cases l'; simp)+

lemma accepted_snoc: "accepted l (tr @ [a]) = accepted l tr @ accepted_by l a"
  by (simp add: accepted_def)

lemma taken_snoc: "taken l (tr @ [a]) = taken l tr @ taken_by l a"
  by (simp add: taken_def)

section \<open>No event is lost, repeated or overtaken\<close>

definition lane_in_order :: "('q \<Rightarrow> Event list) \<Rightarrow> lane \<Rightarrow> ingest_label list \<Rightarrow> ('q, 's) ingestion \<Rightarrow> bool" where
  "lane_in_order waiting l tr st \<longleftrightarrow>
     accepted l tr = taken l tr @ lane_chan l st @ waiting (lane_queue l (in_queues st))"

lemma IngestEvent_cases:
  assumes "IngestEvent Q req qs = Some (r, qs')"
  obtains (no_event) "ier_Event req = None" "snd r \<noteq> None" "qs' = qs"
  | (failed) e q err where "ier_Event req = Some e" "snd r \<noteq> None"
      "q_Publish Q e (lane_queue (lane_of e) qs) = Some (Some err, q)" "qs' = set_lane_queue (lane_of e) q qs"
  | (published) e q where "ier_Event req = Some e" "r = (Some \<lparr>iep_Success = True\<rparr>, None)"
      "q_Publish Q e (lane_queue (lane_of e) qs) = Some (None, q)" "qs' = set_lane_queue (lane_of e) q qs"
  using assms
  by (auto simp: IngestEvent_def lane_of_def split: option.splits if_splits)

text \<open>The contract of the queue at the type of events; the worker's lemmas rest on it.\<close>

locale event_queue = message_queue Q waiting capacity
  for Q :: "('q, Event) queue" and waiting :: "'q \<Rightarrow> Event list" and capacity :: nat
begin

lemma ingest_step_in_order:
  assumes "ingest_step Q es st a st'" "lane_in_order waiting l tr st"
  shows "lane_in_order waiting l (tr @ [a]) st'"
  using assms(1)
proof (cases rule: ingest_step.cases)
  case (step_ingest req r qs)
  from step_ingest(3) show ?thesis
  proof (cases rule: IngestEvent_cases)
    case no_event
    then show ?thesis using assms(2) step_ingest
      by (auto simp: lane_in_order_def accepted_snoc taken_snoc)
  next
    case (failed e q err)
    then show ?thesis using assms(2) step_ingest publish_err[OF failed(3)]
      by (auto simp: lane_in_order_def accepted_snoc taken_snoc)
  next
    case (published e q)
    then show ?thesis using assms(2) step_ingest publish_ok[OF published(3)]
      by (auto simp: lane_in_order_def accepted_snoc taken_snoc)
  qed
next
  case (step_move l' event q)
  then show ?thesis using assms(2) next_ok[OF step_move(3)]
    by (auto simp: lane_in_order_def accepted_snoc taken_snoc)
next
  case (step_move_error l' err q)
  then show ?thesis using assms(2) next_err[OF step_move_error(3)]
    by (auto simp: lane_in_order_def accepted_snoc taken_snoc)
next
  case (step_store l' event rest now uid event' s')
  then show ?thesis using assms(2)
    by (auto simp: lane_in_order_def accepted_snoc taken_snoc)
qed

lemma ingest_run_in_order:
  "ingest_run Q es st tr st' \<Longrightarrow> lane_in_order waiting l [] st \<Longrightarrow> lane_in_order waiting l tr st'"
  by (induction rule: ingest_run.induct) (auto intro: ingest_step_in_order)

lemma ingest_step_bounded:
  assumes "ingest_step Q es st a st'" "length (lane_chan l st) \<le> eventChan_capacity"
    "length (waiting (lane_queue l (in_queues st))) \<le> capacity"
  shows "length (lane_chan l st') \<le> eventChan_capacity \<and> length (waiting (lane_queue l (in_queues st'))) \<le> capacity"
  using assms(1)
proof (cases rule: ingest_step.cases)
  case (step_ingest req r qs)
  from step_ingest(3) show ?thesis
  proof (cases rule: IngestEvent_cases)
    case (failed e q err)
    then show ?thesis using assms step_ingest publish_err[OF failed(3)] by auto
  next
    case (published e q)
    then show ?thesis using assms step_ingest publish_bound[OF published(3)] by auto
  qed (use assms step_ingest in auto)
next
  case (step_move l' event q)
  then show ?thesis using assms(2,3) next_ok[OF step_move(3)] by auto
next
  case (step_move_error l' err q)
  then show ?thesis using assms(2,3) next_err[OF step_move_error(3)] by auto
next
  case (step_store l' event rest now uid event' s')
  then show ?thesis using assms(2,3) by auto
qed

lemma ingest_run_bounded:
  "ingest_run Q es st tr st' \<Longrightarrow> length (lane_chan l st) \<le> eventChan_capacity \<Longrightarrow>
     length (waiting (lane_queue l (in_queues st))) \<le> capacity \<Longrightarrow>
     length (lane_chan l st') \<le> eventChan_capacity \<and> length (waiting (lane_queue l (in_queues st'))) \<le> capacity"
  by (induction rule: ingest_run.induct) (auto dest: ingest_step_bounded)

text \<open>The worker never stalls: while an event waits, one of its goroutines can take a step.\<close>

lemma worker_can_step:
  assumes "lane_chan l st \<noteq> [] \<or> waiting (lane_queue l (in_queues st)) \<noteq> []"
  shows "\<exists>a st'. ingest_step Q es st a st' \<and> (\<forall>req r. a \<noteq> Replied req r)"
proof (cases "lane_chan l st")
  case (Cons event rest)
  have "ingest_step Q es st (Stored l event (fst (processEvent es 0 [] event (in_store st))))
     (set_lane_chan l rest (st\<lparr>in_store := snd (processEvent es 0 [] event (in_store st))\<rparr>))"
    using Cons by (intro step_store[where now = 0 and uid = "[]"]) auto
  then show ?thesis by blast
next
  case Nil
  then obtain res q where res: "q_NextMessage Q (lane_queue l (in_queues st)) = Some (res, q)"
    using assms next_blocks[of "lane_queue l (in_queues st)"] by fastforce
  show ?thesis
  proof (cases res)
    case (Inl err)
    then show ?thesis using res step_move_error[of Q l st err q es] by blast
  next
    case (Inr event)
    have "length (lane_chan l st) < eventChan_capacity" using Nil by (simp add: eventChan_capacity_def)
    then show ?thesis using res Inr step_move[of Q l st event q es] by blast
  qed
qed

end

interpretation ceq: event_queue channel_queue channel channel_capacity ..

section \<open>Properties\<close>

text \<open>The server as it starts: empty queues, empty channels.\<close>

definition start_ingestion :: "'s \<Rightarrow> (Event ChannelQueue, 's) ingestion" where
  "start_ingestion s = \<lparr>in_queues = (NewChannelQueue, NewChannelQueue), in_chan = [], in_chan_detection = [],
     in_store = s\<rparr>"

lemma start_in_order: "lane_in_order channel l [] (start_ingestion s)"
  by (cases l) (auto simp: lane_in_order_def accepted_def taken_def start_ingestion_def NewChannelQueue_def)


definition null_store :: "nat event_store" where
  "null_store = \<lparr>es_GetAll = (\<lambda>_ s. ((Some [], None), s)), es_FindByNamespace = (\<lambda>_ _ s. ((Some [], None), s)),
     es_FindWhereAlertNotSent = (\<lambda>s. ((Some [], None), s)), es_Add = (\<lambda>_ s. (None, Suc s)),
     es_UpdateAlertSent = (\<lambda>_ s. (None, s))\<rparr>"

definition sample_request :: IngestEventRequest where
  "sample_request = \<lparr>ier_Event = Some NewEvent\<rparr>"

definition sample_trace :: "ingest_label list" where
  "sample_trace = [Replied sample_request (Some \<lparr>iep_Success = True\<rparr>, None)]"

lemma sample_ingest: "\<exists>st. ingest_run channel_queue null_store (start_ingestion 0) sample_trace st"
proof -
  obtain qs where "IngestEvent channel_queue sample_request (in_queues (start_ingestion (0::nat))) =
      Some ((Some \<lparr>iep_Success = True\<rparr>, None), qs)"
    by (simp add: IngestEvent_def channel_queue_def ChannelQueue_Publish_def start_ingestion_def NewChannelQueue_def
        sample_request_def NewEvent_def EventTypeDetection_def channel_capacity_def)
  then have "ingest_run channel_queue null_store (start_ingestion 0)
      ([] @ [Replied sample_request (Some \<lparr>iep_Success = True\<rparr>, None)]) ((start_ingestion 0)\<lparr>in_queues := qs\<rparr>)"
    by (intro run_step[OF run_empty] step_ingest)
  then show ?thesis unfolding sample_trace_def by auto
qed




end
