(* ===== verification/DgraphEventStore.thy ===== *)
theory DgraphEventStore
  imports DgraphConfigStore EventServer
begin

text \<open>
  The event store of \<^verbatim>\<open>pkg/server/dgraphstore/dgraph_event_store.go\<close>: the conversions between events and
  their nodes, the queries, the upsert of pods and the insertion of an event. The text of a
  \<^verbatim>\<open>time.Time\<close> in JSON and its parser are a parameter. A nil pointer dereference, which ends the
  process, is the outcome \<open>None\<close>.
\<close>

section \<open>Nodes\<close>

record pod_node =
  dp_UID :: string
  dp_DType :: "string list"
  dp_Namespace :: string
  dp_Name :: string
  dp_PodUID :: string
  dp_Labels :: string

record target_node =
  dt_UID :: string
  dt_DType :: "string list"
  dt_ViolatedProcesses :: string
  dt_ViolatedFiles :: string
  dt_FalcoAlert :: string
  dt_Pod :: "pod_node option"
  dt_DetectionDataType :: string
  dt_DetectionData :: string

record event_node =
  dev_UID :: string
  dev_DType :: "string list"
  dev_Type :: string
  dev_EventUID :: string
  dev_ClientTimestamp :: "Timestamp option"
  dev_ServerTimestamp :: "Timestamp option"
  dev_AlertSentAt :: "Timestamp option"
  dev_Targets :: "target_node list"

record time_codec =
  tc_format :: "Timestamp \<Rightarrow> string"
  tc_parse :: "string \<Rightarrow> Timestamp option"

definition omit_time :: "time_codec \<Rightarrow> string \<Rightarrow> Timestamp option \<Rightarrow> (string \<times> json) list" where
  "omit_time T k t = omit_pstr k (map_option (tc_format T) t)"

definition marshal_pod_node :: "pod_node \<Rightarrow> json" where
  "marshal_pod_node p = JObj (omit_str ''uid'' (dp_UID p) @ omit_types (dp_DType p) @
     omit_str ''pod_namespace'' (dp_Namespace p) @ omit_str ''pod_name'' (dp_Name p) @
     omit_str ''pod_uid'' (dp_PodUID p) @ omit_str ''pod_labels'' (dp_Labels p))"

definition marshal_target_node :: "target_node \<Rightarrow> json" where
  "marshal_target_node t = JObj (omit_str ''uid'' (dt_UID t) @ omit_types (dt_DType t) @
     omit_str ''target_violated_processes'' (dt_ViolatedProcesses t) @
     omit_str ''target_violated_files'' (dt_ViolatedFiles t) @
     omit_str ''target_falco_alert'' (dt_FalcoAlert t) @
     (case dt_Pod t of None \<Rightarrow> [] | Some p \<Rightarrow> [(''pod'', marshal_pod_node p)]) @
     omit_str ''tarian_detection_data_type'' (dt_DetectionDataType t) @
     omit_str ''tarian_detection_data'' (dt_DetectionData t))"

definition marshal_event_node :: "time_codec \<Rightarrow> event_node \<Rightarrow> json" where
  "marshal_event_node T e = JObj (omit_str ''uid'' (dev_UID e) @ omit_types (dev_DType e) @
     omit_str ''event_type'' (dev_Type e) @ omit_str ''event_uid'' (dev_EventUID e) @
     omit_time T ''event_client_timestamp'' (dev_ClientTimestamp e) @
     omit_time T ''event_server_timestamp'' (dev_ServerTimestamp e) @
     omit_time T ''event_alert_sent_at'' (dev_AlertSentAt e) @
     omit_list ''targets'' marshal_target_node (Some (dev_Targets e)))"

definition unmarshal_pod_node :: "json \<Rightarrow> pod_node option" where
  "unmarshal_pod_node j = (case read_members j of None \<Rightarrow> None | Some m \<Rightarrow>
     (case (read_str (member m ''uid''), read_types (member m ''dgraph.type''),
            read_str (member m ''pod_namespace''), read_str (member m ''pod_name''),
            read_str (member m ''pod_uid''), read_str (member m ''pod_labels'')) of
        (Some u, Some ts, Some ns, Some nm, Some pu, Some ls) \<Rightarrow>
          Some \<lparr>dp_UID = u, dp_DType = ts, dp_Namespace = ns, dp_Name = nm, dp_PodUID = pu, dp_Labels = ls\<rparr>
      | _ \<Rightarrow> None))"

definition unmarshal_target_node :: "json \<Rightarrow> target_node option" where
  "unmarshal_target_node j = (case read_members j of None \<Rightarrow> None | Some m \<Rightarrow>
     (case (read_str (member m ''uid''), read_types (member m ''dgraph.type''),
            read_str (member m ''target_violated_processes''), read_str (member m ''target_violated_files''),
            read_str (member m ''target_falco_alert''), read_pointer unmarshal_pod_node (member m ''pod''),
            read_str (member m ''tarian_detection_data_type''), read_str (member m ''tarian_detection_data'')) of
        (Some u, Some ts, Some vp, Some vf, Some fa, Some p, Some ty, Some dd) \<Rightarrow>
          Some \<lparr>dt_UID = u, dt_DType = ts, dt_ViolatedProcesses = vp, dt_ViolatedFiles = vf, dt_FalcoAlert = fa,
                dt_Pod = p, dt_DetectionDataType = ty, dt_DetectionData = dd\<rparr>
      | _ \<Rightarrow> None))"

fun read_time :: "time_codec \<Rightarrow> json \<Rightarrow> Timestamp option option" where
  "read_time T JNull = Some None"
| "read_time T (JStr s) = map_option Some (tc_parse T s)"
| "read_time T _ = None"

definition unmarshal_event_node :: "time_codec \<Rightarrow> json \<Rightarrow> event_node option" where
  "unmarshal_event_node T j = (case read_members j of None \<Rightarrow> None | Some m \<Rightarrow>
     (case (read_str (member m ''uid''), read_types (member m ''dgraph.type''),
            read_str (member m ''event_type''), read_str (member m ''event_uid''),
            read_time T (member m ''event_client_timestamp''), read_time T (member m ''event_server_timestamp''),
            read_time T (member m ''event_alert_sent_at''), read_slice unmarshal_target_node (member m ''targets'')) of
        (Some u, Some ts, Some ty, Some eu, Some ct, Some st, Some at, Some tg) \<Rightarrow>
          Some \<lparr>dev_UID = u, dev_DType = ts, dev_Type = ty, dev_EventUID = eu, dev_ClientTimestamp = ct,
                dev_ServerTimestamp = st, dev_AlertSentAt = at, dev_Targets = elems tg\<rparr>
      | _ \<Rightarrow> None))"

section \<open>From nodes to events\<close>

definition toPbTarget :: "target_node \<Rightarrow> Target" where
  "toPbTarget evtTarget =
     (let t0 = zero_Target;
          t1 = (if dt_ViolatedProcesses evtTarget \<noteq> []
                then t0\<lparr>t_ViolatedProcesses := unmarshal_or None (read_slice unmarshal_Process) (dt_ViolatedProcesses evtTarget)\<rparr>
                else t0);
          t2 = (if dt_ViolatedFiles evtTarget \<noteq> []
                then t1\<lparr>t_ViolatedFiles := unmarshal_or None (read_slice unmarshal_ViolatedFile) (dt_ViolatedFiles evtTarget)\<rparr>
                else t1);
          t3 = (if dt_FalcoAlert evtTarget \<noteq> []
                then t2\<lparr>t_FalcoAlert := unmarshal_or None (read_pointer unmarshal_FalcoAlert) (dt_FalcoAlert evtTarget)\<rparr>
                else t2);
          t4 = (case dt_Pod evtTarget of
                  None \<Rightarrow> t3
                | Some p \<Rightarrow> t3\<lparr>t_Pod := Some \<lparr>pod_Uid = dp_PodUID p, pod_Namespace = dp_Namespace p, pod_Name = dp_Name p,
                                pod_Labels = unmarshal_or None (read_slice unmarshal_Label) (dp_Labels p)\<rparr>\<rparr>);
          t5 = (if t_DetectionDataType t4 \<noteq> [] then t4\<lparr>t_DetectionDataType := dt_DetectionDataType evtTarget\<rparr> else t4);
          t6 = (if t_DetectionData t5 \<noteq> [] then t5\<lparr>t_DetectionData := dt_DetectionData evtTarget\<rparr> else t5)
      in t6)"

definition toPbEvent :: "event_node \<Rightarrow> Event" where
  "toPbEvent evt = NewEvent\<lparr>e_Type := dev_Type evt, e_Uid := dev_EventUID evt,
     e_ServerTimestamp := dev_ServerTimestamp evt, e_ClientTimestamp := dev_ClientTimestamp evt,
     e_AlertSentAt := dev_AlertSentAt evt, e_Targets := Some (map toPbTarget (dev_Targets evt))\<rparr>"

definition toPbEvents :: "event_node list \<Rightarrow> Event slice" where
  "toPbEvents es = Some (map toPbEvent es)"

section \<open>From events to nodes\<close>

definition dgraphTargetFromPb :: "nat \<Rightarrow> Target \<Rightarrow> target_node" where
  "dgraphTargetFromPb i pbTarget =
     \<lparr>dt_UID = ''_:target'' @ Itoa (int i), dt_DType = [''Target''],
      dt_ViolatedProcesses = (if elems (t_ViolatedProcesses pbTarget) \<noteq> []
        then render (marshal_slice marshal_Process (t_ViolatedProcesses pbTarget)) else []),
      dt_ViolatedFiles = (if elems (t_ViolatedFiles pbTarget) \<noteq> []
        then render (marshal_slice marshal_ViolatedFile (t_ViolatedFiles pbTarget)) else []),
      dt_FalcoAlert = (case t_FalcoAlert pbTarget of None \<Rightarrow> [] | Some a \<Rightarrow> render (marshal_FalcoAlert a)),
      dt_Pod = map_option (\<lambda>p. \<lparr>dp_UID = ''_:pod'' @ Itoa (int i), dp_DType = [''Pod''],
        dp_Namespace = pod_Namespace p, dp_Name = pod_Name p, dp_PodUID = pod_Uid p,
        dp_Labels = render (marshal_slice marshal_Label (pod_Labels p))\<rparr>) (t_Pod pbTarget),
      dt_DetectionDataType = t_DetectionDataType pbTarget,
      dt_DetectionData = t_DetectionData pbTarget\<rparr>"

definition dgraphEventFromPb :: "Event \<Rightarrow> event_node" where
  "dgraphEventFromPb pbEvent =
     \<lparr>dev_UID = ''_:event'', dev_DType = [''Event''], dev_Type = e_Type pbEvent, dev_EventUID = e_Uid pbEvent,
      dev_ClientTimestamp = e_ClientTimestamp pbEvent, dev_ServerTimestamp = e_ServerTimestamp pbEvent,
      dev_AlertSentAt = e_AlertSentAt pbEvent,
      dev_Targets = map (\<lambda>(i, t). dgraphTargetFromPb i t) (enumerate 0 (elems (e_Targets pbEvent)))\<rparr>"

section \<open>The store\<close>

definition eventFields :: "dql_field list" where
  "eventFields = [Fld ''uid'', Fld ''dgraph.type'', Fld ''event_type'', Fld ''event_uid'',
     Fld ''event_client_timestamp'', Fld ''event_server_timestamp'', Fld ''event_alert_sent_at'',
     Sub ''targets'' [Fld ''uid'', Fld ''target_violated_processes'', Fld ''target_violated_files'',
       Fld ''target_falco_alert'',
       Sub ''pod'' [Fld ''uid'', Fld ''pod_uid'', Fld ''pod_namespace'', Fld ''pod_name'', Fld ''pod_labels''],
       Fld ''target_detection_data_type'', Fld ''target_detection_data'']]"

definition event_GetAll :: "'s dgraph \<Rightarrow> time_codec \<Rightarrow> 64 word \<Rightarrow> ('s, Event slice \<times> go_error option) io" where
  "event_GetAll D T limit s =
     (case query_list D (unmarshal_event_node T) \<lparr>q_block = ''events'', q_type = ''Event'', q_first = None,
            q_filter = FNot (FEq ''event_type'' EventTypeDetection), q_fields = eventFields\<rparr> s of
        (Inl err, s') \<Rightarrow> ((None, Some err), s')
      | (Inr es, s') \<Rightarrow> ((toPbEvents es, None), s'))"

definition event_FindByNamespace :: "string \<Rightarrow> 64 word \<Rightarrow> ('s, Event slice \<times> go_error option) io" where
  "event_FindByNamespace namespace limit s = ((None, Some (NewError ''Unimplemented'')), s)"

definition event_FindWhereAlertNotSent :: "'s dgraph \<Rightarrow> time_codec \<Rightarrow> ('s, Event slice \<times> go_error option) io" where
  "event_FindWhereAlertNotSent D T s =
     (case query_list D (unmarshal_event_node T) \<lparr>q_block = ''events'', q_type = ''Event'', q_first = None,
            q_filter = FAnd (FNot (FEq ''event_type'' EventTypeDetection)) (FNot (FHas ''event_alert_sent_at'')),
            q_fields = eventFields\<rparr> s of
        (Inl err, s') \<Rightarrow> ((None, Some err), s')
      | (Inr es, s') \<Rightarrow> ((toPbEvents es, None), s'))"

definition event_UpdateAlertSent :: "'s dgraph \<Rightarrow> time_codec \<Rightarrow> Timestamp \<Rightarrow> string \<Rightarrow> ('s, go_error option) io" where
  "event_UpdateAlertSent D T now uid s =
     (let payload = render (marshal_event_node T \<lparr>dev_UID = ''uid(evt)'', dev_DType = [], dev_Type = [],
            dev_EventUID = [], dev_ClientTimestamp = None, dev_ServerTimestamp = None,
            dev_AlertSentAt = Some now, dev_Targets = []\<rparr>);
          ((resp, err), s') = dg_Do D \<lparr>u_pred = ''event_uid'', u_value = uid, u_returns = False, u_SetJson = payload\<rparr> s
      in (err, s'))"

text \<open>
  \<^verbatim>\<open>UpsertPod\<close>. The response is read before the error is looked at; a nil response is a nil pointer
  dereference. An error of the request survives only when the response names the uid of a new node.
\<close>

definition UpsertPod :: "'s dgraph \<Rightarrow> pod_node \<Rightarrow> ('s, (pod_node \<times> go_error option) option) io" where
  "UpsertPod D dgraphPod s =
     (let pod1 = dgraphPod\<lparr>dp_UID := ''uid(p)''\<rparr>;
          payload = render (marshal_pod_node pod1)
      in case dg_Do D \<lparr>u_pred = ''pod_uid'', u_value = dp_PodUID pod1, u_returns = True, u_SetJson = payload\<rparr> s of
           ((None, err), s') \<Rightarrow> (None, s')
         | ((Some resp, err), s') \<Rightarrow>
             (case map_get (r_Uids resp) ''uid(p)'' of
                Some podUID \<Rightarrow> (Some (if podUID \<noteq> [] then pod1\<lparr>dp_UID := podUID\<rparr> else pod1, err), s')
              | None \<Rightarrow> (case unmarshal_list ''pod'' (\<lambda>j. Option.bind (read_members j) (\<lambda>m. read_str (member m ''uid''))) (r_Json resp) of
                    None \<Rightarrow> (Some (pod1, Some unmarshal_error), s')
                  | Some uids \<Rightarrow>
                      (let podUID = (case uids of [] \<Rightarrow> [] | u # _ \<Rightarrow> u)
                       in (Some (if podUID \<noteq> [] then pod1\<lparr>dp_UID := podUID\<rparr> else pod1, None), s')))))"

text \<open>The loop over the targets: the pod of a target is shared with the event, so its new uid is kept.\<close>

fun upsert_targets :: "'s dgraph \<Rightarrow> target_node list \<Rightarrow> ('s, (go_error + target_node list) option) io" where
  "upsert_targets D [] s = (Some (Inr []), s)"
| "upsert_targets D (t # ts) s = (case dt_Pod t of
     None \<Rightarrow> (case upsert_targets D ts s of
        (Some (Inr ts'), s') \<Rightarrow> (Some (Inr (t # ts')), s')
      | r \<Rightarrow> r)
   | Some p \<Rightarrow> (case UpsertPod D p s of
        (None, s') \<Rightarrow> (None, s')
      | (Some (p', Some err), s') \<Rightarrow> (Some (Inl err), s')
      | (Some (p', None), s') \<Rightarrow> (case upsert_targets D ts s' of
           (Some (Inr ts'), s'') \<Rightarrow> (Some (Inr (t\<lparr>dt_Pod := Some (p\<lparr>dp_UID := dp_UID p'\<rparr>)\<rparr> # ts')), s'')
         | r \<Rightarrow> r)))"

definition event_Add :: "'s dgraph \<Rightarrow> time_codec \<Rightarrow> Event \<Rightarrow> ('s, go_error option option) io" where
  "event_Add D T evt s =
     (let dgraphEvent = dgraphEventFromPb evt
      in case upsert_targets D (dev_Targets dgraphEvent) s of
           (None, s') \<Rightarrow> (None, s')
         | (Some (Inl err), s') \<Rightarrow> (Some (Some err), s')
         | (Some (Inr ts), s') \<Rightarrow>
             (case dg_SetJson D (render (marshal_event_node T (dgraphEvent\<lparr>dev_Targets := ts\<rparr>))) s' of
                (err, s'') \<Rightarrow> (Some err, s'')))"

text \<open>The store; a panic of \<^verbatim>\<open>Add\<close>, which ends the server, is the error \<open>crashed\<close> here.\<close>

definition crashed :: go_error where "crashed = ExtError ''panic: nil pointer dereference''"

definition dgraphEventStore :: "'s dgraph \<Rightarrow> time_codec \<Rightarrow> Timestamp \<Rightarrow> 's event_store" where
  "dgraphEventStore D T now = \<lparr>es_GetAll = event_GetAll D T, es_FindByNamespace = event_FindByNamespace,
     es_FindWhereAlertNotSent = event_FindWhereAlertNotSent D T,
     es_Add = (\<lambda>e s. case event_Add D T e s of (None, s') \<Rightarrow> (Some crashed, s') | (Some err, s') \<Rightarrow> (err, s')),
     es_UpdateAlertSent = event_UpdateAlertSent D T now\<rparr>"

section \<open>Round trip\<close>

text \<open>What of a target survives the store: empty lists become nil, and the detection data is lost.\<close>

definition stored_target :: "Target \<Rightarrow> Target" where
  "stored_target t = t\<lparr>
     t_ViolatedProcesses := (if elems (t_ViolatedProcesses t) = [] then None else t_ViolatedProcesses t),
     t_ViolatedFiles := (if elems (t_ViolatedFiles t) = [] then None else t_ViolatedFiles t),
     t_DetectionDataType := [], t_DetectionData := []\<rparr>"

definition stored_event :: "Event \<Rightarrow> Event" where
  "stored_event e = e\<lparr>e_Kind := KindEvent, e_Targets := Some (map stored_target (elems (e_Targets e)))\<rparr>"

definition proper_alert :: "Target \<Rightarrow> bool" where
  "proper_alert t = (case t_FalcoAlert t of None \<Rightarrow> True | Some a \<Rightarrow> distinct (map fst (fa_OutputFields a)))"

lemma read_pointer_obj: "read_pointer f (marshal_FalcoAlert a) = map_option Some (f (marshal_FalcoAlert a))"
  by (simp add: marshal_FalcoAlert_def)

lemmas target_roundtrips =
  read_slice_marshal[of _ unmarshal_Process marshal_Process, OF Process_roundtrip]
  read_slice_marshal[of _ unmarshal_ViolatedFile marshal_ViolatedFile, OF ViolatedFile_roundtrip]
  read_slice_marshal[of _ unmarshal_Label marshal_Label, OF Label_roundtrip]

lemma target_roundtrip:
  assumes "proper_alert t"
  shows "toPbTarget (dgraphTargetFromPb i t) = stored_target t"
proof (cases t)
  case (fields pod vp vf fa ddt dd)
  have alert: "read_pointer unmarshal_FalcoAlert (marshal_FalcoAlert a) = Some (Some a)"
    if "fa = Some a" for a
    using assms that fields by (simp add: proper_alert_def read_pointer_obj FalcoAlert_roundtrip)
  show ?thesis unfolding fields
    by (cases fa; cases pod)
      (simp_all add: toPbTarget_def dgraphTargetFromPb_def stored_target_def zero_Target_def Let_def
        target_roundtrips alert)
qed

text \<open>
  An event that is written and read back is the event that was ingested, with its kind filled in,
  except that the detection data of its targets is gone: the reading side copies it only if the new,
  still empty target already has some.
\<close>

theorem event_roundtrip:
  assumes "\<forall>t\<in>set (elems (e_Targets e)). proper_alert t"
  shows "toPbEvent (dgraphEventFromPb e) = stored_event e"
proof -
  have "map (\<lambda>(i, t). toPbTarget (dgraphTargetFromPb i t)) (enumerate n ts) = map stored_target ts"
    if "\<forall>t\<in>set ts. proper_alert t" for n ts
    using that by (induction ts arbitrary: n) (auto simp: target_roundtrip)
  from this[OF assms, of 0] show ?thesis
    by (simp add: toPbEvent_def dgraphEventFromPb_def stored_event_def NewEvent_def comp_def case_prod_unfold)
qed

theorem event_roundtrip_witness:
  "toPbEvent (dgraphEventFromPb (NewEvent\<lparr>e_Targets := Some [zero_Target\<lparr>t_DetectionDataType := ''sys_execve_entry''\<rparr>]\<rparr>)) =
     NewEvent\<lparr>e_Targets := Some [zero_Target]\<rparr>"
  by (subst event_roundtrip)
    (simp_all add: proper_alert_def zero_Target_def stored_event_def stored_target_def NewEvent_def)

text \<open>
  Asking the server for the events of a namespace gives an empty answer and no error, whatever
  the database holds: the store does not implement the query and the service drops its error.
\<close>

theorem GetEvents_of_namespace_empty:
  assumes "ger_Namespace req \<noteq> []"
  shows "GetEvents (dgraphEventStore D T now) req s = ((Some \<lparr>gep_Events = None\<rparr>, None), s)"
  using assms by (simp add: GetEvents_def dgraphEventStore_def event_FindByNamespace_def Let_def)

theorem GetEvents_of_namespace_empty_witness:
  "GetEvents (dgraphEventStore mem_dgraph \<lparr>tc_format = (\<lambda>_. []), tc_parse = (\<lambda>_. None)\<rparr> 0)
     \<lparr>ger_Namespace = ''default'', ger_Limit = 5\<rparr> [] = ((Some \<lparr>gep_Events = None\<rparr>, None), [])"
  by (rule GetEvents_of_namespace_empty) simp

end
