(* ===== verification/AlertDispatcher.thy ===== *)
theory AlertDispatcher
  imports Store
begin

text \<open>
  The alert dispatcher (\<^verbatim>\<open>pkg/server/alert_dispatcher.go\<close>): the text of an alert, the posting of the alert
  of an event, and a round of the loop that looks for events without an alert. Alertmanager's
  \<^verbatim>\<open>PostAlerts\<close> and the format of times are parameters.
\<close>

section \<open>The labels of an alert\<close>

text \<open>The loops over the violated processes and files, at index \<open>i\<close> of \<open>n\<close> items.\<close>

fun items_to_string :: "('a \<Rightarrow> string) \<Rightarrow> nat \<Rightarrow> nat \<Rightarrow> 'a list \<Rightarrow> string" where
  "items_to_string f n i [] = []"
| "items_to_string f n i (p # ps) =
     f p @ (if int i < int n - 1 then '', '' else []) @
     (if i \<ge> 10 then ''... '' @ Itoa (int n - int i - 1) @ '' more''
      else items_to_string f n (Suc i) ps)"

definition process_text :: "Process \<Rightarrow> string" where
  "process_text p = Itoa (sint (p_Pid p)) @ '':'' @ p_Name p"

definition violatedProcessesToString :: "Process list \<Rightarrow> string" where
  "violatedProcessesToString ps = items_to_string process_text (length ps) 0 ps"

definition violatedFilesToString :: "ViolatedFile list \<Rightarrow> string" where
  "violatedFilesToString fs = items_to_string vf_Name (length fs) 0 fs"

definition alert_labels :: "(Timestamp \<Rightarrow> string) \<Rightarrow> Event \<Rightarrow> Target \<Rightarrow> Pod \<Rightarrow> string gomap" where
  "alert_labels RFC3339 event target pod =
     (let labels = map_put ''pod_uid'' (pod_Uid pod)
            (map_put ''pod_name'' (pod_Name pod)
            (map_put ''pod_namespace'' (pod_Namespace pod)
            (map_put ''serverTimestamp'' (RFC3339 (case e_ServerTimestamp event of None \<Rightarrow> 0 | Some t \<Rightarrow> t))
            (map_put ''type'' (e_Type event) []))));
          labels = (case t_ViolatedProcesses target of None \<Rightarrow> labels
            | Some ps \<Rightarrow> map_put ''violated_processes'' (violatedProcessesToString ps) labels);
          labels = (case t_ViolatedFiles target of None \<Rightarrow> labels
            | Some fs \<Rightarrow> map_put ''violated_files'' (violatedFilesToString fs) labels)
      in case t_FalcoAlert target of None \<Rightarrow> labels
         | Some a \<Rightarrow> map_put ''falco_alert'' (fa_Output a) labels)"

section \<open>Sending\<close>

type_synonym 'w post_alerts = "string gomap \<Rightarrow> ('w, go_error option) io"

fun send_targets :: "(Timestamp \<Rightarrow> string) \<Rightarrow> 'w post_alerts \<Rightarrow> Event \<Rightarrow> Target list \<Rightarrow> ('w, go_error option) io" where
  "send_targets RFC3339 PostAlerts event [] w = (None, w)"
| "send_targets RFC3339 PostAlerts event (target # rest) w = (case t_Pod target of
     None \<Rightarrow> send_targets RFC3339 PostAlerts event rest w
   | Some pod \<Rightarrow> PostAlerts (alert_labels RFC3339 event target pod) w)"

definition SendAlert :: "(Timestamp \<Rightarrow> string) \<Rightarrow> 'w post_alerts \<Rightarrow> Event \<Rightarrow> ('w, go_error option) io" where
  "SendAlert RFC3339 PostAlerts event = send_targets RFC3339 PostAlerts event (elems (e_Targets event))"

fun alert_events ::
  "(Timestamp \<Rightarrow> string) \<Rightarrow> 'w post_alerts \<Rightarrow> 's event_store \<Rightarrow> Event list \<Rightarrow> 's \<times> 'w \<Rightarrow> 's \<times> 'w" where
  "alert_events RFC3339 PostAlerts es [] sw = sw"
| "alert_events RFC3339 PostAlerts es (event # rest) (s, w) =
     (if e_Type event = EventTypeViolation \<or> e_Type event = EventTypeFalcoAlert
      then (case SendAlert RFC3339 PostAlerts event w of
              (None, w') \<Rightarrow> alert_events RFC3339 PostAlerts es rest (snd (es_UpdateAlertSent es (e_Uid event) s), w')
            | (Some err, w') \<Rightarrow> alert_events RFC3339 PostAlerts es rest (s, w'))
      else alert_events RFC3339 PostAlerts es rest (s, w))"

text \<open>One round of \<^verbatim>\<open>LoopSendAlerts\<close>.\<close>

definition LoopSendAlerts_round ::
  "(Timestamp \<Rightarrow> string) \<Rightarrow> 'w post_alerts \<Rightarrow> 's event_store \<Rightarrow> 's \<times> 'w \<Rightarrow> 's \<times> 'w" where
  "LoopSendAlerts_round RFC3339 PostAlerts es sw = (case es_FindWhereAlertNotSent es (fst sw) of
     ((events, err), s') \<Rightarrow> alert_events RFC3339 PostAlerts es (elems events) (s', snd sw))"

section \<open>The text is bounded\<close>

lemma items_to_string_spec:
  assumes "i \<le> 10" "n = i + length ps"
  shows "items_to_string f n i ps =
     Join (map f (take (11 - i) ps)) '', '' @
     (if 11 - i \<le> length ps then (if 11 - i < length ps then '', '' else []) @ ''... '' @ Itoa (int n - 11) @ '' more''
      else [])"
  using assms
proof (induction ps arbitrary: i)
  case (Cons p ps)
  show ?case
  proof (cases "i = 10")
    case True
    then show ?thesis using Cons.prems by (cases ps) (auto simp: Join.simps)
  next
    case False
    then have i: "i < 10" using Cons.prems by simp
    have "take (11 - i) (p # ps) = p # take (11 - Suc i) ps" using i by (simp add: take_Cons')
    moreover have "items_to_string f n (Suc i) ps =
       Join (map f (take (11 - Suc i) ps)) '', '' @
       (if 11 - Suc i \<le> length ps then (if 11 - Suc i < length ps then '', '' else []) @ ''... '' @ Itoa (int n - 11) @ '' more''
        else [])"
      using Cons.IH[of "Suc i"] Cons.prems i by simp
    moreover have "ps \<noteq> [] \<Longrightarrow> Join (f p # map f (take (11 - Suc i) ps)) '', '' =
        f p @ '', '' @ Join (map f (take (11 - Suc i) ps)) '', ''"
      using i by (intro Join_Cons) auto
    moreover have "items_to_string f n i (p # ps) =
        f p @ (if ps \<noteq> [] then '', '' else []) @ items_to_string f n (Suc i) ps"
      using i Cons.prems by (cases ps) auto
    ultimately show ?thesis using i Cons.prems by (cases "ps = []") (auto simp del: items_to_string.simps(2))
  qed
qed (simp add: Join.simps)

text \<open>
  C35: the processes of an alert are listed by pid and name, at most eleven of them; from the eleventh
  on the text ends with the number of those left out, which with exactly eleven is none.
\<close>

theorem violatedProcessesToString_spec:
  "violatedProcessesToString ps =
     Join (map process_text (take 11 ps)) '', '' @
     (if length ps < 11 then []
      else (if length ps = 11 then [] else '', '') @ ''... '' @ Itoa (int (length ps) - 11) @ '' more'')"
  using items_to_string_spec[of 0 "length ps" ps process_text] by (auto simp: violatedProcessesToString_def)

section \<open>A round of the loop\<close>

text \<open>The first target with a pod, which is the one that is posted.\<close>

fun first_pod :: "Target list \<Rightarrow> (Target \<times> Pod) option" where
  "first_pod [] = None"
| "first_pod (t # ts) = (case t_Pod t of None \<Rightarrow> first_pod ts | Some p \<Rightarrow> Some (t, p))"

definition alertable :: "Event \<Rightarrow> bool" where
  "alertable e \<longleftrightarrow> e_Type e = EventTypeViolation \<or> e_Type e = EventTypeFalcoAlert"

definition event_alert :: "(Timestamp \<Rightarrow> string) \<Rightarrow> Event \<Rightarrow> string gomap option" where
  "event_alert RFC3339 e = map_option (\<lambda>(t, p). alert_labels RFC3339 e t p) (first_pod (elems (e_Targets e)))"

lemma SendAlert_first:
  "SendAlert RFC3339 PostAlerts e w = (case event_alert RFC3339 e of None \<Rightarrow> (None, w) | Some ls \<Rightarrow> PostAlerts ls w)"
proof -
  have "send_targets RFC3339 PostAlerts e ts w =
      (case map_option (\<lambda>(t, p). alert_labels RFC3339 e t p) (first_pod ts) of None \<Rightarrow> (None, w) | Some ls \<Rightarrow> PostAlerts ls w)" for ts
    by (induction ts) (auto split: option.splits)
  then show ?thesis by (simp add: SendAlert_def event_alert_def)
qed

text \<open>
  An Alertmanager that keeps what was posted and answers by a given function, and a store whose
  updates are kept: the observers of a round.
\<close>

definition recording_post :: "(string gomap \<Rightarrow> go_error option) \<Rightarrow> (string gomap list) post_alerts" where
  "recording_post answer ls w = (answer ls, w @ [ls])"

definition recording_store :: "(Event slice \<times> go_error option) \<Rightarrow> (string \<Rightarrow> go_error option) \<Rightarrow> (string list) event_store" where
  "recording_store found update = \<lparr>es_GetAll = (\<lambda>_ s. (found, s)), es_FindByNamespace = (\<lambda>_ _ s. (found, s)),
     es_FindWhereAlertNotSent = (\<lambda>s. (found, s)), es_Add = (\<lambda>_ s. (None, s)),
     es_UpdateAlertSent = (\<lambda>uid s. (update uid, s @ [uid]))\<rparr>"

lemma alert_events_recorded:
  "alert_events RFC3339 (recording_post answer) (recording_store found update) es (s, w) =
     (s @ map e_Uid (filter (\<lambda>e. alertable e \<and> (\<forall>ls. event_alert RFC3339 e = Some ls \<longrightarrow> answer ls = None)) es),
      w @ map (\<lambda>e. the (event_alert RFC3339 e)) (filter (\<lambda>e. alertable e \<and> event_alert RFC3339 e \<noteq> None) es))"
proof (induction es arbitrary: s w)
  case (Cons e es)
  show ?case
  proof (cases "event_alert RFC3339 e")
    case None
    then show ?thesis using Cons.IH
      by (simp add: SendAlert_first alertable_def recording_store_def)
  next
    case (Some ls)
    then show ?thesis using Cons.IH
      by (cases "answer ls") (auto simp: SendAlert_first alertable_def recording_store_def recording_post_def)
  qed
qed simp

text \<open>
  A round of the alert loop posts exactly one alert for each violation or Falco event it found
  that has a target with a pod (the first such target), in the order they were found, and marks as
  sent exactly the events whose post succeeded and those that have no pod to alert about. Events of
  other types are neither posted nor marked, and a failed post leaves the event for the next round.
\<close>

theorem LoopSendAlerts_round_spec:
  "LoopSendAlerts_round RFC3339 (recording_post answer) (recording_store (found, err) update) (s, w) =
     (s @ map e_Uid (filter (\<lambda>e. alertable e \<and>
            (case event_alert RFC3339 e of None \<Rightarrow> True | Some ls \<Rightarrow> answer ls = None)) (elems found)),
      w @ map (\<lambda>e. the (event_alert RFC3339 e)) (filter (\<lambda>e. alertable e \<and> event_alert RFC3339 e \<noteq> None) (elems found)))"
proof -
  have "(\<forall>ls. event_alert RFC3339 e = Some ls \<longrightarrow> answer ls = None) =
      (case event_alert RFC3339 e of None \<Rightarrow> True | Some ls \<Rightarrow> answer ls = None)" for e
    by (cases "event_alert RFC3339 e") auto
  then show ?thesis
    by (simp add: LoopSendAlerts_round_def alert_events_recorded) (simp add: recording_store_def alert_events_recorded[unfolded recording_store_def])
qed

end
