(* ===== verification/Paths.thy ===== *)
theory Paths
  imports GoStrings
begin

text \<open>
  The functions of Go's \<^verbatim>\<open>path/filepath\<close> that the commands use, on slash-separated paths.
\<close>

text \<open>\<^verbatim>\<open>filepath.Clean\<close> and \<^verbatim>\<open>filepath.Join\<close>: the components, without empty ones, \<^verbatim>\<open>.\<close> and what \<^verbatim>\<open>..\<close> removes.\<close>

fun clean_parts :: "bool \<Rightarrow> string list \<Rightarrow> string list \<Rightarrow> string list" where
  "clean_parts rooted [] out = rev out"
| "clean_parts rooted (p # ps) out =
     (if p = [] \<or> p = ''.'' then clean_parts rooted ps out
      else if p = ''..'' then
        (case out of
           [] \<Rightarrow> clean_parts rooted ps (if rooted then [] else [''..''])
         | q # out' \<Rightarrow> if q = ''..'' then clean_parts rooted ps (''..'' # out) else clean_parts rooted ps out')
      else clean_parts rooted ps (p # out))"

definition Clean :: "string \<Rightarrow> string" where
  "Clean path =
     (let rooted = (path \<noteq> [] \<and> hd path = CHR ''/'');
          cleaned = (if rooted then ''/'' else []) @ Join (clean_parts rooted (Split path ''/'') []) ''/''
      in if cleaned = [] then ''.'' else cleaned)"

definition path_Join :: "string list \<Rightarrow> string" where
  "path_Join ps = (let ps' = filter (\<lambda>p. p \<noteq> []) ps in if ps' = [] then [] else Clean (Join ps' ''/''))"

lemma clean_parts_plain:
  "list_all (\<lambda>p. p \<noteq> [] \<and> p \<noteq> ''.'' \<and> p \<noteq> ''..'') ps \<Longrightarrow> clean_parts rooted ps out = rev out @ ps"
  by (induction ps arbitrary: out) auto

text \<open>A path of plain components is its own clean form.\<close>

lemma Clean_plain:
  assumes "ps \<noteq> []" and "list_all (\<lambda>p. p \<noteq> [] \<and> p \<noteq> ''.'' \<and> p \<noteq> ''..'' \<and> CHR ''/'' \<notin> set p) ps"
  shows "Clean (''/'' @ Join ps ''/'') = ''/'' @ Join ps ''/''"
proof -
  have "Split (Join ps ''/'') ''/'' = ps" using assms by (intro Split_Join) (auto simp: list_all_iff)
  then have "Split (''/'' @ Join ps ''/'') ''/'' = [] # ps"
    using Split_at_sep[of "CHR ''/''" "[]" "Join ps ''/''"] by simp
  moreover have "clean_parts True ps [] = ps"
    using clean_parts_plain[of ps True "[]"] assms(2) by (simp add: list_all_iff)
  ultimately show ?thesis by (simp add: Clean_def)
qed

end
