(* ===== verification/Server.thy ===== *)
theory Server
  imports ConfigServer DgraphEventStore AlertDispatcher Paths
begin

text \<open>
  The server process: \<^verbatim>\<open>pkg/server/server.go\<close>, which puts the stores, the queues, the two services, the
  ingestion worker and the alert dispatcher together, and the commands \<^verbatim>\<open>run\<close> and \<^verbatim>\<open>dgraph apply-schema\<close> of
  \<^verbatim>\<open>cmd/tarian-server\<close>. Goroutines that are started are recorded as tasks. The libraries that are called
  (NATS, gRPC, \<^verbatim>\<open>go-retry\<close>, \<^verbatim>\<open>envconfig\<close>, TLS) are parameters.
\<close>

section \<open>Retries\<close>

text \<open>
  \<^verbatim>\<open>retry.Do\<close> with the backoff that the server gives it. The action works on a state; a call that never
  returns has the value \<open>None\<close>. Every error of the action is marked as retryable.
\<close>

type_synonym 's retrier = "('s, go_error option) io \<Rightarrow> 's \<Rightarrow> (go_error option \<times> 's) option"

text \<open>
  What the documentation of \<^verbatim>\<open>go-retry\<close> says of a constant backoff under \<^verbatim>\<open>WithCappedDuration\<close>, which is
  \<^emph>\<open>not a total backoff time\<close>: the action is repeated until it succeeds, and for ever if it never does.
\<close>

definition retries_until_success :: "'s retrier \<Rightarrow> bool" where
  "retries_until_success R \<longleftrightarrow>
     (\<forall>f s k. (\<forall>i<k. fst (f (after_attempts f i s)) \<noteq> None) \<longrightarrow> fst (f (after_attempts f k s)) = None \<longrightarrow>
        R f s = Some (None, after_attempts f (Suc k) s)) \<and>
     (\<forall>f s. (\<forall>i. fst (f (after_attempts f i s)) \<noteq> None) \<longrightarrow> R f s = None)"

section \<open>createJetStreamQueue\<close>

definition connect_attempt :: "'w nats \<Rightarrow> (JetStream \<times> 'w, go_error option) io" where
  "connect_attempt N jw = (case js_Connect N (fst jw) (snd jw) of
     ((Some err, j), w) \<Rightarrow> (Errorf_w ''createJetStreamQueue: %w'' (Some err), (j, w))
   | ((None, j), w) \<Rightarrow> (None, (j, w)))"

definition init_attempt :: "'w nats \<Rightarrow> StreamConfig \<Rightarrow> (JetStream \<times> 'w, go_error option) io" where
  "init_attempt N natsStreamConfig jw = (case js_Init N natsStreamConfig (fst jw) (snd jw) of
     ((Some err, j), w) \<Rightarrow> (Errorf_w ''createJetStreamQueue: %w'' (Some err), (j, w))
   | ((None, j), w) \<Rightarrow> (None, (j, w)))"

definition createJetStreamQueue ::
  "(JetStream \<times> 'w) retrier \<Rightarrow> 'w nats \<Rightarrow> string \<Rightarrow> StreamConfig \<Rightarrow> 'w \<Rightarrow> ((JetStream option \<times> go_error option) \<times> 'w) option" where
  "createJetStreamQueue R N natsURL natsStreamConfig w =
     (case R (connect_attempt N) (NewJetstream natsURL (st_Name natsStreamConfig), w) of
        None \<Rightarrow> None
      | Some (Some err, (j, w1)) \<Rightarrow> Some ((None, Some err), w1)
      | Some (None, (j, w1)) \<Rightarrow>
          (case R (init_attempt N natsStreamConfig) (j, w1) of
             None \<Rightarrow> None
           | Some (err, (j', w2)) \<Rightarrow> Some ((Some j', err), w2)))"

section \<open>NewServer\<close>

text \<open>
  The queues are shared objects: the server keeps them in a list, and the event service and the
  ingestion worker refer to them by their position.
\<close>

datatype server_queue = ChannelQ "Event ChannelQueue" | JetStreamQ "JetStream option"

record 'cred GrpcServer =
  gs_Creds :: "'cred option"
  gs_Services :: "string list"

record 's eventServer =
  evs_store :: "'s event_store"
  evs_queue :: nat
  evs_queueForEventDetection :: nat

record 's ingestionWorker =
  iw_eventStore :: "'s event_store"
  iw_IngestionQueue :: nat
  iw_IngestionQueueForEventDetection :: nat

text \<open>A parsed URL, its user with a password or without one, and the client of Alertmanager's API.\<close>

record am_url =
  url_Scheme :: string
  url_Host :: string
  url_Path :: string
  url_User :: "(string \<times> string option) option"

record am_client =
  am_Host :: string
  am_BasePath :: string
  am_Schemes :: "string list"
  am_BasicAuth :: "(string \<times> string) option"

definition defaultAmApiv2path :: string where
  "defaultAmApiv2path = ''/api/v2''"

definition NewAlertmanagerClient :: "am_url \<Rightarrow> am_client" where
  "NewAlertmanagerClient amURL = \<lparr>am_Host = url_Host amURL, am_BasePath = path_Join [url_Path amURL, defaultAmApiv2path],
     am_Schemes = [url_Scheme amURL],
     am_BasicAuth = (case url_User amURL of
        None \<Rightarrow> None
      | Some (username, password) \<Rightarrow> Some (username, case password of None \<Rightarrow> [] | Some p \<Rightarrow> p))\<rparr>"

record alertDispatcher =
  ad_amClient :: am_client
  ad_alertEvaluationInterval :: int

record 's store_set =
  set_EventStore :: "'s event_store"
  set_ActionStore :: "('s, Action) config_store"
  set_ConstraintStore :: "('s, Constraint) config_store"

record ('s, 'cred) TarianServer =
  srv_GrpcServer :: "'cred GrpcServer"
  srv_EventServer :: "'s eventServer"
  srv_IngestionWorker :: "'s ingestionWorker"
  srv_ConfigServer :: "'s ConfigServer"
  srv_AlertDispatcher :: "alertDispatcher option"
  srv_eventStore :: "'s event_store"
  srv_queues :: "server_queue list"
  srv_cancelled :: bool

definition NewEventServer :: "'s event_store \<Rightarrow> nat \<Rightarrow> nat \<Rightarrow> 's eventServer" where
  "NewEventServer es queuePublisher queuePublisherForEventDetection =
     \<lparr>evs_store = es, evs_queue = queuePublisher, evs_queueForEventDetection = queuePublisherForEventDetection\<rparr>"

definition NewIngestionWorker :: "'s event_store \<Rightarrow> nat \<Rightarrow> nat \<Rightarrow> 's ingestionWorker" where
  "NewIngestionWorker es queueSubscriber queueSubscriberForEventDetection =
     \<lparr>iw_eventStore = es, iw_IngestionQueue = queueSubscriber,
      iw_IngestionQueueForEventDetection = queueSubscriberForEventDetection\<rparr>"

definition NewAlertDispatcher :: "am_url \<Rightarrow> int \<Rightarrow> alertDispatcher" where
  "NewAlertDispatcher amURL alertEvaluationInterval =
     \<lparr>ad_amClient = NewAlertmanagerClient amURL, ad_alertEvaluationInterval = alertEvaluationInterval\<rparr>"

text \<open>The second stream has its own name and subject.\<close>

definition detection_config :: "StreamConfig \<Rightarrow> StreamConfig" where
  "detection_config natsStreamConfig =
     (let name = st_Name natsStreamConfig @ ''-type-detection''
      in natsStreamConfig\<lparr>st_Name := name, st_Subjects := [name]\<rparr>)"

text \<open>The two queues, or the error. The second check repeats the test of the first queue.\<close>

definition server_queues ::
  "(JetStream \<times> 'w) retrier \<Rightarrow> 'w nats \<Rightarrow> string \<Rightarrow> StreamConfig \<Rightarrow> 'w \<Rightarrow> ((go_error + server_queue list) \<times> 'w) option" where
  "server_queues R N natsURL natsStreamConfig w =
     (if natsURL = [] then Some (Inr [ChannelQ NewChannelQueue, ChannelQ NewChannelQueue], w)
      else case createJetStreamQueue R N natsURL natsStreamConfig w of
        None \<Rightarrow> None
      | Some ((jetstreamQueue, err), w1) \<Rightarrow>
          (if jetstreamQueue = None \<or> err \<noteq> None then Some (Inl (Wrap ''NewServer: %w'' err), w1)
           else case createJetStreamQueue R N natsURL (detection_config natsStreamConfig) w1 of
             None \<Rightarrow> None
           | Some ((jetstreamQueueForEventDetection, err'), w2) \<Rightarrow>
               (if jetstreamQueue = None \<or> err' \<noteq> None then Some (Inl (Wrap ''NewServer: %w'' err'), w2)
                else Some (Inr [JetStreamQ jetstreamQueue, JetStreamQ jetstreamQueueForEventDetection], w2))))"

text \<open>
  The credentials of the server. The error of \<^verbatim>\<open>NewServerTLSFromFile\<close> is dropped; the credentials are nil
  then, and a gRPC server with nil credentials talks in plain text.
\<close>

definition server_creds :: "(string \<Rightarrow> string \<Rightarrow> go_error + 'cred) \<Rightarrow> string \<Rightarrow> string \<Rightarrow> 'cred option" where
  "server_creds LoadTLS certFile privateKeyFile =
     (if certFile \<noteq> [] \<and> privateKeyFile \<noteq> []
      then (case LoadTLS certFile privateKeyFile of Inl err \<Rightarrow> None | Inr creds \<Rightarrow> Some creds)
      else None)"

definition NewServer ::
  "(JetStream \<times> 'w) retrier \<Rightarrow> 'w nats \<Rightarrow> (string \<Rightarrow> string \<Rightarrow> go_error + 'cred) \<Rightarrow> 's store_set \<Rightarrow> string \<Rightarrow> string \<Rightarrow>
   string \<Rightarrow> StreamConfig \<Rightarrow> 'w \<Rightarrow> ((go_error + ('s, 'cred) TarianServer) \<times> 'w) option" where
  "NewServer R N LoadTLS storeSet certFile privateKeyFile natsURL natsStreamConfig w =
     (case server_queues R N natsURL natsStreamConfig w of
        None \<Rightarrow> None
      | Some (Inl err, w1) \<Rightarrow> Some (Inl err, w1)
      | Some (Inr queues, w1) \<Rightarrow> Some (Inr
          \<lparr>srv_GrpcServer = \<lparr>gs_Creds = server_creds LoadTLS certFile privateKeyFile, gs_Services = [''Config'', ''Event'']\<rparr>,
           srv_EventServer = NewEventServer (set_EventStore storeSet) 0 1,
           srv_IngestionWorker = NewIngestionWorker (set_EventStore storeSet) 0 1,
           srv_ConfigServer = NewConfigServer (set_ConstraintStore storeSet) (set_ActionStore storeSet),
           srv_AlertDispatcher = None,
           srv_eventStore = set_EventStore storeSet,
           srv_queues = queues,
           srv_cancelled = False\<rparr>, w1))"

section \<open>Running and stopping\<close>

datatype server_task = ConsumeQueue nat | SendAlerts int

definition IngestionWorker_Start :: "'s ingestionWorker \<Rightarrow> server_task list" where
  "IngestionWorker_Start iw = [ConsumeQueue (iw_IngestionQueue iw), ConsumeQueue (iw_IngestionQueueForEventDetection iw)]"

text \<open>\<open>Serve\<close> returns when the server was stopped (without an error) or failed.\<close>

definition server_Start ::
  "(string \<Rightarrow> go_error + 'l) \<Rightarrow> ('cred GrpcServer \<Rightarrow> 'l \<Rightarrow> go_error option) \<Rightarrow> ('s, 'cred) TarianServer \<Rightarrow> string \<Rightarrow>
   go_error option \<times> server_task list" where
  "server_Start Listen Serve s grpcListenAddress =
     (case Listen grpcListenAddress of
        Inl err \<Rightarrow> (Errorf_w ''failed to listen: %w'' (Some err), [])
      | Inr listener \<Rightarrow>
          (let tasks = IngestionWorker_Start (srv_IngestionWorker s)
           in case Serve (srv_GrpcServer s) listener of
                Some err \<Rightarrow> (Errorf_w ''failed to serve: %w'' (Some err), tasks)
              | None \<Rightarrow> (None, tasks)))"

definition WithAlertDispatcher :: "am_url \<Rightarrow> int \<Rightarrow> ('s, 'cred) TarianServer \<Rightarrow> ('s, 'cred) TarianServer" where
  "WithAlertDispatcher alertManagerAddress alertEvaluationInterval s =
     s\<lparr>srv_AlertDispatcher := Some (NewAlertDispatcher alertManagerAddress alertEvaluationInterval)\<rparr>"

text \<open>Without a dispatcher the goroutine dereferences nil, and the process crashes.\<close>

definition StartAlertDispatcher :: "('s, 'cred) TarianServer \<Rightarrow> server_task list option" where
  "StartAlertDispatcher s = map_option (\<lambda>a. [SendAlerts (ad_alertEvaluationInterval a)]) (srv_AlertDispatcher s)"

definition server_Stop :: "('s, 'cred) TarianServer \<Rightarrow> ('s, 'cred) TarianServer" where
  "server_Stop s = s\<lparr>srv_cancelled := True\<rparr>"

definition GetGrpcServer :: "('s, 'cred) TarianServer \<Rightarrow> 'cred GrpcServer" where
  "GetGrpcServer s = srv_GrpcServer s"

text \<open>
  \<^verbatim>\<open>LoopSendAlerts\<close>: a round, then the loop waits and looks whether the context was cancelled. The list
  tells for each wait whether the timer fired first.
\<close>

fun LoopSendAlerts ::
  "(Timestamp \<Rightarrow> string) \<Rightarrow> 'w post_alerts \<Rightarrow> 's event_store \<Rightarrow> bool list \<Rightarrow> 's \<times> 'w \<Rightarrow> 's \<times> 'w" where
  "LoopSendAlerts RFC3339 PostAlerts es [] sw = LoopSendAlerts_round RFC3339 PostAlerts es sw"
| "LoopSendAlerts RFC3339 PostAlerts es (timer # ts) sw =
     (let sw' = LoopSendAlerts_round RFC3339 PostAlerts es sw
      in if timer then LoopSendAlerts RFC3339 PostAlerts es ts sw' else sw')"

section \<open>The connection to Dgraph\<close>

record DgraphConfig =
  dc_Address :: string
  dc_TLSCertFile :: string
  dc_TLSKeyFile :: string
  dc_TLSCAFile :: string

datatype ('pool, 'pair) dgraph_dial = DialInsecure | DialTLS string 'pool 'pair

text \<open>The functions of \<^verbatim>\<open>os\<close>, \<^verbatim>\<open>tls\<close> and \<^verbatim>\<open>x509\<close> that are called.\<close>

record ('pool, 'pair) tls_env =
  te_ReadFile :: "string \<Rightarrow> go_error + string"
  te_SystemCertPool :: "'pool option"
  te_NewCertPool :: 'pool
  te_AppendCertsFromPEM :: "'pool \<Rightarrow> string \<Rightarrow> 'pool"
  te_LoadX509KeyPair :: "string \<Rightarrow> string \<Rightarrow> go_error + 'pair"

definition BuildDgraphDialOpts :: "('pool, 'pair) tls_env \<Rightarrow> DgraphConfig \<Rightarrow> go_error + ('pool, 'pair) dgraph_dial list" where
  "BuildDgraphDialOpts E dgraphCfg =
     (if dc_TLSCertFile dgraphCfg = [] then Inr [DialInsecure]
      else
        let certPool = (case te_SystemCertPool E of None \<Rightarrow> te_NewCertPool E | Some pool \<Rightarrow> pool)
        in case (if dc_TLSCAFile dgraphCfg \<noteq> []
                 then (case te_ReadFile E (dc_TLSCAFile dgraphCfg) of
                         Inl err \<Rightarrow> Inl (Wrap (''BuildDgraphDialOpts: failed to read Dgraph TLS CA file: '' @
                           dc_TLSCAFile dgraphCfg @ '', error: %w'') (Some err))
                       | Inr serverCACert \<Rightarrow> Inr (te_AppendCertsFromPEM E certPool serverCACert))
                 else Inr certPool) of
             Inl err \<Rightarrow> Inl err
           | Inr certPool' \<Rightarrow>
               (case te_LoadX509KeyPair E (dc_TLSCertFile dgraphCfg) (dc_TLSKeyFile dgraphCfg) of
                  Inl err \<Rightarrow> Inl (Wrap ''BuildDgraphDialOpts: error while creating Dgraph client TLS cert: %w'' (Some err))
                | Inr cert \<Rightarrow>
                    (let splitAddress = Split (dc_Address dgraphCfg) '':'';
                         serverName = (if length splitAddress > 0 then splitAddress ! 0 else [])
                     in Inr [DialTLS serverName certPool' cert])))"

text \<open>
  \<^verbatim>\<open>envconfig.Process\<close> fills the configuration from the environment, \<^verbatim>\<open>grpc.Dial\<close> and \<^verbatim>\<open>NewDgraphClient\<close>
  make the client.
\<close>

record ('s, 'pool, 'pair) dgraph_env =
  de_tls :: "('pool, 'pair) tls_env"
  de_Process :: "DgraphConfig \<Rightarrow> go_error + DgraphConfig"
  de_Dial :: "string \<Rightarrow> ('pool, 'pair) dgraph_dial list \<Rightarrow> go_error + 's dgraph"

definition dgraph_connect ::
  "string \<Rightarrow> string \<Rightarrow> ('s, 'pool, 'pair) dgraph_env \<Rightarrow> string \<Rightarrow> 's dgraph option \<Rightarrow> go_error + 's dgraph" where
  "dgraph_connect who dialError E address dgraphClient =
     (case dgraphClient of
        Some D \<Rightarrow> Inr D
      | None \<Rightarrow>
          (case de_Process E \<lparr>dc_Address = address, dc_TLSCertFile = [], dc_TLSKeyFile = [], dc_TLSCAFile = []\<rparr> of
             Inl err \<Rightarrow> Inl (Wrap (who @ '': dgraph config error: %w'') (Some err))
           | Inr cfg \<Rightarrow>
               (case BuildDgraphDialOpts (de_tls E) cfg of
                  Inl err \<Rightarrow> Inl (Wrap (who @ '': %w'') (Some err))
                | Inr dialOpts \<Rightarrow>
                    (case de_Dial E (dc_Address cfg) dialOpts of
                       Inl err \<Rightarrow> Inl (Wrap (who @ '': '' @ dialError @ '': %w'') (Some err))
                     | Inr D \<Rightarrow> Inr D))))"

definition apply_schema_run ::
  "('s, 'pool, 'pair) dgraph_env \<Rightarrow> 's dgraph option \<Rightarrow> 's \<Rightarrow> go_error option \<times> 's" where
  "apply_schema_run E dgraphClient s =
     (case dgraph_connect ''apply-schema'' ''error while creating grpc client'' E [] dgraphClient of
        Inl err \<Rightarrow> (Some err, s)
      | Inr D \<Rightarrow>
          (case ApplySchema D s of
             (Some err, s') \<Rightarrow> (Errorf_w ''apply-schema: failed to apply schema: %w'' (Some err), s')
           | (None, s') \<Rightarrow> (None, s')))"

section \<open>tarian-server run\<close>

record runCommand =
  run_host :: string
  run_port :: string
  run_alertManagerAddress :: string
  run_alertEvaluationInterval :: int
  run_tlsCertFile :: string
  run_tlsPrivateKeyFile :: string
  run_natsURL :: string
  run_natsTLSRootCAs :: "string list"
  run_natsTLSClientCert :: string
  run_natsTLSClientKey :: string
  run_natsStramConfigMaxMsg :: int
  run_natsStramConfigMaxBytes :: int
  run_natsStreamConfigReplicas :: int
  run_natsStramConfigMaxAge :: int
  run_natsStreamConfigDuplicates :: int

definition second :: int where "second = 1000000000"

definition run_addFlags :: runCommand where
  "run_addFlags = \<lparr>run_host = [], run_port = ''50051'', run_alertManagerAddress = [],
     run_alertEvaluationInterval = 30 * second, run_tlsCertFile = [], run_tlsPrivateKeyFile = [],
     run_natsURL = [], run_natsTLSRootCAs = [], run_natsTLSClientCert = [], run_natsTLSClientKey = [],
     run_natsStramConfigMaxMsg = 10000, run_natsStramConfigMaxBytes = 50 * 1000 * 1000,
     run_natsStreamConfigReplicas = 1, run_natsStramConfigMaxAge = 24 * 3600 * second,
     run_natsStreamConfigDuplicates = 60 * second\<rparr>"

datatype nats_option = RootCAs string | ClientCert string string

definition nats_options :: "runCommand \<Rightarrow> nats_option list" where
  "nats_options c = map RootCAs (run_natsTLSRootCAs c) @
     (if run_natsTLSClientCert c \<noteq> [] then [ClientCert (run_natsTLSClientCert c) (run_natsTLSClientKey c)] else [])"

definition run_streamConfig :: "runCommand \<Rightarrow> StreamConfig" where
  "run_streamConfig c = (let streamName = ''tarian-server-event-ingestion'' in
     \<lparr>st_Name = streamName, st_Subjects = [streamName], st_MaxMsgs = run_natsStramConfigMaxMsg c,
      st_MaxAge = run_natsStramConfigMaxAge c, st_MaxBytes = run_natsStramConfigMaxBytes c,
      st_Replicas = run_natsStreamConfigReplicas c, st_Duplicates = run_natsStreamConfigDuplicates c\<rparr>)"

text \<open>The libraries the command calls. \<open>sl_Nats\<close> is the NATS client with the given options.\<close>

record ('s, 'w, 'cred, 'l) server_libs =
  sl_Retry :: "(JetStream \<times> 'w) retrier"
  sl_Nats :: "nats_option list \<Rightarrow> 'w nats"
  sl_LoadTLS :: "string \<Rightarrow> string \<Rightarrow> go_error + 'cred"
  sl_UrlParse :: "string \<Rightarrow> go_error + am_url"
  sl_Listen :: "string \<Rightarrow> go_error + 'l"
  sl_Serve :: "'cred GrpcServer \<Rightarrow> 'l \<Rightarrow> go_error option"

text \<open>The client of \<^verbatim>\<open>dgraphstore.go\<close>, which makes the stores.\<close>

record 's dgraph_client =
  dcl_dg :: "'s dgraph"

definition NewDgraphClient :: "'s dgraph \<Rightarrow> 's dgraph_client" where
  "NewDgraphClient dg = \<lparr>dcl_dg = dg\<rparr>"

definition NewDgraphConstraintStore :: "'s dgraph_client \<Rightarrow> ('s, Constraint) config_store" where
  "NewDgraphConstraintStore c = dgraphConstraintStore (dcl_dg c)"

definition NewDgraphActionStore :: "'s dgraph_client \<Rightarrow> ('s, Action) config_store" where
  "NewDgraphActionStore c = dgraphActionStore (dcl_dg c)"

definition NewDgraphEventStore :: "time_codec \<Rightarrow> Timestamp \<Rightarrow> 's dgraph_client \<Rightarrow> 's event_store" where
  "NewDgraphEventStore T now c = dgraphEventStore (dcl_dg c) T now"

definition dgraph_store_set :: "'s dgraph \<Rightarrow> time_codec \<Rightarrow> Timestamp \<Rightarrow> 's store_set" where
  "dgraph_store_set D T now = (let c = NewDgraphClient D in
     \<lparr>set_EventStore = NewDgraphEventStore T now c, set_ActionStore = NewDgraphActionStore c,
      set_ConstraintStore = NewDgraphConstraintStore c\<rparr>)"

lemma dgraph_store_set_stores:
  "dgraph_store_set D T now = \<lparr>set_EventStore = dgraphEventStore D T now, set_ActionStore = dgraphActionStore D,
     set_ConstraintStore = dgraphConstraintStore D\<rparr>"
  by (simp add: dgraph_store_set_def NewDgraphClient_def NewDgraphConstraintStore_def NewDgraphActionStore_def
      NewDgraphEventStore_def)

text \<open>The alert dispatcher, when an address is given.\<close>

definition run_alerts ::
  "(string \<Rightarrow> go_error + am_url) \<Rightarrow> runCommand \<Rightarrow> ('s, 'cred) TarianServer \<Rightarrow>
   go_error + (('s, 'cred) TarianServer \<times> server_task list) option" where
  "run_alerts UrlParse c s =
     (if run_alertManagerAddress c \<noteq> []
      then (case UrlParse (run_alertManagerAddress c) of
              Inl err \<Rightarrow> Inl (Wrap ''run: invalid url in alertmanager-address: %w'' (Some err))
            | Inr url \<Rightarrow>
                (let s' = WithAlertDispatcher url (run_alertEvaluationInterval c) s
                 in Inr (map_option (\<lambda>ts. (s', ts)) (StartAlertDispatcher s'))))
      else Inr (Some (s, [])))"

text \<open>
  The command, with the client and the server it may be given beforehand. It does not return while
  the server waits for NATS; a crash has the same value.
\<close>

definition server_run ::
  "('s, 'w, 'cred, 'l) server_libs \<Rightarrow> ('s, 'pool, 'pair) dgraph_env \<Rightarrow> (string \<Rightarrow> string) \<Rightarrow> time_codec \<Rightarrow> Timestamp \<Rightarrow>
   's dgraph option \<Rightarrow> ('s, 'cred) TarianServer option \<Rightarrow> runCommand \<Rightarrow> 'w \<Rightarrow>
   ((go_error option \<times> server_task list) \<times> 'w) option" where
  "server_run L E Getenv T now dgraphClient server c w =
     (case dgraph_connect ''run'' ''failed to connect to server'' E (Getenv ''DGRAPH_ADDRESS'') dgraphClient of
        Inl err \<Rightarrow> Some ((Some err, []), w)
      | Inr D \<Rightarrow>
          (case (case server of
                   Some s \<Rightarrow> Some (Inr s, w)
                 | None \<Rightarrow> NewServer (sl_Retry L) (sl_Nats L (nats_options c)) (sl_LoadTLS L) (dgraph_store_set D T now)
                     (run_tlsCertFile c) (run_tlsPrivateKeyFile c) (run_natsURL c) (run_streamConfig c) w) of
             None \<Rightarrow> None
           | Some (Inl err, w1) \<Rightarrow>
               Some ((Errorf_w ''run: error while initiating tarian-server: %w'' (Some err), []), w1)
           | Some (Inr s, w1) \<Rightarrow>
               (case run_alerts (sl_UrlParse L) c s of
                  Inl err \<Rightarrow> Some ((Some err, []), w1)
                | Inr None \<Rightarrow> None
                | Inr (Some (s', alertTasks)) \<Rightarrow>
                    (case server_Start (sl_Listen L) (sl_Serve L) s' (run_host c @ '':'' @ run_port c) of
                       (Some err, tasks) \<Rightarrow>
                         Some ((Errorf_w ''run: failed to start server: %w'' (Some err), alertTasks @ tasks), w1)
                     | (None, tasks) \<Rightarrow> Some ((None, alertTasks @ tasks), w1)))))"

section \<open>Waiting for NATS\<close>

text \<open>A retrier with the documented behaviour.\<close>

partial_function (option) retry_do :: "'s retrier" where
  "retry_do f s = (case f s of
     (None, s') \<Rightarrow> Some (None, s')
   | (Some e, s') \<Rightarrow> retry_do f s')"

lemma retry_do_success:
  "\<forall>i<k. fst (f (after_attempts f i s)) \<noteq> None \<Longrightarrow> fst (f (after_attempts f k s)) = None \<Longrightarrow>
     retry_do f s = Some (None, after_attempts f (Suc k) s)"
proof (induction k arbitrary: s)
  case 0
  then show ?case by (cases "f s") (auto simp: retry_do.simps)
next
  case (Suc k)
  obtain e s' where f: "f s = (Some e, s')" using Suc.prems(1) by (cases "f s") fastforce
  have "\<forall>i<k. fst (f (after_attempts f i s')) \<noteq> None"
    using Suc.prems(1) f by (metis Suc_less_eq after_attempts.simps(2) snd_conv)
  then show ?case using Suc.IH[of s'] Suc.prems(2) f by (simp add: retry_do.simps[of f s])
qed

lemma retry_do_returns: "retry_do f s = Some y \<Longrightarrow> \<exists>k. fst (f (after_attempts f k s)) = None"
proof (rule retry_do.raw_induct[of "\<lambda>f s y. \<exists>k. fst (f (after_attempts f k s)) = None"])
  fix rd :: "'a retrier" and f s y
  assume IH: "\<And>f s y. rd f s = Some y \<Longrightarrow> \<exists>k. fst (f (after_attempts f k s)) = None"
    and body: "(case f s of (None, s') \<Rightarrow> Some (None, s') | (Some e, s') \<Rightarrow> rd f s') = Some y"
  obtain r s' where f: "f s = (r, s')" by (cases "f s")
  show "\<exists>k. fst (f (after_attempts f k s)) = None"
  proof (cases r)
    case None
    then show ?thesis using f by (intro exI[of _ 0]) simp
  next
    case (Some e)
    then have "rd f s' = Some y" using body f by simp
    then obtain k where "fst (f (after_attempts f k s')) = None" using IH by blast
    then show ?thesis using f by (intro exI[of _ "Suc k"]) simp
  qed
qed

lemma retry_do_ok: "retries_until_success retry_do"
proof -
  have "retry_do f s = None" if "\<forall>i. fst (f (after_attempts f i s)) \<noteq> None" for f :: "('s, go_error option) io" and s
    using retry_do_returns[of f s] that by (meson not_None_eq)
  then show ?thesis unfolding retries_until_success_def by (blast intro: retry_do_success)
qed

lemma first_success:
  assumes "fst (f (after_attempts f k0 s)) = None"
  obtains k where "fst (f (after_attempts f k s)) = None" and "\<forall>i<k. fst (f (after_attempts f i s)) \<noteq> None"
proof -
  define k where "k = (LEAST k. fst (f (after_attempts f k s)) = None)"
  have "fst (f (after_attempts f k s)) = None" unfolding k_def using assms by (rule LeastI)
  moreover have "\<forall>i<k. fst (f (after_attempts f i s)) \<noteq> None" unfolding k_def using not_less_Least by blast
  ultimately show ?thesis using that by blast
qed

lemma retrier_returns:
  assumes "retries_until_success R" and "fst (f (after_attempts f k s)) = None"
  shows "\<exists>m. R f s = Some (None, after_attempts f (Suc m) s) \<and> fst (f (after_attempts f m s)) = None"
proof -
  obtain m where m: "fst (f (after_attempts f m s)) = None" "\<forall>i<m. fst (f (after_attempts f i s)) \<noteq> None"
    using assms(2) by (rule first_success)
  then have "R f s = Some (None, after_attempts f (Suc m) s)"
    using assms(1) unfolding retries_until_success_def by blast
  then show ?thesis using m by blast
qed

lemma retrier_stuck:
  "retries_until_success R \<Longrightarrow> \<forall>i. fst (f (after_attempts f i s)) \<noteq> None \<Longrightarrow> R f s = None"
  unfolding retries_until_success_def by blast

lemma after_attempts_Suc: "after_attempts f (Suc k) s = snd (f (after_attempts f k s))"
  by (induction k arbitrary: s) simp_all

lemma retrier_result:
  assumes "retries_until_success R" and "R f s = Some (r, s')"
  shows "r = None \<and> (\<exists>k. s' = snd (f (after_attempts f k s)) \<and> fst (f (after_attempts f k s)) = None)"
proof -
  obtain k0 where "fst (f (after_attempts f k0 s)) = None"
    using retrier_stuck[OF assms(1), of f s] assms(2) by (metis option.distinct(1))
  from retrier_returns[of R f k0 s, OF assms(1) this] obtain m where
    m: "R f s = Some (None, after_attempts f (Suc m) s)" "fst (f (after_attempts f m s)) = None" by blast
  then have "r = None" "s' = snd (f (after_attempts f m s))" using assms(2) unfolding after_attempts_Suc by simp_all
  then show ?thesis using m(2) by blast
qed

lemma after_attempts_invariant:
  assumes "P s" and "\<And>s. P s \<Longrightarrow> P (snd (f s))"
  shows "P (after_attempts f k s)"
  using assms by (induction k arbitrary: s) auto

text \<open>What the two actions do to the queue they set up.\<close>

definition set_up :: "string \<Rightarrow> string \<Rightarrow> JetStream \<Rightarrow> bool" where
  "set_up url name j \<longleftrightarrow> js_URL j = url \<and> js_StreamName j = name"

lemma connect_attempt_keeps: "set_up url name (fst jw) \<Longrightarrow> set_up url name (fst (snd (connect_attempt N jw)))"
  by (auto simp: connect_attempt_def js_Connect_def set_up_def split: prod.splits option.splits)

lemma connect_attempt_success: "fst (connect_attempt N jw) = None \<Longrightarrow> js_Connected (fst (snd (connect_attempt N jw)))"
  by (auto simp: connect_attempt_def js_Connect_def split: prod.splits option.splits)

lemma init_attempt_keeps:
  "set_up url name (fst jw) \<and> js_Connected (fst jw) \<Longrightarrow>
   set_up url name (fst (snd (init_attempt N cfg jw))) \<and> js_Connected (fst (snd (init_attempt N cfg jw)))"
  by (auto simp: init_attempt_def js_Init_def CreateSubscription_def set_up_def split: prod.splits option.splits)

lemma init_attempt_success: "fst (init_attempt N cfg jw) = None \<Longrightarrow> js_Subscribed (fst (snd (init_attempt N cfg jw)))"
  by (auto simp: init_attempt_def js_Init_def CreateSubscription_def split: prod.splits option.splits)

definition ready :: "string \<Rightarrow> string \<Rightarrow> JetStream \<Rightarrow> bool" where
  "ready url name j \<longleftrightarrow> set_up url name j \<and> js_Connected j \<and> js_Subscribed j"

text \<open>The connection attempts that matter begin with a new queue, the initialisations with a connected one.\<close>

lemma connect_phase:
  assumes "retries_until_success R"
    and "R (connect_attempt N) (NewJetstream url name, w) = Some (r, (j, w1))"
  shows "r = None \<and> set_up url name j \<and> js_Connected j"
proof -
  obtain k where "r = None" and jw: "(j, w1) = snd (connect_attempt N (after_attempts (connect_attempt N) k (NewJetstream url name, w)))"
    and ok: "fst (connect_attempt N (after_attempts (connect_attempt N) k (NewJetstream url name, w))) = None"
    using retrier_result[OF assms] by blast
  let ?jw = "after_attempts (connect_attempt N) k (NewJetstream url name, w)"
  have "set_up url name (fst ?jw)"
    using after_attempts_invariant[of "\<lambda>jw. set_up url name (fst jw)" "(NewJetstream url name, w)" "connect_attempt N" k]
      connect_attempt_keeps by (fastforce simp: NewJetstream_def set_up_def)
  from connect_attempt_keeps[OF this, of N] connect_attempt_success[OF ok] \<open>r = None\<close>
  show ?thesis by (simp flip: jw)
qed

lemma init_phase:
  assumes "retries_until_success R" and "set_up url name j" "js_Connected j"
    and "R (init_attempt N cfg) (j, w) = Some (r, (j', w1))"
  shows "r = None \<and> ready url name j'"
proof -
  obtain k where "r = None" and jw: "(j', w1) = snd (init_attempt N cfg (after_attempts (init_attempt N cfg) k (j, w)))"
    and ok: "fst (init_attempt N cfg (after_attempts (init_attempt N cfg) k (j, w))) = None"
    using retrier_result[OF assms(1,4)] by blast
  let ?jw = "after_attempts (init_attempt N cfg) k (j, w)"
  have "set_up url name (fst ?jw) \<and> js_Connected (fst ?jw)"
    using after_attempts_invariant[of "\<lambda>jw. set_up url name (fst jw) \<and> js_Connected (fst jw)" "(j, w)" "init_attempt N cfg" k]
      init_attempt_keeps assms(2,3) by fastforce
  from init_attempt_keeps[OF this, of N cfg] init_attempt_success[OF ok] \<open>r = None\<close>
  show ?thesis by (simp add: ready_def flip: jw)
qed

lemma createJetStreamQueue_ready:
  assumes "retries_until_success R" and "createJetStreamQueue R N url cfg w = Some ((q, err), w')"
  shows "err = None \<and> (\<exists>j. q = Some j \<and> ready url (st_Name cfg) j)"
  using assms(2)
  by (auto simp: createJetStreamQueue_def split: option.splits dest!: connect_phase[OF assms(1)] init_phase[OF assms(1), rotated 2])

section \<open>The server is wired\<close>

text \<open>
  A server whose parts fit: two queues, from which the worker reads what the event service writes,
  each in its lane, and which are both ready for use.
\<close>

definition queue_ready :: "string \<Rightarrow> string \<Rightarrow> server_queue \<Rightarrow> bool" where
  "queue_ready url name q = (case q of
     ChannelQ c \<Rightarrow> url = [] \<and> c = NewChannelQueue
   | JetStreamQ j \<Rightarrow> url \<noteq> [] \<and> (case j of None \<Rightarrow> False | Some j \<Rightarrow> ready url name j))"

definition wired :: "string \<Rightarrow> string \<Rightarrow> ('s, 'cred) TarianServer \<Rightarrow> bool" where
  "wired url name srv \<longleftrightarrow>
     (let e = srv_EventServer srv; i = srv_IngestionWorker srv; qs = srv_queues srv in
      evs_queue e = iw_IngestionQueue i \<and> evs_queueForEventDetection e = iw_IngestionQueueForEventDetection i \<and>
      evs_queue e \<noteq> evs_queueForEventDetection e \<and>
      evs_queue e < length qs \<and> evs_queueForEventDetection e < length qs \<and>
      queue_ready url name (qs ! evs_queue e) \<and>
      queue_ready url (name @ ''-type-detection'') (qs ! evs_queueForEventDetection e) \<and>
      evs_store e = iw_eventStore i \<and> srv_eventStore srv = iw_eventStore i)"

lemma server_queues_ready:
  assumes "retries_until_success R" and "server_queues R N url cfg w = Some (r, w')"
  shows "\<exists>q1 q2. r = Inr [q1, q2] \<and> queue_ready url (st_Name cfg) q1 \<and> queue_ready url (st_Name cfg @ ''-type-detection'') q2"
proof (cases "url = []")
  case True
  then show ?thesis using assms(2) by (auto simp: server_queues_def queue_ready_def)
next
  case False
  have "r = Inr [JetStreamQ q1, JetStreamQ q2] \<and> queue_ready url (st_Name cfg) (JetStreamQ q1) \<and>
      queue_ready url (st_Name cfg @ ''-type-detection'') (JetStreamQ q2)"
    if "createJetStreamQueue R N url cfg w = Some ((q1, e1), w1)"
      "createJetStreamQueue R N url (detection_config cfg) w1 = Some ((q2, e2), w2)" for q1 e1 w1 q2 e2 w2
    using createJetStreamQueue_ready[OF assms(1) that(1)] createJetStreamQueue_ready[OF assms(1) that(2)]
      assms(2) that False
    by (auto simp: server_queues_def queue_ready_def detection_config_def Let_def)
  then show ?thesis using assms(2) False createJetStreamQueue_ready[OF assms(1)]
    by (fastforce simp: server_queues_def split: option.splits prod.splits if_splits)
qed

text \<open>
  C12: every server that \<^verbatim>\<open>NewServer\<close> returns is wired: it has two different queues, the ingestion worker
  reads the events from the queues that the event service publishes them to, and both are ready,
  empty channels without a NATS address and otherwise JetStream queues that are connected and
  subscribed, with different streams. When \<^verbatim>\<open>NewServer\<close> returns at all, it returns a server.
\<close>

theorem NewServer_wired:
  assumes "retries_until_success R"
    and "NewServer R N LoadTLS storeSet certFile keyFile url cfg w = Some (r, w')"
  shows "\<exists>srv. r = Inr srv \<and> wired url (st_Name cfg) srv"
proof -
  obtain q1 q2 where "server_queues R N url cfg w = Some (Inr [q1, q2], w')"
    and "queue_ready url (st_Name cfg) q1" "queue_ready url (st_Name cfg @ ''-type-detection'') q2"
    using assms(2) server_queues_ready[OF assms(1)]
    by (fastforce simp: NewServer_def split: option.splits sum.splits prod.splits)
  then show ?thesis using assms(2)
    by (auto simp: NewServer_def wired_def NewEventServer_def NewIngestionWorker_def Let_def)
qed

text \<open>NATS can be used: from every state, some later attempt succeeds.\<close>

definition nats_comes_up :: "'w nats \<Rightarrow> bool" where
  "nats_comes_up N \<longleftrightarrow>
     (\<forall>jw. \<exists>k. fst (connect_attempt N (after_attempts (connect_attempt N) k jw)) = None) \<and>
     (\<forall>c jw. js_Connected (fst jw) \<longrightarrow> (\<exists>k. fst (init_attempt N c (after_attempts (init_attempt N c) k jw)) = None))"

text \<open>NATS cannot be reached: no attempt to connect succeeds.\<close>

definition nats_down :: "'w nats \<Rightarrow> JetStream \<times> 'w \<Rightarrow> bool" where
  "nats_down N jw \<longleftrightarrow> (\<forall>i. fst (connect_attempt N (after_attempts (connect_attempt N) i jw)) \<noteq> None)"

lemma createJetStreamQueue_down:
  "retries_until_success R \<Longrightarrow> nats_down N (NewJetstream url (st_Name cfg), w) \<Longrightarrow> createJetStreamQueue R N url cfg w = None"
  by (simp add: createJetStreamQueue_def nats_down_def retrier_stuck)

lemma createJetStreamQueue_up:
  assumes "retries_until_success R" and "nats_comes_up N"
  shows "\<exists>j w'. createJetStreamQueue R N url cfg w = Some ((Some j, None), w')"
proof -
  obtain k where "fst (connect_attempt N (after_attempts (connect_attempt N) k (NewJetstream url (st_Name cfg), w))) = None"
    using assms(2) unfolding nats_comes_up_def by blast
  then obtain j w1 where c: "R (connect_attempt N) (NewJetstream url (st_Name cfg), w) = Some (None, (j, w1))"
    using retrier_returns[of R "connect_attempt N" k, OF assms(1)] by (metis surj_pair)
  then have "js_Connected (fst (j, w1))" using connect_phase[OF assms(1)] by fastforce
  then obtain l where "fst (init_attempt N cfg (after_attempts (init_attempt N cfg) l (j, w1))) = None"
    using assms(2) unfolding nats_comes_up_def by blast
  then obtain j' w2 where "R (init_attempt N cfg) (j, w1) = Some (None, (j', w2))"
    using retrier_returns[of R "init_attempt N cfg" l, OF assms(1)] by (metis surj_pair)
  with c show ?thesis by (simp add: createJetStreamQueue_def)
qed


text \<open>A NATS server that refuses the first two connections.\<close>

definition slow_nats :: "nat nats" where
  "slow_nats = flaky_nats\<lparr>nats_Connect := (\<lambda>_ w. (if w < 2 then Some ErrTimeout else None, Suc w))\<rparr>"

definition dead_nats :: "nat nats" where
  "dead_nats = flaky_nats\<lparr>nats_Connect := (\<lambda>_ w. (Some ErrTimeout, w))\<rparr>"

definition sample_config :: StreamConfig where
  "sample_config = run_streamConfig run_addFlags"

definition sample_stores :: "node list store_set" where
  "sample_stores = dgraph_store_set mem_dgraph \<lparr>tc_format = (\<lambda>_. []), tc_parse = (\<lambda>_. None)\<rparr> 0"

definition no_tls :: "string \<Rightarrow> string \<Rightarrow> go_error + unit" where
  "no_tls c k = Inl (ExtError ''no such file'')"

lemma slow_connect: "connect_attempt slow_nats (j, w) =
    (if w < 2 then (Some (Wrap ''createJetStreamQueue: %w'' (Some (Wrap ''nats: jetstream connect: failed to connect to NATS server: %w'' (Some ErrTimeout)))), (j, Suc w))
     else (None, (j\<lparr>js_Connected := True\<rparr>, Suc w)))"
  by (simp add: connect_attempt_def js_Connect_def slow_nats_def flaky_nats_def Errorf_w_def)

lemma slow_init: "js_Connected j \<Longrightarrow> init_attempt slow_nats c (j, w) = (None, (j\<lparr>js_Subscribed := True\<rparr>, w))"
  by (simp add: init_attempt_def js_Init_def CreateStreamIfNotExist_def CreateConsumer_def CreateSubscription_def
      slow_nats_def flaky_nats_def)

lemma slow_nats_comes_up: "nats_comes_up slow_nats"
  unfolding nats_comes_up_def
proof (intro conjI allI impI)
  fix jw :: "JetStream \<times> nat"
  obtain j w where jw: "jw = (j, w)" by (cases jw)
  have "fst (connect_attempt slow_nats (after_attempts (connect_attempt slow_nats) (2 - w) jw)) = None"
  proof (cases "w < 2")
    case True
    then have "w = 0 \<or> w = 1" by auto
    then show ?thesis using jw by (auto simp: slow_connect numeral_2_eq_2)
  qed (simp add: jw slow_connect)
  then show "\<exists>k. fst (connect_attempt slow_nats (after_attempts (connect_attempt slow_nats) k jw)) = None" by blast
next
  fix c and jw :: "JetStream \<times> nat"
  assume "js_Connected (fst jw)"
  then have "fst (init_attempt slow_nats c (after_attempts (init_attempt slow_nats c) 0 jw)) = None"
    by (cases jw) (simp add: slow_init)
  then show "\<exists>k. fst (init_attempt slow_nats c (after_attempts (init_attempt slow_nats c) k jw)) = None" by blast
qed

lemma dead_nats_down: "nats_down dead_nats jw"
  by (simp add: nats_down_def connect_attempt_def js_Connect_def dead_nats_def flaky_nats_def Errorf_w_def)

definition sample_NewServer :: "nat nats \<Rightarrow> string \<Rightarrow> ((go_error + (node list, unit) TarianServer) \<times> nat) option" where
  "sample_NewServer N url = NewServer retry_do N no_tls sample_stores [] [] url sample_config 0"


theorem NewServer_wired_witness:
  "\<exists>srv w'. sample_NewServer slow_nats [] = Some (Inr srv, w') \<and> wired [] (st_Name sample_config) srv"
proof -
  obtain r w' where r: "sample_NewServer slow_nats [] = Some (r, w')"
    by (simp add: sample_NewServer_def NewServer_def server_queues_def)
  then show ?thesis using NewServer_wired[OF retry_do_ok r[unfolded sample_NewServer_def]] by blast
qed

text \<open>
  A server that is given certificate files it cannot read runs all the same, without TLS: \<^verbatim>\<open>run\<close> gets
  to serving with credentials nil, exactly as if no files had been given.
\<close>

theorem unreadable_certificate_serves_plaintext:
  assumes "sl_LoadTLS L cert key = Inl err"
  shows "server_run L E Getenv T now D None (c\<lparr>run_tlsCertFile := cert, run_tlsPrivateKeyFile := key\<rparr>) w =
     server_run L E Getenv T now D None (c\<lparr>run_tlsCertFile := [], run_tlsPrivateKeyFile := []\<rparr>) w"
proof -
  have "server_creds (sl_LoadTLS L) cert key = server_creds (sl_LoadTLS L) [] []"
    using assms by (simp add: server_creds_def)
  then show ?thesis
    by (simp add: server_run_def NewServer_def run_streamConfig_def run_alerts_def nats_options_def
        cong: if_cong cong del: option.case_cong_weak sum.case_cong_weak prod.case_cong_weak let_weak_cong)
qed

end
