(* ===== verification/ClusterAgent.thy ===== *)
theory ClusterAgent
  imports Labels
begin

text \<open>
  The cluster agent (\<^verbatim>\<open>pkg/clusteragent\<close>): the cache of constraints, the gRPC services that pass requests on
  to the server, and the action handler, which deletes pods. The remote calls and the Kubernetes
  client are parameters; the pods of the cluster and the server are the state \<open>'w\<close> they act on.
\<close>

section \<open>config\_cache.go\<close>

record ConfigCache =
  cc_constraints :: "Constraint slice"
  cc_constraintsInitialized :: bool

definition NewConfigCache :: ConfigCache where
  "NewConfigCache = \<lparr>cc_constraints = None, cc_constraintsInitialized = False\<rparr>"

definition cc_SetConstraints :: "Constraint slice \<Rightarrow> ConfigCache \<Rightarrow> ConfigCache" where
  "cc_SetConstraints cs cc = cc\<lparr>cc_constraints := cs\<rparr>"

definition cc_GetConstraints :: "ConfigCache \<Rightarrow> Constraint slice" where
  "cc_GetConstraints cc = cc_constraints cc"

definition IsConstraintInitialized :: "ConfigCache \<Rightarrow> bool" where
  "IsConstraintInitialized cc = cc_constraintsInitialized cc"

text \<open>An error is logged and the nil response is read all the same.\<close>

definition cc_SyncConstraints ::
  "('w, GetConstraintsRequest, GetConstraintsResponse) rpc \<Rightarrow> ConfigCache \<Rightarrow> ('w, ConfigCache) io" where
  "cc_SyncConstraints getConstraints cc w =
     (case getConstraints \<lparr>gcr_Namespace = [], gcr_Labels = None\<rparr> w of
        (r, w') \<Rightarrow> ((cc_SetConstraints (GetConstraints_list r) cc)\<lparr>cc_constraintsInitialized := True\<rparr>, w'))"

section \<open>grpc\_servers.go\<close>

text \<open>The client of the server's services.\<close>

record 'w server_client =
  sc_GetConstraints :: "('w, GetConstraintsRequest, GetConstraintsResponse) rpc"
  sc_AddConstraint :: "('w, AddConstraintRequest, AddConstraintResponse) rpc"
  sc_RemoveConstraint :: "('w, RemoveConstraintRequest, RemoveConstraintResponse) rpc"
  sc_GetActions :: "('w, GetActionsRequest, GetActionsResponse) rpc"
  sc_IngestEvent :: "('w, IngestEventRequest, IngestEventResponse) rpc"

record proxy =
  px_enableAddConstraint :: bool

definition NewProxy :: proxy where
  "NewProxy = \<lparr>px_enableAddConstraint = False\<rparr>"

definition px_EnableAddConstraint :: "bool \<Rightarrow> proxy \<Rightarrow> proxy" where
  "px_EnableAddConstraint val px = px\<lparr>px_enableAddConstraint := val\<rparr>"

definition px_GetConstraints :: "'w server_client \<Rightarrow> ('w, GetConstraintsRequest, GetConstraintsResponse) rpc" where
  "px_GetConstraints S request = sc_GetConstraints S request"

definition px_AddConstraint :: "'w server_client \<Rightarrow> proxy \<Rightarrow> ('w, AddConstraintRequest, AddConstraintResponse) rpc" where
  "px_AddConstraint S px request w =
     (if \<not> px_enableAddConstraint px then
        (Inl (Wrap ''AddConstraint: %w''
           (Some (StatusErr Unimplemented ''Method AddConstraint is disabled in tarian-cluster-agent''))), w)
      else sc_AddConstraint S request w)"

definition px_RemoveConstraint :: "'w server_client \<Rightarrow> proxy \<Rightarrow> ('w, RemoveConstraintRequest, RemoveConstraintResponse) rpc" where
  "px_RemoveConstraint S px request w =
     (if \<not> px_enableAddConstraint px then
        (Inl (Wrap ''RemoveConstraint: %w''
           (Some (StatusErr Unimplemented ''Method RemoveConstraint is not supported in tarian-cluster-agent, send it to tarian-server instead.''))), w)
      else sc_RemoveConstraint S request w)"

section \<open>action\_handler.go\<close>

record actionHandler =
  ah_eventsChan :: "Event option list"
  ah_actions :: "Action slice"

definition newActionHandler :: actionHandler where
  "newActionHandler = \<lparr>ah_eventsChan = [], ah_actions = None\<rparr>"

definition eventsChan_capacity :: nat where "eventsChan_capacity = 4096"

text \<open>A full channel blocks: \<open>None\<close>.\<close>

definition QueueEvent :: "Event option \<Rightarrow> actionHandler \<Rightarrow> actionHandler option" where
  "QueueEvent event ah =
     (if length (ah_eventsChan ah) < eventsChan_capacity
      then Some (ah\<lparr>ah_eventsChan := ah_eventsChan ah @ [event]\<rparr>) else None)"

text \<open>\<^verbatim>\<open>IngestEvent\<close> of the cluster agent: the event is queued whatever the server answered.\<close>

definition px_IngestEvent ::
  "'w server_client \<Rightarrow> actionHandler \<Rightarrow> IngestEventRequest \<Rightarrow> 'w \<Rightarrow>
   (((go_error + IngestEventResponse) \<times> actionHandler) option \<times> 'w)" where
  "px_IngestEvent S ah request w = (case sc_IngestEvent S request w of
     (r, w') \<Rightarrow> (map_option (\<lambda>ah'. (r, ah')) (QueueEvent (ier_Event request) ah), w'))"

text \<open>
  The Kubernetes client: \<^verbatim>\<open>Pods(ns).Get(name)\<close>, of which the creation time matters, and
  \<^verbatim>\<open>Pods(ns).Delete(name)\<close>. There may be no client.
\<close>

record 'w k8s_client =
  k8s_Get :: "string \<Rightarrow> string \<Rightarrow> ('w, go_error + Timestamp) io"
  k8s_Delete :: "string \<Rightarrow> string \<Rightarrow> ('w, go_error option) io"

definition actionMatchesPod :: "'s strset \<Rightarrow> Action \<Rightarrow> Pod \<Rightarrow> bool" where
  "actionMatchesPod S action pod =
     (if a_Namespace action \<noteq> pod_Namespace pod then False
      else if a_Selector action = None \<or> GetMatchLabels (a_Selector action) = None then True
      else
        let actionLabels = label_set S (matchlabel_pairs (GetMatchLabels (a_Selector action)));
            podLabels = label_set S (label_pairs (pod_Labels pod))
        in ss_IsSubset S podLabels actionLabels)"

text \<open>The nil timestamp is read as the Unix epoch.\<close>

definition isEventTimestampRecent ::
  "'w k8s_client option \<Rightarrow> Timestamp option \<Rightarrow> Pod \<Rightarrow> ('w, bool) io" where
  "isEventTimestampRecent K t podInfo w = (case K of
     None \<Rightarrow> (False, w)
   | Some k \<Rightarrow> (case k8s_Get k (pod_Namespace podInfo) (pod_Name podInfo) w of
       (Inl err, w') \<Rightarrow> (False, w')
     | (Inr created, w') \<Rightarrow> (created < (case t of None \<Rightarrow> 0 | Some x \<Rightarrow> x), w')))"

definition podDeletedRequest :: "Timestamp \<Rightarrow> Pod \<Rightarrow> IngestEventRequest" where
  "podDeletedRequest now pod = \<lparr>ier_Event = Some \<lparr>e_Kind = [], e_Type = EventTypePodDeleted, e_Uid = [],
     e_ServerTimestamp = None, e_ClientTimestamp = Some now, e_AlertSentAt = None,
     e_Targets = Some [zero_Target\<lparr>t_Pod := Some pod\<rparr>]\<rparr>\<rparr>"

text \<open>The error of the call is wrapped also when it is nil: the result is never nil.\<close>

definition ingestPodDeletedEvent ::
  "('w, IngestEventRequest, IngestEventResponse) rpc \<Rightarrow> Timestamp \<Rightarrow> Pod \<Rightarrow> ('w, go_error option) io" where
  "ingestPodDeletedEvent ingestEvent now pod w = (case ingestEvent (podDeletedRequest now pod) w of
     (Inl err, w') \<Rightarrow> (Errorf_w ''ingestPodDeletedEvent: %w'' (Some err), w')
   | (Inr _, w') \<Rightarrow> (Errorf_w ''ingestPodDeletedEvent: %w'' None, w'))"

definition runAction ::
  "'w k8s_client option \<Rightarrow> ('w, IngestEventRequest, IngestEventResponse) rpc \<Rightarrow> Timestamp \<Rightarrow> Action \<Rightarrow> Pod \<Rightarrow> 'w \<Rightarrow> 'w" where
  "runAction K ingestEvent now action pod w =
     (if a_Action action \<noteq> ''delete-pod'' then w
      else case K of
        None \<Rightarrow> w
      | Some k \<Rightarrow> (case k8s_Delete k (pod_Namespace pod) (pod_Name pod) w of
          (None, w') \<Rightarrow> snd (ingestPodDeletedEvent ingestEvent now pod w')
        | (Some err, w') \<Rightarrow> w'))"

definition actionEventFulfilled :: "Action \<Rightarrow> Target \<Rightarrow> bool" where
  "actionEventFulfilled action target =
     (let fulfilled = False;
          fulfilled = (if a_OnViolatedProcess action \<and> length (elems (t_ViolatedProcesses target)) > 0 then True else fulfilled);
          fulfilled = (if a_OnViolatedFile action \<and> length (elems (t_ViolatedFiles target)) > 0 then True else fulfilled);
          fulfilled = (case t_FalcoAlert target of
              None \<Rightarrow> fulfilled
            | Some alert \<Rightarrow> if a_OnFalcoAlert action \<and> priority_le (fa_Priority alert) (a_FalcoPriority action) then True else fulfilled)
      in fulfilled)"

fun process_actions ::
  "'s strset \<Rightarrow> 'w k8s_client option \<Rightarrow> ('w, IngestEventRequest, IngestEventResponse) rpc \<Rightarrow> Timestamp \<Rightarrow>
   Timestamp option \<Rightarrow> Target \<Rightarrow> Pod \<Rightarrow> Action list \<Rightarrow> 'w \<Rightarrow> 'w" where
  "process_actions S K ingestEvent now t target pod [] w = w"
| "process_actions S K ingestEvent now t target pod (action # rest) w =
     process_actions S K ingestEvent now t target pod rest
       (if actionEventFulfilled action target \<and> actionMatchesPod S action pod
        then (case isEventTimestampRecent K t pod w of
                (recent, w') \<Rightarrow> if recent then runAction K ingestEvent now action pod w' else w')
        else w)"

fun process_targets ::
  "'s strset \<Rightarrow> 'w k8s_client option \<Rightarrow> ('w, IngestEventRequest, IngestEventResponse) rpc \<Rightarrow> Timestamp \<Rightarrow>
   Action list \<Rightarrow> Timestamp option \<Rightarrow> Target list \<Rightarrow> 'w \<Rightarrow> 'w" where
  "process_targets S K ingestEvent now actions t [] w = w"
| "process_targets S K ingestEvent now actions t (target # rest) w =
     process_targets S K ingestEvent now actions t rest
       (case t_Pod target of
          None \<Rightarrow> w
        | Some pod \<Rightarrow> process_actions S K ingestEvent now t target pod actions w)"

definition ProcessActions ::
  "'s strset \<Rightarrow> 'w k8s_client option \<Rightarrow> ('w, IngestEventRequest, IngestEventResponse) rpc \<Rightarrow> Timestamp \<Rightarrow>
   actionHandler \<Rightarrow> Event option \<Rightarrow> 'w \<Rightarrow> 'w" where
  "ProcessActions S K ingestEvent now ah event w =
     (case Event_GetTargets event of
        None \<Rightarrow> w
      | Some targets \<Rightarrow>
          process_targets S K ingestEvent now (elems (ah_actions ah)) (Event_GetClientTimestamp event) targets w)"

definition SetActions :: "Action slice \<Rightarrow> actionHandler \<Rightarrow> actionHandler" where
  "SetActions actions ah = ah\<lparr>ah_actions := actions\<rparr>"

definition SyncActions :: "('w, GetActionsRequest, GetActionsResponse) rpc \<Rightarrow> actionHandler \<Rightarrow> ('w, actionHandler) io" where
  "SyncActions getActions ah w = (case getActions \<lparr>gar_Namespace = [], gar_Labels = None\<rparr> w of
     (r, w') \<Rightarrow> (SetActions (GetActions_list r) ah, w'))"

text \<open>A round of the loop of \<^verbatim>\<open>Run\<close>; it waits when no event is queued.\<close>

definition run_round ::
  "'s strset \<Rightarrow> 'w k8s_client option \<Rightarrow> ('w, IngestEventRequest, IngestEventResponse) rpc \<Rightarrow> Timestamp \<Rightarrow>
   actionHandler \<Rightarrow> 'w \<Rightarrow> (actionHandler \<times> 'w) option" where
  "run_round S K ingestEvent now ah w = (case ah_eventsChan ah of
     [] \<Rightarrow> None
   | e # rest \<Rightarrow> Some (ah\<lparr>ah_eventsChan := rest\<rparr>, ProcessActions S K ingestEvent now ah e w))"

section \<open>Pods are deleted for a reason\<close>

text \<open>
  A cluster whose pods were created at known times, a record of the deletions in the order they were
  asked for, and deletions that succeed or not as given.
\<close>

definition recording_k8s :: "(string \<times> string \<Rightarrow> Timestamp option) \<Rightarrow> (string \<times> string \<Rightarrow> bool) \<Rightarrow> (string \<times> string) list k8s_client" where
  "recording_k8s created refuses =
     \<lparr>k8s_Get = (\<lambda>ns nm w. (case created (ns, nm) of None \<Rightarrow> Inl (ExtError ''not found'') | Some t \<Rightarrow> Inr t, w)),
      k8s_Delete = (\<lambda>ns nm w. (if refuses (ns, nm) then Some (ExtError ''refused'') else None, w @ [(ns, nm)]))\<rparr>"

definition triggers :: "Action \<Rightarrow> Target \<Rightarrow> bool" where
  "triggers a t \<longleftrightarrow>
     a_OnViolatedProcess a \<and> elems (t_ViolatedProcesses t) \<noteq> [] \<or>
     a_OnViolatedFile a \<and> elems (t_ViolatedFiles t) \<noteq> [] \<or>
     a_OnFalcoAlert a \<and> (\<exists>al. t_FalcoAlert t = Some al \<and> sint (fa_Priority al) \<le> sint (a_FalcoPriority a))"

definition plain_action :: "Action \<Rightarrow> bool" where
  "plain_action a = plain_keys (matchlabel_pairs (GetMatchLabels (a_Selector a)))"

text \<open>When an action calls for the deletion of the pod of a target.\<close>

definition deletes :: "(string \<times> string \<Rightarrow> Timestamp option) \<Rightarrow> Timestamp \<Rightarrow> Target \<Rightarrow> Pod \<Rightarrow> Action \<Rightarrow> bool" where
  "deletes created t target pod a \<longleftrightarrow>
     a_Action a = ''delete-pod'' \<and> a_Namespace a = pod_Namespace pod \<and>
     selects (a_Selector a) (label_pairs (pod_Labels pod)) \<and> triggers a target \<and>
     (\<exists>c. created (pod_Namespace pod, pod_Name pod) = Some c \<and> c < t)"

lemma actionEventFulfilled_iff: "actionEventFulfilled a t \<longleftrightarrow> triggers a t"
  by (auto simp: actionEventFulfilled_def triggers_def priority_le_def Let_def split: option.splits)

lemma actionMatchesPod_iff:
  assumes "strset_ok S mem" "plain_keys (label_pairs (pod_Labels pod))" "plain_action a"
  shows "actionMatchesPod S a pod \<longleftrightarrow>
     a_Namespace a = pod_Namespace pod \<and> selects (a_Selector a) (label_pairs (pod_Labels pod))"
proof -
  have "actionMatchesPod S a pod \<longleftrightarrow> a_Namespace a = pod_Namespace pod \<and>
      (no_selector (a_Selector a) \<or> labels_include S (label_pairs (pod_Labels pod)) (a_Selector a))"
    by (auto simp: actionMatchesPod_def no_selector_def labels_include_def Let_def)
  then show ?thesis
    using assms labels_include_iff[OF assms(1,2), of "a_Selector a"]
    by (auto simp: plain_action_def dest: no_selector_selects)
qed

definition deaf_server :: "((string \<times> string) list, IngestEventRequest, IngestEventResponse) rpc" where
  "deaf_server req w = (Inr \<lparr>iep_Success = True\<rparr>, w)"

lemma runAction_recorded:
  "runAction (Some (recording_k8s created refuses)) deaf_server now a pod w =
     (if a_Action a = ''delete-pod'' then w @ [(pod_Namespace pod, pod_Name pod)] else w)"
  by (auto simp: runAction_def recording_k8s_def ingestPodDeletedEvent_def deaf_server_def)

lemma process_actions_recorded:
  assumes "strset_ok S mem" "plain_keys (label_pairs (pod_Labels pod))" "\<forall>a\<in>set as. plain_action a"
  shows "process_actions S (Some (recording_k8s created refuses)) deaf_server now t target pod as w =
     w @ map (\<lambda>_. (pod_Namespace pod, pod_Name pod))
       (filter (deletes created (case t of None \<Rightarrow> 0 | Some x \<Rightarrow> x) target pod) as)"
  using assms(3)
proof (induction as arbitrary: w)
  case (Cons a as)
  have recent: "isEventTimestampRecent (Some (recording_k8s created refuses)) t pod w =
      ((\<exists>c. created (pod_Namespace pod, pod_Name pod) = Some c \<and> c < (case t of None \<Rightarrow> 0 | Some x \<Rightarrow> x)), w)" for w
    by (simp add: isEventTimestampRecent_def recording_k8s_def split: option.splits)
  show ?case
    using Cons actionMatchesPod_iff[OF assms(1,2), of a]
    by (auto simp: recent runAction_recorded actionEventFulfilled_iff deletes_def)
qed simp

lemma process_targets_recorded:
  assumes "strset_ok S mem" "\<forall>a\<in>set as. plain_action a"
    and "\<forall>tg\<in>set ts. \<forall>pod. t_Pod tg = Some pod \<longrightarrow> plain_keys (label_pairs (pod_Labels pod))"
  shows "process_targets S (Some (recording_k8s created refuses)) deaf_server now as t ts w =
     w @ concat (map (\<lambda>tg. case t_Pod tg of None \<Rightarrow> []
       | Some pod \<Rightarrow> map (\<lambda>_. (pod_Namespace pod, pod_Name pod))
           (filter (deletes created (case t of None \<Rightarrow> 0 | Some x \<Rightarrow> x) tg pod) as)) ts)"
  using assms(3)
  by (induction ts arbitrary: w) (auto simp: process_actions_recorded[OF assms(1) _ assms(2)] split: option.splits)

lemma set_concat_pods:
  "set (concat (map (\<lambda>tg. case t_Pod tg of None \<Rightarrow> [] | Some pod \<Rightarrow> f tg pod) ts)) =
     {x. \<exists>tg pod. tg \<in> set ts \<and> t_Pod tg = Some pod \<and> x \<in> set (f tg pod)}"
proof (induction ts)
  case (Cons tg ts)
  then show ?case by (cases "t_Pod tg") auto
qed simp

text \<open>
  C6: the pods the action handler deletes. Handling an event, it asks Kubernetes to delete exactly the
  pods of the event's targets for which some action of the cache says so: an action of the kind
  delete-pod, of the pod's namespace, whose selector applies to the pod, that is triggered by what
  the target reports (a Falco alert by being at least as severe as the action's priority), and only
  if the pod that has the name now was created before the event. A pod that replaced the one the
  event is about is never deleted.
\<close>

theorem ProcessActions_deletes:
  assumes "strset_ok S mem" and "\<forall>a\<in>set (elems (ah_actions ah)). plain_action a"
    and "\<forall>tg\<in>set (elems (e_Targets e)). \<forall>pod. t_Pod tg = Some pod \<longrightarrow> plain_keys (label_pairs (pod_Labels pod))"
  shows "set (ProcessActions S (Some (recording_k8s created refuses)) deaf_server now ah (Some e) []) =
     {(pod_Namespace pod, pod_Name pod) | pod tg a. tg \<in> set (elems (e_Targets e)) \<and> t_Pod tg = Some pod \<and>
        a \<in> set (elems (ah_actions ah)) \<and>
        deletes created (case e_ClientTimestamp e of None \<Rightarrow> 0 | Some x \<Rightarrow> x) tg pod a}"
proof -
  have "ProcessActions S (Some (recording_k8s created refuses)) deaf_server now ah (Some e) [] =
      concat (map (\<lambda>tg. case t_Pod tg of None \<Rightarrow> []
       | Some pod \<Rightarrow> map (\<lambda>_. (pod_Namespace pod, pod_Name pod))
           (filter (deletes created (case e_ClientTimestamp e of None \<Rightarrow> 0 | Some x \<Rightarrow> x) tg pod) (elems (ah_actions ah))))
        (elems (e_Targets e)))"
    using process_targets_recorded[OF assms]
    by (cases "e_Targets e") (simp_all add: ProcessActions_def Event_GetTargets_def Event_GetClientTimestamp_def)
  then show ?thesis by (simp only: set_concat_pods) auto
qed

definition sample_action :: Action where
  "sample_action = NewAction\<lparr>a_Namespace := ''default'', a_Name := ''x'', a_OnViolatedProcess := True,
     a_Action := ''delete-pod''\<rparr>"

definition sample_violation :: Event where
  "sample_violation = NewEvent\<lparr>e_ClientTimestamp := Some 9, e_Targets := Some [zero_Target\<lparr>
     t_Pod := Some \<lparr>pod_Uid = ''u'', pod_Namespace = ''default'', pod_Name = ''web'', pod_Labels = None\<rparr>,
     t_ViolatedProcesses := Some [\<lparr>p_Pid = 1, p_Name = ''sh''\<rparr>]\<rparr>]\<rparr>"

theorem ProcessActions_deletes_witness:
  "set (ProcessActions list_strset (Some (recording_k8s (\<lambda>_. Some 5) (\<lambda>_. False))) deaf_server 10
     (SetActions (Some [sample_action]) newActionHandler) (Some sample_violation) []) = {(''default'', ''web'')}"
  by (subst ProcessActions_deletes[OF list_strset_ok])
    (auto simp: SetActions_def newActionHandler_def sample_action_def sample_violation_def NewAction_def NewEvent_def
      zero_Target_def plain_action_def plain_keys_def label_pairs_def matchlabel_pairs_def GetMatchLabels_def
      deletes_def triggers_def selects_def)

section \<open>Without a client nothing is deleted\<close>

lemma process_targets_no_client: "process_targets S None ing now as t ts w = w"
proof -
  have "process_actions S None ing now t tg pod as w = w" for tg pod w
    by (induction as arbitrary: w) (auto simp: isEventTimestampRecent_def)
  then show ?thesis by (induction ts arbitrary: w) (auto split: option.splits)
qed

lemma ProcessActions_no_client: "ProcessActions S None ing now ah e w = w"
  by (simp add: ProcessActions_def process_targets_no_client split: option.splits)

section \<open>The cache and the proxies\<close>

text \<open>
  A failed synchronisation empties the cache of constraints and marks it as initialised: from then
  until the next success the agent works as if the server held no constraint, although the cache
  promises to be initialised only once the constraints were synchronised.
\<close>

theorem cc_SyncConstraints_error_wipes:
  assumes "getConstraints \<lparr>gcr_Namespace = [], gcr_Labels = None\<rparr> w = (Inl err, w')"
  shows "fst (cc_SyncConstraints getConstraints cc w) = \<lparr>cc_constraints = None, cc_constraintsInitialized = True\<rparr>"
  using assms by (cases cc) (simp add: cc_SyncConstraints_def cc_SetConstraints_def GetConstraints_list_def)

theorem cc_SyncConstraints_error_wipes_witness:
  "IsConstraintInitialized (fst (cc_SyncConstraints (\<lambda>_ w. (Inl (ExtError ''down''), w)) NewConfigCache ())) \<and>
   cc_GetConstraints (fst (cc_SyncConstraints (\<lambda>_ w. (Inl (ExtError ''down''), w))
     (cc_SetConstraints (Some [NewConstraint]) NewConfigCache) ())) = None"
  using cc_SyncConstraints_error_wipes[of "\<lambda>_ w. (Inl (ExtError ''down''), w)" "()" "ExtError ''down''" "()"]
  by (simp add: IsConstraintInitialized_def cc_GetConstraints_def)

text \<open>
  Unless the cluster agent was started with the permission to add constraints, no request of a
  node or pod agent can change the constraints of the server: both mutating calls are refused
  without being passed on. With the permission they are the server's calls.
\<close>

theorem proxy_gate:
  "(if px_enableAddConstraint px
    then px_AddConstraint S px add w = sc_AddConstraint S add w \<and>
         px_RemoveConstraint S px rem w = sc_RemoveConstraint S rem w
    else (\<exists>e. px_AddConstraint S px add w = (Inl e, w)) \<and> (\<exists>e. px_RemoveConstraint S px rem w = (Inl e, w)))"
  by (simp add: px_AddConstraint_def px_RemoveConstraint_def)

end
