(* ===== verification/FalcoListener.thy ===== *)
theory FalcoListener
  imports ClusterAgent NodeAgent
begin

text \<open>
  The listener for alerts of Falco Sidekick (\<^verbatim>\<open>pkg/clusteragent/falcosidekick_listener.go\<close>) and
  \<^verbatim>\<open>pkg/stringutil\<close>. The decoder of the payload, the lister of pods, regular expressions, the clock and
  the server are parameters. A method call on a nil logger is a nil pointer dereference; the HTTP
  server recovers from it, so that the request has no answer and what was not yet done stays undone.
\<close>

section \<open>stringutil\<close>

definition continuation_byte :: "char \<Rightarrow> bool" where
  "continuation_byte c \<longleftrightarrow> 128 \<le> (of_char c :: nat) \<and> (of_char c :: nat) < 192"

text \<open>The runes of a valid UTF-8 string, each as its bytes.\<close>

function runes :: "string \<Rightarrow> string list" where
  "runes [] = []"
| "runes (c # cs) = (c # takeWhile continuation_byte cs) # runes (dropWhile continuation_byte cs)"
  by pat_completeness auto
termination
  by (relation "measure length") (auto simp: length_dropWhile_le le_imp_less_Suc)

definition Truncate :: "string \<Rightarrow> int \<Rightarrow> string" where
  "Truncate str len =
     (if len \<le> 0 then [] else if int (length (runes str)) \<le> len then str else concat (take (nat len) (runes str)))"

definition sanitizeK8sResourceName :: "string \<Rightarrow> string" where
  "sanitizeK8sResourceName str = remove_char (CHR 0x0A) (Truncate str 253)"

section \<open>The payload\<close>

text \<open>The values of \<^verbatim>\<open>map[string]interface{}\<close>; \<open>FVOther\<close> holds what \<^verbatim>\<open>%s\<close> and \<^verbatim>\<open>%v\<close> print of a nested value.\<close>

datatype falco_value = FVString string | FVNumber string | FVBool bool | FVNull | FVOther string string

record FalcoPayload =
  fp_Output :: string
  fp_Priority :: string
  fp_Rule :: string
  fp_Time :: Timestamp
  fp_OutputFields :: "falco_value gomap option"

fun Sprintf_s :: "falco_value \<Rightarrow> string" where
  "Sprintf_s (FVString s) = s"
| "Sprintf_s (FVNumber s) = s"
| "Sprintf_s (FVBool b) = ''%!s(bool='' @ (if b then ''true'' else ''false'') @ '')''"
| "Sprintf_s FVNull = ''%!s(<nil>)''"
| "Sprintf_s (FVOther s v) = s"

fun Sprintf_v :: "falco_value \<Rightarrow> string" where
  "Sprintf_v (FVString s) = s"
| "Sprintf_v (FVNumber s) = s"
| "Sprintf_v (FVBool b) = (if b then ''true'' else ''false'')"
| "Sprintf_v FVNull = ''<nil>''"
| "Sprintf_v (FVOther s v) = v"

text \<open>Reading a key that is not there, or of a nil map, gives nil.\<close>

definition output_field :: "FalcoPayload \<Rightarrow> string \<Rightarrow> falco_value" where
  "output_field payload k = (case fp_OutputFields payload of
     None \<Rightarrow> FVNull
   | Some m \<Rightarrow> (case map_get m k of None \<Rightarrow> FVNull | Some v \<Rightarrow> v))"

text \<open>\<^verbatim>\<open>strconv.ParseInt(s, 10, 32)\<close>: out of range it returns the nearest value and an error; otherwise an error is 0.\<close>

definition ParseInt32 :: "string \<Rightarrow> int" where
  "ParseInt32 s =
     (let neg = (s \<noteq> [] \<and> hd s = CHR ''-'');
          ds = (if s \<noteq> [] \<and> hd s \<in> {CHR ''-'', CHR ''+''} then tl s else s)
      in if ds = [] \<or> \<not> list_all is_digit ds then 0
         else let v = (if neg then - int (digits_val ds) else int (digits_val ds))
           in max (- (2 ^ 31)) (min (2 ^ 31 - 1) v))"

section \<open>The listener\<close>

record FalcoSidekickListener =
  fl_logger :: bool
  fl_configCache :: ConfigCache

text \<open>The constructor leaves the field \<^verbatim>\<open>logger\<close> nil.\<close>

definition NewFalcoSidekickListener :: "ConfigCache \<Rightarrow> FalcoSidekickListener" where
  "NewFalcoSidekickListener cache = \<lparr>fl_logger = False, fl_configCache = cache\<rparr>"

datatype outcome = Returned | Panicked | Blocked

text \<open>What the handling of an alert acts on: the action handler, and the server.\<close>

type_synonym 'w falco_env = "actionHandler \<times> 'w"

definition log_then :: "FalcoSidekickListener \<Rightarrow> ('e \<Rightarrow> outcome \<times> 'e) \<Rightarrow> 'e \<Rightarrow> outcome \<times> 'e" where
  "log_then f k env = (if fl_logger f then k env else (Panicked, env))"

definition return_now :: "'e \<Rightarrow> outcome \<times> 'e" where
  "return_now env = (Returned, env)"

definition queue_then_return :: "Event \<Rightarrow> 'w falco_env \<Rightarrow> outcome \<times> 'w falco_env" where
  "queue_then_return event env = (case QueueEvent (Some event) (fst env) of
     None \<Rightarrow> (Blocked, env)
   | Some ah \<Rightarrow> (Returned, (ah, snd env)))"

definition tarianRuleSpawnedProcess :: string where
  "tarianRuleSpawnedProcess = ''falco.tarian.dev/v1 detect spawned_process''"

definition getConstraintsMatchingLabels :: "'s strset \<Rightarrow> ConfigCache \<Rightarrow> string gomap \<Rightarrow> Constraint list" where
  "getConstraintsMatchingLabels S cache labels =
     filter (\<lambda>c. \<not> (c_Selector c = None \<or> GetMatchLabels (c_Selector c) = None) \<and>
        ss_IsSubset S (label_set S labels) (label_set S (matchlabel_pairs (GetMatchLabels (c_Selector c)))))
       (elems (cc_GetConstraints cache))"

text \<open>The loop logs before each match and when an expression does not compile: \<open>None\<close> is the panic.\<close>

fun validate_rules :: "FalcoSidekickListener \<Rightarrow> regex \<Rightarrow> string \<Rightarrow> AllowedProcessRule list \<Rightarrow> bool option" where
  "validate_rules f Compile processName [] = Some False"
| "validate_rules f Compile processName (allowedProcess # rest) =
     (if GetRegex allowedProcess = [] then validate_rules f Compile processName rest
      else if \<not> fl_logger f then None
      else (case Compile (GetRegex allowedProcess) of
          Inl err \<Rightarrow> validate_rules f Compile processName rest
        | Inr rgx \<Rightarrow> if rgx processName then Some True else validate_rules f Compile processName rest))"

fun validateProcessAgainstConstraints :: "FalcoSidekickListener \<Rightarrow> regex \<Rightarrow> string \<Rightarrow> Constraint list \<Rightarrow> bool option" where
  "validateProcessAgainstConstraints f Compile processName [] = Some False"
| "validateProcessAgainstConstraints f Compile processName (constraint # rest) =
     (case validate_rules f Compile processName (elems (c_AllowedProcesses constraint)) of
        Some False \<Rightarrow> validateProcessAgainstConstraints f Compile processName rest
      | r \<Rightarrow> r)"

definition fl_matchLabelsFromPodLabels :: "(string \<times> string) list \<Rightarrow> MatchLabel slice" where
  "fl_matchLabelsFromPodLabels labels = Some (map (\<lambda>(k, v). \<lparr>ml_Key = k, ml_Value = v\<rparr>) labels)"

text \<open>The function of the node agent of the same name does the same.\<close>

lemma matchLabelsFromPodLabels_agree: "fl_matchLabelsFromPodLabels labels = matchLabelsFromPodLabels labels"
  by (simp add: fl_matchLabelsFromPodLabels_def matchLabelsFromPodLabels_def)

definition spawnedProcessConstraint :: "Timestamp \<Rightarrow> FalcoPayload \<Rightarrow> k8s_pod \<Rightarrow> Constraint" where
  "spawnedProcessConstraint now payload pod =
     \<lparr>c_Kind = KindConstraint, c_Namespace = Sprintf_s (output_field payload ''k8s.ns.name''),
      c_Name = Sprintf_s (output_field payload ''k8s.pod.name'') @ ''-'' @ name_suffix now,
      c_Selector = Some \<lparr>sel_MatchLabels = fl_matchLabelsFromPodLabels (map_delete ''pod-template-hash'' (kp_Labels pod))\<rparr>,
      c_AllowedProcesses = Some [\<lparr>apr_Regex = Some (Sprintf_s (output_field payload ''proc.name''))\<rparr>],
      c_AllowedFiles = None\<rparr>"

definition registerConstraintFromTarianRuleSpawnedProcessAlert ::
  "FalcoSidekickListener \<Rightarrow> 'w server_client \<Rightarrow> Timestamp \<Rightarrow> FalcoPayload \<Rightarrow> k8s_pod \<Rightarrow> 'w falco_env \<Rightarrow> outcome \<times> 'w falco_env" where
  "registerConstraintFromTarianRuleSpawnedProcessAlert f C now payload pod env =
     (case sc_AddConstraint C \<lparr>acr_Constraint = Some (spawnedProcessConstraint now payload pod)\<rparr> (snd env) of
        (_, w') \<Rightarrow> log_then f return_now (fst env, w'))"

definition pod_labels_pb :: "string gomap \<Rightarrow> Label option slice" where
  "pod_labels_pb m = Some (map (\<lambda>(k, v). Some \<lparr>l_Key = k, l_Value = v\<rparr>) m)"

definition spawnedProcessEvent :: "FalcoPayload \<Rightarrow> k8s_pod \<Rightarrow> Event" where
  "spawnedProcessEvent payload pod =
     \<lparr>e_Kind = [], e_Type = EventTypeFalcoAlert, e_Uid = [], e_ServerTimestamp = None,
      e_ClientTimestamp = Some (fp_Time payload), e_AlertSentAt = None,
      e_Targets = Some [zero_Target\<lparr>
        t_Pod := (if fp_OutputFields payload = None then None
          else Some \<lparr>pod_Uid = kp_UID pod, pod_Namespace = Sprintf_s (output_field payload ''k8s.ns.name''),
                     pod_Name = Sprintf_s (output_field payload ''k8s.pod.name''), pod_Labels = pod_labels_pb (kp_Labels pod)\<rparr>),
        t_ViolatedProcesses := Some [\<lparr>p_Pid = word_of_int (ParseInt32 (Sprintf_v (output_field payload ''proc.pid''))),
                                     p_Name = Sprintf_s (output_field payload ''proc.name'')\<rparr>]\<rparr>]\<rparr>"

text \<open>Whether \<^verbatim>\<open>ParseInt\<close> reports an error, which is logged.\<close>

definition pid_unreadable :: "FalcoPayload \<Rightarrow> bool" where
  "pid_unreadable payload =
     (let s = Sprintf_v (output_field payload ''proc.pid'');
          ds = (if s \<noteq> [] \<and> hd s \<in> {CHR ''-'', CHR ''+''} then tl s else s);
          v = (if s \<noteq> [] \<and> hd s = CHR ''-'' then - int (digits_val ds) else int (digits_val ds))
      in ds = [] \<or> \<not> list_all is_digit ds \<or> v < - (2 ^ 31) \<or> v \<ge> 2 ^ 31)"

text \<open>The call that reports an event, then the log entry, then the error of the call.\<close>

definition report_spawned_process ::
  "FalcoSidekickListener \<Rightarrow> 'w server_client \<Rightarrow> FalcoPayload \<Rightarrow> k8s_pod \<Rightarrow> 'w falco_env \<Rightarrow> outcome \<times> 'w falco_env" where
  "report_spawned_process f C payload pod env =
     (let event = spawnedProcessEvent payload pod;
          report = (\<lambda>env. case sc_IngestEvent C \<lparr>ier_Event = Some event\<rparr> (snd env) of
            (Inl err, w') \<Rightarrow> log_then f return_now (fst env, w')
          | (Inr _, w') \<Rightarrow> log_then f (queue_then_return event) (fst env, w'))
      in if pid_unreadable payload then log_then f report env else report env)"

definition genericAlertEvent :: "FalcoPayload \<Rightarrow> k8s_pod \<Rightarrow> Event" where
  "genericAlertEvent payload pod =
     \<lparr>e_Kind = [], e_Type = EventTypeFalcoAlert, e_Uid = [], e_ServerTimestamp = None,
      e_ClientTimestamp = Some (fp_Time payload), e_AlertSentAt = None,
      e_Targets = Some [zero_Target\<lparr>
        t_Pod := (if fp_OutputFields payload = None then None
          else Some \<lparr>pod_Uid = [], pod_Namespace = Sprintf_s (output_field payload ''k8s.ns.name''),
                     pod_Name = Sprintf_s (output_field payload ''k8s.pod.name''), pod_Labels = pod_labels_pb (kp_Labels pod)\<rparr>),
        t_FalcoAlert := Some \<lparr>fa_Rule = fp_Rule payload, fa_Priority = FalcoPriorityFromString (fp_Priority payload),
          fa_Output = fp_Output payload,
          fa_OutputFields = (case fp_OutputFields payload of None \<Rightarrow> [] | Some m \<Rightarrow> map (\<lambda>(k, v). (k, Sprintf_v v)) m)\<rparr>\<rparr>]\<rparr>"

text \<open>\<^verbatim>\<open>ingestEventFromGenericFalcoAlert\<close>: the event and the error it returns, or a panic.\<close>

definition ingestEventFromGenericFalcoAlert ::
  "FalcoSidekickListener \<Rightarrow> 'w server_client \<Rightarrow> FalcoPayload \<Rightarrow> k8s_pod \<Rightarrow> ('w, (Event \<times> go_error option) option) io" where
  "ingestEventFromGenericFalcoAlert f C payload pod w =
     (let event = genericAlertEvent payload pod
      in case sc_IngestEvent C \<lparr>ier_Event = Some event\<rparr> w of
           (r, w') \<Rightarrow>
             (if fl_logger f
              then Some (event, Errorf_w ''ingestEventFromGenericFalcoAlert: %w'' (case r of Inl err \<Rightarrow> Some err | Inr _ \<Rightarrow> None))
              else None, w'))"

definition processFalcoPayload ::
  "'s strset \<Rightarrow> regex \<Rightarrow> (string \<Rightarrow> string \<Rightarrow> go_error + k8s_pod) \<Rightarrow> 'w server_client \<Rightarrow> Timestamp \<Rightarrow>
   FalcoSidekickListener \<Rightarrow> FalcoPayload \<Rightarrow> 'w falco_env \<Rightarrow> outcome \<times> 'w falco_env" where
  "processFalcoPayload S Compile GetPod C now f payload env =
     (let k8sPodName = Sprintf_s (output_field payload ''k8s.pod.name'');
          k8sNsName = Sprintf_s (output_field payload ''k8s.ns.name'');
          procName = Sprintf_s (output_field payload ''proc.name'')
      in if fp_Rule payload = tarianRuleSpawnedProcess then
           (if \<not> IsConstraintInitialized (fl_configCache f) then log_then f return_now env
            else case GetPod k8sNsName k8sPodName of
              Inl err \<Rightarrow> log_then f return_now env
            | Inr k8sPod \<Rightarrow>
                (let threatScanAnnotationPresent = (map_get (kp_Annotations k8sPod) ThreatScanAnnotation \<noteq> None);
                     registerAnnotation = map_get (kp_Annotations k8sPod) RegisterAnnotation;
                     registerProcess = registers_process
                       (Split (case registerAnnotation of None \<Rightarrow> [] | Some v \<Rightarrow> v) '','') False;
                     matchedConstraints = getConstraintsMatchingLabels S (fl_configCache f) (kp_Labels k8sPod)
                 in if \<not> threatScanAnnotationPresent \<and> registerAnnotation = None then (Returned, env)
                    else (case (if matchedConstraints = [] then Some False
                                else validateProcessAgainstConstraints f Compile procName matchedConstraints) of
                        None \<Rightarrow> (Panicked, env)
                      | Some True \<Rightarrow> (Returned, env)
                      | Some False \<Rightarrow>
                          (if registerProcess then
                             registerConstraintFromTarianRuleSpawnedProcessAlert f C now payload k8sPod env
                           else if matchedConstraints = [] then (Returned, env)
                           else report_spawned_process f C payload k8sPod env))))
         else
           (case GetPod k8sNsName k8sPodName of
              Inl err \<Rightarrow> log_then f return_now env
            | Inr k8sPod \<Rightarrow>
                (case ingestEventFromGenericFalcoAlert f C payload k8sPod (snd env) of
                   (None, w') \<Rightarrow> (Panicked, (fst env, w'))
                 | (Some (event, Some err), w') \<Rightarrow> (Returned, (fst env, w'))
                 | (Some (event, None), w') \<Rightarrow> queue_then_return event (fst env, w'))))"

section \<open>The HTTP handler\<close>

record http_request =
  hr_Method :: string
  hr_Body :: "string option"

text \<open>The JSON decoder, with numbers kept as texts, is a parameter.\<close>

definition newFalcoPayload :: "(string \<Rightarrow> go_error + FalcoPayload) \<Rightarrow> string \<Rightarrow> go_error + FalcoPayload" where
  "newFalcoPayload Decode body = (case Decode body of
     Inl err \<Rightarrow> Inl (Wrap ''newFalcoPayload: %w'' (Some err))
   | Inr falcopayload \<Rightarrow> Inr falcopayload)"

text \<open>The status of the answer; \<open>None\<close> when the handler panicked or still blocks.\<close>

definition handleFalcoAlert ::
  "'s strset \<Rightarrow> regex \<Rightarrow> (string \<Rightarrow> string \<Rightarrow> go_error + k8s_pod) \<Rightarrow> 'w server_client \<Rightarrow> Timestamp \<Rightarrow>
   (string \<Rightarrow> go_error + FalcoPayload) \<Rightarrow> FalcoSidekickListener \<Rightarrow> http_request \<Rightarrow> 'w falco_env \<Rightarrow> nat option \<times> 'w falco_env" where
  "handleFalcoAlert S Compile GetPod C now Decode f r env =
     (case hr_Body r of
        None \<Rightarrow> (Some 400, env)
      | Some body \<Rightarrow>
          (if hr_Method r \<noteq> ''POST'' then (Some 400, env)
           else (case newFalcoPayload Decode body of
               Inl err \<Rightarrow> (if fl_logger f then Some 400 else None, env)
             | Inr payload \<Rightarrow>
                 (case processFalcoPayload S Compile GetPod C now f payload env of
                    (Returned, env') \<Rightarrow> (Some 200, env')
                  | (_, env') \<Rightarrow> (None, env')))))"

section \<open>What reaches the action handler\<close>

lemma ingest_generic_error:
  "ingestEventFromGenericFalcoAlert f C payload pod w = (Some (e, err), w') \<Longrightarrow> err \<noteq> None"
  by (auto simp: ingestEventFromGenericFalcoAlert_def Let_def Errorf_w_def split: prod.splits if_splits)


definition sample_payload :: FalcoPayload where
  "sample_payload = \<lparr>fp_Output = ''shell in container'', fp_Priority = ''Critical'', fp_Rule = ''Terminal shell'', fp_Time = 7,
     fp_OutputFields = Some [(''k8s.pod.name'', FVString ''web''), (''k8s.ns.name'', FVString ''default'')]\<rparr>"

definition ok_client :: "nat server_client" where
  "ok_client = \<lparr>sc_GetConstraints = (\<lambda>_ w. (Inr \<lparr>gcp_Constraints = None\<rparr>, w)),
     sc_AddConstraint = (\<lambda>_ w. (Inr \<lparr>acp_Success = True\<rparr>, Suc w)),
     sc_RemoveConstraint = (\<lambda>_ w. (Inr \<lparr>rcp_Success = True\<rparr>, Suc w)),
     sc_GetActions = (\<lambda>_ w. (Inr \<lparr>gap_Actions = None\<rparr>, w)),
     sc_IngestEvent = (\<lambda>_ w. (Inr \<lparr>iep_Success = True\<rparr>, Suc w))\<rparr>"


text \<open>
  A listener made by its constructor never gives any event to the action handler: its logger is
  nil, and every path that would queue an event writes a log entry after the event was reported and
  before it is queued.
\<close>

theorem constructed_listener_never_queues:
  "fst (snd (processFalcoPayload S Compile GetPod C now (NewFalcoSidekickListener cache) payload env)) = fst env"
proof -
  have nl: "\<not> fl_logger (NewFalcoSidekickListener cache)" by (simp add: NewFalcoSidekickListener_def)
  then show ?thesis
    by (auto simp: processFalcoPayload_def Let_def log_then_def return_now_def report_spawned_process_def
        registerConstraintFromTarianRuleSpawnedProcessAlert_def dest: ingest_generic_error
        split: sum.splits prod.splits option.splits bool.splits)
qed

section \<open>Truncation\<close>

lemma concat_runes: "concat (runes s) = s"
  by (induction s rule: runes.induct) auto

lemma runes_take: "runes (concat (take n (runes s))) = take n (runes s)"
proof (induction s arbitrary: n rule: runes.induct)
  case (2 c cs)
  show ?case
  proof (cases n)
    case (Suc m)
    let ?rest = "concat (take m (runes (dropWhile continuation_byte cs)))"
    have cont: "\<not> continuation_byte x" if "?rest = x # xs" for x xs
    proof -
      have "dropWhile continuation_byte cs \<noteq> []" using that by (metis concat.simps(1) list.distinct(1) runes.simps(1) take_Nil)
      then obtain y ys where "dropWhile continuation_byte cs = y # ys" by (metis neq_Nil_conv)
      moreover from this have "\<not> continuation_byte y" using hd_dropWhile[of continuation_byte cs] by fastforce
      ultimately show ?thesis using that by (cases m) auto
    qed
    have split: "takeWhile continuation_byte (takeWhile continuation_byte cs @ r) = takeWhile continuation_byte cs \<and>
      dropWhile continuation_byte (takeWhile continuation_byte cs @ r) = r"
      if "\<And>x xs. r = x # xs \<Longrightarrow> \<not> continuation_byte x" for r
      using that by (cases r) (auto simp: takeWhile_append dropWhile_append dest: set_takeWhileD)
    show ?thesis using 2[of m] Suc split[OF cont] by simp
  qed simp
qed simp

text \<open>
  \<^verbatim>\<open>Truncate\<close> gives a prefix of its argument, cut between two characters and not inside one, with at
  most the given number of characters, and the whole argument when that is short enough.
\<close>

theorem Truncate_spec:
  "(\<exists>rest. str = Truncate str n @ rest) \<and> runes (Truncate str n) = take (nat n) (runes str) \<and>
   int (length (runes (Truncate str n))) = min (max 0 n) (int (length (runes str)))"
proof (intro conjI)
  have "str = concat (take (nat n) (runes str)) @ concat (drop (nat n) (runes str))"
    by (metis append_take_drop_id concat_append concat_runes)
  then show "\<exists>rest. str = Truncate str n @ rest" by (auto simp: Truncate_def)
  show r: "runes (Truncate str n) = take (nat n) (runes str)"
    by (auto simp: Truncate_def runes_take)
  show "int (length (runes (Truncate str n))) = min (max 0 n) (int (length (runes str)))"
    unfolding r by auto
qed

section \<open>Two ways to validate a process\<close>

lemma validate_rules_allow:
  "fl_logger f \<Longrightarrow> validate_rules f Compile name rs = Some (rules_allow Compile name rs)"
  by (induction rs) (auto split: sum.splits)

lemma validateProcessAgainstConstraints_iff:
  "fl_logger f \<Longrightarrow> validateProcessAgainstConstraints f Compile name cs =
     Some (\<exists>c\<in>set cs. rules_allow Compile name (elems (c_AllowedProcesses c)))"
  by (induction cs) (auto simp: validate_rules_allow split: bool.splits)



end
