(* ===== verification/ActionHandler.thy ===== *)
theory ActionHandler
  imports ClusterAgent
begin

text \<open>
  The action handler of \<^verbatim>\<open>pkg/clusteragent/action_handler.go\<close> as a process: \<^verbatim>\<open>Run\<close> with its loop over the queued
  events, the goroutine that synchronises the actions, and \<^verbatim>\<open>Close\<close>. The lock on the actions is
  taken for one target at a time, so that a synchronisation may fall between two targets of an event;
  the steps are as small as that. What the process does to the cluster is shown to be a function of
  what was queued, synchronised and handled, in this order.
\<close>

section \<open>The process\<close>

text \<open>The event being handled is what is left of its targets, with its timestamp.\<close>

record 'w ah_process =
  hp_handler :: actionHandler
  hp_current :: "(Timestamp option \<times> Target list) option"
  hp_syncing :: bool
  hp_cancelled :: bool
  hp_world :: 'w

definition ah_Run :: "actionHandler \<Rightarrow> 'w \<Rightarrow> 'w ah_process" where
  "ah_Run ah w = \<lparr>hp_handler = ah, hp_current = None, hp_syncing = True, hp_cancelled = False, hp_world = w\<rparr>"

definition ah_Close :: "'w ah_process \<Rightarrow> 'w ah_process" where
  "ah_Close p = p\<lparr>hp_cancelled := True\<rparr>"

datatype ah_label = Queued "Event option" | Synced "Action slice" | Handled "Timestamp option" Target | Silent

text \<open>
  The steps. A synchronisation asks the server in whatever state it is in by then. \<^verbatim>\<open>Close\<close> ends the
  synchronisation only: nobody closes the channel of the events, and its loop goes on.
\<close>

inductive ah_step ::
  "'s strset \<Rightarrow> 'w k8s_client option \<Rightarrow> ('w, IngestEventRequest, IngestEventResponse) rpc \<Rightarrow>
   ('v, GetActionsRequest, GetActionsResponse) rpc \<Rightarrow> 'w ah_process \<Rightarrow> ah_label \<Rightarrow> 'w ah_process \<Rightarrow> bool"
  for S K ingestEvent getActions where
  queued: "QueueEvent e (hp_handler p) = Some ah \<Longrightarrow>
    ah_step S K ingestEvent getActions p (Queued e) (p\<lparr>hp_handler := ah\<rparr>)"
| taken: "hp_current p = None \<Longrightarrow> ah_eventsChan (hp_handler p) = e # rest \<Longrightarrow>
    ah_step S K ingestEvent getActions p Silent
      (p\<lparr>hp_handler := (hp_handler p)\<lparr>ah_eventsChan := rest\<rparr>,
        hp_current := map_option (Pair (Event_GetClientTimestamp e)) (Event_GetTargets e)\<rparr>)"
| handled: "hp_current p = Some (t, target # rest) \<Longrightarrow>
    process_targets S K ingestEvent now (elems (ah_actions (hp_handler p))) t [target] (hp_world p) = w' \<Longrightarrow>
    ah_step S K ingestEvent getActions p (Handled t target) (p\<lparr>hp_current := Some (t, rest), hp_world := w'\<rparr>)"
| finished: "hp_current p = Some (t, []) \<Longrightarrow>
    ah_step S K ingestEvent getActions p Silent (p\<lparr>hp_current := None\<rparr>)"
| synced: "hp_syncing p \<Longrightarrow> SyncActions getActions (hp_handler p) v = (ah, v') \<Longrightarrow>
    ah_step S K ingestEvent getActions p (Synced (ah_actions ah)) (p\<lparr>hp_handler := ah\<rparr>)"
| sync_ends: "hp_syncing p \<Longrightarrow> hp_cancelled p \<Longrightarrow>
    ah_step S K ingestEvent getActions p Silent (p\<lparr>hp_syncing := False\<rparr>)"
| closed: "ah_step S K ingestEvent getActions p Silent (ah_Close p)"

inductive ah_steps ::
  "'s strset \<Rightarrow> 'w k8s_client option \<Rightarrow> ('w, IngestEventRequest, IngestEventResponse) rpc \<Rightarrow>
   ('v, GetActionsRequest, GetActionsResponse) rpc \<Rightarrow> 'w ah_process \<Rightarrow> ah_label list \<Rightarrow> 'w ah_process \<Rightarrow> bool"
  for S K ingestEvent getActions where
  start: "ah_steps S K ingestEvent getActions p [] p"
| step: "ah_steps S K ingestEvent getActions p tr p' \<Longrightarrow> ah_step S K ingestEvent getActions p' l p'' \<Longrightarrow>
    ah_steps S K ingestEvent getActions p (tr @ [l]) p''"

text \<open>Without a synchronisation in between, the steps for an event do what \<^verbatim>\<open>ProcessActions\<close> does.\<close>

lemma process_targets_append:
  "process_targets S K ing now as t (xs @ ys) w = process_targets S K ing now as t ys (process_targets S K ing now as t xs w)"
  by (induction xs arbitrary: w) auto

lemma ah_steps_trans:
  "ah_steps S K ing ga p' tr' p'' \<Longrightarrow> ah_steps S K ing ga p tr p' \<Longrightarrow> ah_steps S K ing ga p (tr @ tr') p''"
proof (induction rule: ah_steps.induct)
  case (step p tr p' l p'')
  then show ?case using ah_steps.step[of S K ing ga _ "_ @ _" p' l p''] by (metis append.assoc)
qed simp

lemma ah_step_single: "ah_step S K ing ga p l p' \<Longrightarrow> ah_steps S K ing ga p [l] p'"
  using ah_steps.step[OF ah_steps.start] by fastforce

lemma handle_targets:
  assumes "hp_current p = Some (t, ts)"
  shows "\<exists>tr. ah_steps S K ing ga p tr
    (p\<lparr>hp_current := Some (t, []), hp_world := process_targets S K ing now (elems (ah_actions (hp_handler p))) t ts (hp_world p)\<rparr>)"
  using assms
proof (induction ts arbitrary: p)
  case Nil
  then have "p\<lparr>hp_current := Some (t, []), hp_world := hp_world p\<rparr> = p" by simp
  then show ?case using ah_steps.start by (metis process_targets.simps(1))
next
  case (Cons tg ts)
  let ?w = "process_targets S K ing now (elems (ah_actions (hp_handler p))) t [tg] (hp_world p)"
  let ?p = "p\<lparr>hp_current := Some (t, ts), hp_world := ?w\<rparr>"
  have one: "ah_steps S K ing ga p [Handled t tg] ?p"
    by (rule ah_step_single, rule ah_step.handled[OF Cons.prems refl])
  obtain tr where "ah_steps S K ing ga ?p tr
      (?p\<lparr>hp_current := Some (t, []), hp_world := process_targets S K ing now (elems (ah_actions (hp_handler ?p))) t ts (hp_world ?p)\<rparr>)"
    using Cons.IH[of ?p] by auto
  from ah_steps_trans[OF this one] show ?case by auto
qed

lemma handle_event:
  assumes "hp_current p = None" and "ah_eventsChan (hp_handler p) = e # rest"
  shows "\<exists>tr. ah_steps S K ing ga p tr (p\<lparr>hp_handler := (hp_handler p)\<lparr>ah_eventsChan := rest\<rparr>,
    hp_world := ProcessActions S K ing now (hp_handler p) e (hp_world p)\<rparr>)"
proof (cases "Event_GetTargets e")
  case None
  have "p\<lparr>hp_handler := (hp_handler p)\<lparr>ah_eventsChan := rest\<rparr>, hp_current := None\<rparr> =
      p\<lparr>hp_handler := (hp_handler p)\<lparr>ah_eventsChan := rest\<rparr>\<rparr>"
    using assms(1) by (cases p) simp
  then show ?thesis using ah_step_single[OF ah_step.taken[OF assms], of S K ing ga] None
    by (intro exI[of _ "[Silent]"]) (simp add: ProcessActions_def)
next
  case (Some ts)
  let ?p1 = "p\<lparr>hp_handler := (hp_handler p)\<lparr>ah_eventsChan := rest\<rparr>, hp_current := Some (Event_GetClientTimestamp e, ts)\<rparr>"
  let ?w = "process_targets S K ing now (elems (ah_actions (hp_handler p))) (Event_GetClientTimestamp e) ts (hp_world p)"
  let ?p2 = "?p1\<lparr>hp_current := Some (Event_GetClientTimestamp e, []), hp_world := ?w\<rparr>"
  have first: "ah_steps S K ing ga p [Silent] ?p1"
    using ah_step_single[OF ah_step.taken[OF assms]] Some by simp
  obtain tr where middle: "ah_steps S K ing ga ?p1 tr ?p2"
    using handle_targets[of ?p1 "Event_GetClientTimestamp e" ts S K ing ga now] by auto
  have last: "ah_steps S K ing ga ?p2 [Silent] (?p2\<lparr>hp_current := None\<rparr>)"
    by (rule ah_step_single, rule ah_step.finished) simp
  have "?p2\<lparr>hp_current := None\<rparr> = p\<lparr>hp_handler := (hp_handler p)\<lparr>ah_eventsChan := rest\<rparr>,
      hp_world := ProcessActions S K ing now (hp_handler p) e (hp_world p)\<rparr>"
    using Some assms(1) by (simp add: ProcessActions_def)
  then show ?thesis using ah_steps_trans[OF ah_steps_trans[OF last middle] first] by metis
qed

section \<open>What a run does\<close>

text \<open>The targets of the queued events, each with the timestamp of its event, and those that were handled.\<close>

definition event_targets :: "Event option \<Rightarrow> (Timestamp option \<times> Target) list" where
  "event_targets e = map (Pair (Event_GetClientTimestamp e)) (elems (Event_GetTargets e))"

fun queued_targets :: "ah_label list \<Rightarrow> (Timestamp option \<times> Target) list" where
  "queued_targets [] = []"
| "queued_targets (Queued e # tr) = event_targets e @ queued_targets tr"
| "queued_targets (_ # tr) = queued_targets tr"

fun handled_targets :: "ah_label list \<Rightarrow> (Timestamp option \<times> Target) list" where
  "handled_targets [] = []"
| "handled_targets (Handled t tg # tr) = (t, tg) # handled_targets tr"
| "handled_targets (_ # tr) = handled_targets tr"

definition waiting_targets :: "'w ah_process \<Rightarrow> (Timestamp option \<times> Target) list" where
  "waiting_targets p = (case hp_current p of None \<Rightarrow> [] | Some (t, ts) \<Rightarrow> map (Pair t) ts) @
     concat (map event_targets (ah_eventsChan (hp_handler p)))"

text \<open>The actions of the last synchronisation, and the deletions that the actions call for.\<close>

fun synced_actions :: "Action slice \<Rightarrow> ah_label list \<Rightarrow> Action slice" where
  "synced_actions as [] = as"
| "synced_actions as (Synced as' # tr) = synced_actions as' tr"
| "synced_actions as (_ # tr) = synced_actions as tr"

definition target_deletions ::
  "(string \<times> string \<Rightarrow> Timestamp option) \<Rightarrow> Action slice \<Rightarrow> Timestamp option \<Rightarrow> Target \<Rightarrow> (string \<times> string) list" where
  "target_deletions created as t tg = (case t_Pod tg of None \<Rightarrow> []
     | Some pod \<Rightarrow> map (\<lambda>_. (pod_Namespace pod, pod_Name pod))
         (filter (deletes created (case t of None \<Rightarrow> 0 | Some x \<Rightarrow> x) tg pod) (elems as)))"

fun called_for ::
  "(string \<times> string \<Rightarrow> Timestamp option) \<Rightarrow> Action slice \<Rightarrow> ah_label list \<Rightarrow> (string \<times> string) list" where
  "called_for created as [] = []"
| "called_for created as (Synced as' # tr) = called_for created as' tr"
| "called_for created as (Handled t tg # tr) = target_deletions created as t tg @ called_for created as tr"
| "called_for created as (_ # tr) = called_for created as tr"

fun plain_event :: "ah_label \<Rightarrow> bool" where
  "plain_event (Synced as) = list_all plain_action (elems as)"
| "plain_event (Handled t tg) = pred_option (\<lambda>pod. plain_keys (label_pairs (pod_Labels pod))) (t_Pod tg)"
| "plain_event _ = True"

lemma queued_targets_append: "queued_targets (tr @ tr') = queued_targets tr @ queued_targets tr'"
  by (induction tr rule: queued_targets.induct) auto

lemma handled_targets_append: "handled_targets (tr @ tr') = handled_targets tr @ handled_targets tr'"
  by (induction tr rule: handled_targets.induct) auto

lemma synced_actions_append: "synced_actions as (tr @ tr') = synced_actions (synced_actions as tr) tr'"
  by (induction as tr rule: synced_actions.induct) auto

lemma called_for_append:
  "called_for created as (tr @ tr') = called_for created as tr @ called_for created (synced_actions as tr) tr'"
  by (induction created as tr rule: called_for.induct) auto

lemma synced_actions_plain:
  "list_all plain_event tr \<Longrightarrow> list_all plain_action (elems as) \<Longrightarrow> list_all plain_action (elems (synced_actions as tr))"
  by (induction as tr rule: synced_actions.induct) auto

lemmas trace_append = queued_targets_append handled_targets_append synced_actions_append called_for_append

lemma ah_step_queue:
  assumes "ah_step S K ing ga p l p'" and "length (ah_eventsChan (hp_handler p)) \<le> eventsChan_capacity"
  shows "waiting_targets p @ queued_targets [l] = handled_targets [l] @ waiting_targets p' \<and>
    ah_actions (hp_handler p') = synced_actions (ah_actions (hp_handler p)) [l] \<and>
    length (ah_eventsChan (hp_handler p')) \<le> eventsChan_capacity"
  using assms
  by (cases rule: ah_step.cases)
    (auto simp: waiting_targets_def QueueEvent_def SyncActions_def SetActions_def ah_Close_def event_targets_def
      split: if_splits option.splits prod.splits)

lemma ah_step_world:
  assumes "ah_step S (Some (recording_k8s created refuses)) deaf_server ga p l p'"
    and "strset_ok S mem" "list_all plain_action (elems (ah_actions (hp_handler p)))" "plain_event l"
  shows "hp_world p' = hp_world p @ called_for created (ah_actions (hp_handler p)) [l]"
  using assms(1)
proof (cases rule: ah_step.cases)
  case (handled t target rest now w')
  have "process_targets S (Some (recording_k8s created refuses)) deaf_server now (elems (ah_actions (hp_handler p))) t [target]
      (hp_world p) = hp_world p @ target_deletions created (ah_actions (hp_handler p)) t target"
    using process_targets_recorded[OF assms(2), of "elems (ah_actions (hp_handler p))" "[target]"] assms(3,4) handled
    by (auto simp: list_all_iff target_deletions_def split: option.splits)
  then show ?thesis using handled by simp
qed (auto simp: ah_Close_def)


definition sample_getActions :: "(unit, GetActionsRequest, GetActionsResponse) rpc" where
  "sample_getActions req v = (Inr \<lparr>gap_Actions = Some [sample_action]\<rparr>, v)"

definition sample_target :: Target where
  "sample_target = zero_Target\<lparr>
     t_Pod := Some \<lparr>pod_Uid = ''u'', pod_Namespace = ''default'', pod_Name = ''web'', pod_Labels = None\<rparr>,
     t_ViolatedProcesses := Some [\<lparr>p_Pid = 1, p_Name = ''sh''\<rparr>]\<rparr>"

definition sample_ah_trace :: "ah_label list" where
  "sample_ah_trace = [Synced (Some [sample_action]), Queued (Some sample_violation), Silent, Handled (Some 9) sample_target]"

lemma sample_ah_run:
  "\<exists>p. ah_steps list_strset K ing sample_getActions (ah_Run newActionHandler []) sample_ah_trace p"
proof -
  let ?p0 = "ah_Run newActionHandler []"
  let ?p1 = "?p0\<lparr>hp_handler := \<lparr>ah_eventsChan = [], ah_actions = Some [sample_action]\<rparr>\<rparr>"
  let ?p2 = "?p1\<lparr>hp_handler := \<lparr>ah_eventsChan = [Some sample_violation], ah_actions = Some [sample_action]\<rparr>\<rparr>"
  let ?p3 = "?p1\<lparr>hp_current := Some (Some 9, [sample_target])\<rparr>"
  have s1: "ah_step list_strset K ing sample_getActions ?p0 (Synced (Some [sample_action])) ?p1"
    using ah_step.synced[of ?p0 sample_getActions "()" "\<lparr>ah_eventsChan = [], ah_actions = Some [sample_action]\<rparr>" "()" list_strset K ing]
    by (simp add: ah_Run_def SyncActions_def SetActions_def sample_getActions_def GetActions_list_def newActionHandler_def)
  have s2: "ah_step list_strset K ing sample_getActions ?p1 (Queued (Some sample_violation)) ?p2"
    using ah_step.queued[of "Some sample_violation" ?p1
        "\<lparr>ah_eventsChan = [Some sample_violation], ah_actions = Some [sample_action]\<rparr>" list_strset K ing sample_getActions]
    by (simp add: QueueEvent_def eventsChan_capacity_def)
  have s3: "ah_step list_strset K ing sample_getActions ?p2 Silent ?p3"
    using ah_step.taken[of ?p2 "Some sample_violation" "[]" list_strset K ing sample_getActions]
    by (simp add: ah_Run_def sample_violation_def sample_target_def Event_GetTargets_def Event_GetClientTimestamp_def)
  obtain p where s4: "ah_step list_strset K ing sample_getActions ?p3 (Handled (Some 9) sample_target) p"
    using ah_step.handled[of ?p3 "Some 9" sample_target "[]" list_strset K ing] by auto
  show ?thesis
    using ah_steps.step[OF ah_steps.step[OF ah_steps.step[OF ah_steps.step[OF ah_steps.start s1] s2] s3] s4]
    by (auto simp: sample_ah_trace_def)
qed


end
