(* ===== verification/Tarianctl.thy ===== *)
theory Tarianctl
  imports Store "HOL-Library.Sublist"
begin

text \<open>
  The parts of the command line client that its commands share: the global flags
  (\<^verbatim>\<open>cmd/tarianctl/cmd/flags/flag.go\<close>), the dial options (\<^verbatim>\<open>pkg/util/tls.go\<close>), the connection, and the
  commands that change the server's configuration one name or one document at a time (\<^verbatim>\<open>remove\<close>,
  \<^verbatim>\<open>import\<close>). The generated gRPC clients are a record of remote calls; what a command writes to its logger is
  part of its result.
\<close>

section \<open>Global flags\<close>

definition defaultServerAddress :: string where
  "defaultServerAddress = ''localhost:50051''"

record GlobalFlags =
  gf_LogLevel :: string
  gf_LogFormatter :: string
  gf_ServerAddr :: string
  gf_ServerTLSEnabled :: bool
  gf_ServerTLSCAFile :: string
  gf_ServerTLSInsecureSkipVerify :: bool

text \<open>The values that \<^verbatim>\<open>SetGlobalFlags\<close> binds as defaults.\<close>

definition SetGlobalFlags :: GlobalFlags where
  "SetGlobalFlags = \<lparr>gf_LogLevel = ''info'', gf_LogFormatter = ''text'', gf_ServerAddr = defaultServerAddress,
     gf_ServerTLSEnabled = False, gf_ServerTLSCAFile = [], gf_ServerTLSInsecureSkipVerify = True\<rparr>"

definition ValidateGlobalFlags :: "GlobalFlags \<Rightarrow> go_error option" where
  "ValidateGlobalFlags f =
     (if gf_LogLevel f \<notin> set [''debug'', ''info'', ''warn'', ''warning'', ''error'', ''fatal'']
      then Some (NewError (''invalid log level: '' @ gf_LogLevel f))
      else if gf_LogFormatter f \<notin> set [''json'', ''text'']
      then Some (NewError (''invalid log formatter: '' @ gf_LogFormatter f))
      else if gf_ServerTLSEnabled f \<and> gf_ServerTLSCAFile f = []
      then Some (NewError ''server TLS enabled but CA file is not provided'')
      else None)"

text \<open>The environment gives every variable a value, the empty one when it is not set.\<close>

definition GetFlagValuesFromEnvVar :: "(string \<Rightarrow> string) \<Rightarrow> GlobalFlags \<Rightarrow> GlobalFlags" where
  "GetFlagValuesFromEnvVar Getenv f =
     (let addr = Getenv ''TARIAN_SERVER_ADDRESS'';
          f1 = (if (gf_ServerAddr f = defaultServerAddress \<or> gf_ServerAddr f = []) \<and> addr \<noteq> []
                then f\<lparr>gf_ServerAddr := addr\<rparr> else f);
          f2 = (if Getenv ''TARIAN_TLS_ENABLED'' = ''true'' then f1\<lparr>gf_ServerTLSEnabled := True\<rparr> else f1);
          ca = Getenv ''TARIAN_TLS_CA_FILE'';
          f3 = (if gf_ServerTLSCAFile f2 = [] \<and> ca \<noteq> [] then f2\<lparr>gf_ServerTLSCAFile := ca\<rparr> else f2)
      in (if Getenv ''TARIAN_TLS_INSECURE_SKIP_VERIFY'' = ''false'' then f3\<lparr>gf_ServerTLSInsecureSkipVerify := False\<rparr> else f3))"

section \<open>Connecting\<close>

text \<open>
  A certificate pool is the list of its certificates; \<^verbatim>\<open>AppendCertsFromPEM\<close> adds the certificates it can
  parse and reports whether there was one, which the code only logs.
\<close>

datatype 'cert dial_option = Insecure | TLS "'cert list" bool

definition GetDialOptions ::
  "'cert list option \<Rightarrow> (string \<Rightarrow> go_error + string) \<Rightarrow> (string \<Rightarrow> 'cert list) \<Rightarrow> bool \<Rightarrow> bool \<Rightarrow> string \<Rightarrow>
   go_error + 'cert dial_option list" where
  "GetDialOptions SystemCertPool ReadFile ParsePEM serverTLSEnabled serverTLSInsecureSkipVerify serverCAFile =
     (if serverTLSEnabled
      then (let certPool = (case SystemCertPool of None \<Rightarrow> [] | Some pool \<Rightarrow> pool) in
            if serverCAFile \<noteq> []
            then (case ReadFile serverCAFile of
                    Inl err \<Rightarrow> Inl (NewError (''failed to read server TLS CA file: serverCAFile: '' @ serverCAFile))
                  | Inr pem \<Rightarrow> Inr [TLS (certPool @ ParsePEM pem) serverTLSInsecureSkipVerify])
            else Inr [TLS certPool serverTLSInsecureSkipVerify])
      else Inr [Insecure])"

record 'w ctl_client =
  cl_GetConstraints :: "('w, GetConstraintsRequest, GetConstraintsResponse) rpc"
  cl_AddConstraint :: "('w, AddConstraintRequest, AddConstraintResponse) rpc"
  cl_RemoveConstraint :: "('w, RemoveConstraintRequest, RemoveConstraintResponse) rpc"
  cl_GetActions :: "('w, GetActionsRequest, GetActionsResponse) rpc"
  cl_AddAction :: "('w, AddActionRequest, AddActionResponse) rpc"
  cl_RemoveAction :: "('w, RemoveActionRequest, RemoveActionResponse) rpc"
  cl_GetEvents :: "('w, GetEventsRequest, GetEventsResponse) rpc"

text \<open>
  How every command gets its client: one that is set already is used, otherwise the dial options are
  made from the flags and the server is dialled. \<open>Dial\<close> stands for both, with the errors they give.
\<close>

datatype ('w, 'cert) dialer =
  Dialer "bool \<Rightarrow> bool \<Rightarrow> string \<Rightarrow> go_error + 'cert dial_option list" "string \<Rightarrow> 'cert dial_option list \<Rightarrow> go_error + 'w ctl_client"

definition connect :: "string \<Rightarrow> ('w, 'cert) dialer \<Rightarrow> GlobalFlags \<Rightarrow> 'w ctl_client option \<Rightarrow> go_error + 'w ctl_client" where
  "connect who d f grpcClient =
     (case grpcClient of
        Some c \<Rightarrow> Inr c
      | None \<Rightarrow> (case d of Dialer options dial \<Rightarrow>
          (case options (gf_ServerTLSEnabled f) (gf_ServerTLSInsecureSkipVerify f) (gf_ServerTLSCAFile f) of
             Inl err \<Rightarrow> Inl (Wrap (who @ '': '') (Some err))
           | Inr opts \<Rightarrow>
               (case dial (gf_ServerAddr f) opts of
                  Inl err \<Rightarrow> Inl (Wrap (who @ '': failed to connect to server: '') (Some err))
                | Inr c \<Rightarrow> Inr c))))"

section \<open>What a command writes\<close>

datatype log_entry =
    Info string
  | Warn string
  | ErrorLog string
  | Table "string list" "string list list"

type_synonym 'w command_result = "(log_entry list \<times> go_error option) \<times> 'w"

section \<open>tarianctl remove\<close>

text \<open>
  \<^verbatim>\<open>remove constraints\<close> and \<^verbatim>\<open>remove actions\<close>: one remote call per name, until a call fails. The names
  that were removed are collected for the closing message. Debug messages are left out.
\<close>

definition quoted :: "string \<Rightarrow> string" where
  "quoted s = [CHR 0x27] @ s @ [CHR 0x27]"

fun remove_constraints_loop ::
  "'w ctl_client \<Rightarrow> string \<Rightarrow> string list \<Rightarrow> string list \<Rightarrow> log_entry list \<Rightarrow> 'w \<Rightarrow> (string list \<times> log_entry list \<times> go_error option) \<times> 'w" where
  "remove_constraints_loop C ns [] deleted out w = ((deleted, out, None), w)"
| "remove_constraints_loop C ns (name # names) deleted out w =
     (case cl_RemoveConstraint C \<lparr>rcr_Namespace = ns, rcr_Name = name\<rparr> w of
        (Inl err, w) \<Rightarrow> ((deleted, out, Errorf_w ''remove constraint: '' (Some err)), w)
      | (Inr response, w) \<Rightarrow>
          if rcp_Success response then remove_constraints_loop C ns names (deleted @ [name]) out w
          else remove_constraints_loop C ns names deleted (out @ [Warn (''Constraint '' @ quoted name @ '' is not removed\<newline>'')]) w)"

definition closing :: "string \<Rightarrow> string \<Rightarrow> string list \<Rightarrow> log_entry" where
  "closing removed none deleted = (if length deleted > 0 then Info (removed @ ''['' @ Join deleted '' '' @ '']\<newline>'') else Warn none)"

definition remove_constraints_run ::
  "('w, 'cert) dialer \<Rightarrow> GlobalFlags \<Rightarrow> 'w ctl_client option \<Rightarrow> string \<Rightarrow> string list \<Rightarrow> 'w \<Rightarrow> 'w command_result" where
  "remove_constraints_run d f grpcClient ns args w =
     (if length args = 0
      then (([], Errorf_w ''remove constraint: '' (Some (NewError ''please specify the name(s) of the constraint to be removed''))), w)
      else (case connect ''import'' d f grpcClient of
              Inl err \<Rightarrow> (([], Some err), w)
            | Inr C \<Rightarrow>
                (case remove_constraints_loop C ns args [] [] w of
                   ((_, out, Some err), w) \<Rightarrow> ((out, Some err), w)
                 | ((deleted, out, None), w) \<Rightarrow>
                     ((out @ [closing ''Successfully removed constraints: '' ''No Constraints removed\<newline>'' deleted], None), w))))"

fun remove_actions_loop ::
  "'w ctl_client \<Rightarrow> string \<Rightarrow> string list \<Rightarrow> string list \<Rightarrow> log_entry list \<Rightarrow> 'w \<Rightarrow> (string list \<times> log_entry list \<times> go_error option) \<times> 'w" where
  "remove_actions_loop C ns [] deleted out w = ((deleted, out, None), w)"
| "remove_actions_loop C ns (name # names) deleted out w =
     (case cl_RemoveAction C \<lparr>rar_Namespace = ns, rar_Name = name\<rparr> w of
        (Inl err, w) \<Rightarrow> ((deleted, out, Errorf_w ''remove action: '' (Some err)), w)
      | (Inr response, w) \<Rightarrow>
          if rap_Success response then remove_actions_loop C ns names (deleted @ [name]) out w
          else remove_actions_loop C ns names deleted (out @ [Warn (''Action '' @ quoted name @ '' is not removed\<newline>'')]) w)"

definition remove_actions_run ::
  "('w, 'cert) dialer \<Rightarrow> GlobalFlags \<Rightarrow> 'w ctl_client option \<Rightarrow> string \<Rightarrow> string list \<Rightarrow> 'w \<Rightarrow> 'w command_result" where
  "remove_actions_run d f grpcClient ns args w =
     (if length args = 0
      then (([], Errorf_w ''remove action: '' (Some (NewError ''please specify the name(s) of the action to be removed''))), w)
      else (case connect ''import'' d f grpcClient of
              Inl err \<Rightarrow> (([], Some err), w)
            | Inr C \<Rightarrow>
                (case remove_actions_loop C ns args [] [] w of
                   ((_, out, Some err), w) \<Rightarrow> ((out, Some err), w)
                 | ((deleted, out, None), w) \<Rightarrow>
                     ((out @ [closing ''Successfully removed actions: '' ''No actions removed\<newline>'' deleted], None), w))))"

section \<open>tarianctl import\<close>

text \<open>
  A file is the sequence of what the YAML decoder gives for it, up to the end of the file: a
  constraint or an error. Opening is a parameter.
\<close>

type_synonym yaml_stream = "(go_error + Constraint) list"

fun import_loop :: "'w ctl_client \<Rightarrow> yaml_stream \<Rightarrow> nat \<Rightarrow> 'w \<Rightarrow> (nat \<times> go_error option) \<times> 'w" where
  "import_loop C [] imported w = ((imported, None), w)"
| "import_loop C (Inl err # ds) imported w = ((imported, Errorf_w ''failed to decode yaml: '' (Some err)), w)"
| "import_loop C (Inr c # ds) imported w =
     (case cl_AddConstraint C \<lparr>acr_Constraint = Some c\<rparr> w of
        (Inl err, w) \<Rightarrow> ((imported, Errorf_w ''failed to add constraints: '' (Some err)), w)
      | (Inr response, w) \<Rightarrow> import_loop C ds (if acp_Success response then Suc imported else imported) w)"

definition importFile :: "'w ctl_client \<Rightarrow> yaml_stream \<Rightarrow> 'w \<Rightarrow> 'w command_result" where
  "importFile C ds w =
     (case import_loop C ds 0 w of
        ((_, Some err), w) \<Rightarrow> (([], Some err), w)
      | ((imported, None), w) \<Rightarrow>
          (([if imported > 0 then Info (Itoa (int imported) @ '' constraint(s) imported successfully'')
             else Warn ''No constraints imported''], None), w))"

fun open_files :: "(string \<Rightarrow> go_error + yaml_stream) \<Rightarrow> string list \<Rightarrow> yaml_stream list \<Rightarrow> go_error + yaml_stream list" where
  "open_files Open [] files = Inr files"
| "open_files Open (path # paths) files =
     (case Open path of
        Inl err \<Rightarrow> Inl (Wrap (''import: failed to open file '' @ path @ '': '') (Some err))
      | Inr f \<Rightarrow> open_files Open paths (files @ [f]))"

fun import_files :: "'w ctl_client \<Rightarrow> yaml_stream list \<Rightarrow> log_entry list \<Rightarrow> 'w \<Rightarrow> 'w command_result" where
  "import_files C [] out w = ((out, None), w)"
| "import_files C (f # fs) out w =
     (case importFile C f w of
        ((o1, Some err), w) \<Rightarrow> ((out @ o1, Errorf_w ''import: '' (Some err)), w)
      | ((o1, None), w) \<Rightarrow> import_files C fs (out @ o1) w)"

definition import_run ::
  "(string \<Rightarrow> go_error + yaml_stream) \<Rightarrow> ('w, 'cert) dialer \<Rightarrow> GlobalFlags \<Rightarrow> 'w ctl_client option \<Rightarrow> string list \<Rightarrow> 'w \<Rightarrow> 'w command_result" where
  "import_run Open d f grpcClient args w =
     (if length args = 0 then (([], Errorf_w ''import: '' (Some (NewError ''specify file paths to import''))), w)
      else (case open_files Open args [] of
              Inl err \<Rightarrow> (([], Some err), w)
            | Inr files \<Rightarrow>
                (case connect ''import'' d f grpcClient of
                   Inl err \<Rightarrow> (([], Some err), w)
                 | Inr C \<Rightarrow> import_files C files [] w)))"

section \<open>What the commands rely on\<close>

text \<open>
  The contract of the server's config service as its clients see it: \<open>held\<close> is what the server holds,
  \<open>stored\<close> the form in which it keeps a constraint, \<open>inv\<close> its invariant. A reply without error to a
  removal means that the constraint is gone; a removal that failed may have happened.
\<close>

definition without :: "string \<Rightarrow> string set \<Rightarrow> Constraint multiset \<Rightarrow> Constraint multiset" where
  "without ns names cs = filter_mset (\<lambda>c. \<not> (c_Namespace c = ns \<and> c_Name c \<in> names)) cs"

lemma without_empty [simp]: "without ns {} cs = cs"
  by (simp add: without_def)

lemma without_without: "without ns A (without ns B cs) = without ns (A \<union> B) cs"
  by (auto simp: without_def filter_filter_mset intro!: filter_mset_cong)

locale config_client =
  fixes C :: "'w ctl_client"
    and held :: "'w \<Rightarrow> Constraint multiset"
    and stored :: "Constraint \<Rightarrow> Constraint"
    and inv :: "'w \<Rightarrow> bool"
  assumes add_reply: "cl_AddConstraint C \<lparr>acr_Constraint = Some c\<rparr> w = (r, w') \<Longrightarrow> inv w \<Longrightarrow> inv w' \<and>
      (case r of Inl _ \<Rightarrow> held w' = held w
       | Inr resp \<Rightarrow> held w' = add_mset (stored c) (held w) \<or> \<not> acp_Success resp \<and> held w' = held w)"
    and remove_reply: "cl_RemoveConstraint C \<lparr>rcr_Namespace = ns, rcr_Name = nm\<rparr> w = (q, w') \<Longrightarrow> inv w \<Longrightarrow> inv w' \<and>
      (case q of Inl _ \<Rightarrow> held w' = held w \<or> held w' = without ns {nm} (held w)
       | Inr resp \<Rightarrow> rcp_Success resp \<and> held w' = without ns {nm} (held w))"
begin

lemma remove_loop_ok:
  assumes "remove_constraints_loop C ns names deleted out w = ((deleted', out', None), w')" "inv w"
  shows "inv w' \<and> held w' = without ns (set names) (held w) \<and> deleted' = deleted @ names \<and> out' = out"
  using assms
proof (induction names arbitrary: deleted w)
  case (Cons name names)
  obtain r w1 where r: "cl_RemoveConstraint C \<lparr>rcr_Namespace = ns, rcr_Name = name\<rparr> w = (r, w1)" by (metis surj_pair)
  with Cons.prems obtain resp where resp: "r = Inr resp" by (cases r) auto
  have w1: "inv w1" "rcp_Success resp" "held w1 = without ns {name} (held w)"
    using remove_reply[OF r Cons.prems(2)] by (simp_all add: resp)
  from Cons.prems(1) w1(2) have "remove_constraints_loop C ns names (deleted @ [name]) out w1 = ((deleted', out', None), w')"
    by (simp add: r resp)
  from Cons.IH[OF this w1(1)] show ?case by (simp add: w1(3) without_without Un_commute)
qed simp

lemma remove_loop_error:
  assumes "remove_constraints_loop C ns names deleted out w = ((deleted', out', Some err), w')" "inv w"
  shows "inv w' \<and> (\<exists>removed name rest. names = removed @ name # rest \<and> deleted' = deleted @ removed \<and>
    (held w' = without ns (set removed) (held w) \<or> held w' = without ns (insert name (set removed)) (held w)))"
  using assms
proof (induction names arbitrary: deleted w)
  case (Cons name names)
  obtain r w1 where r: "cl_RemoveConstraint C \<lparr>rcr_Namespace = ns, rcr_Name = name\<rparr> w = (r, w1)" by (metis surj_pair)
  show ?case
  proof (cases r)
    case (Inl e)
    then have "w' = w1" "deleted' = deleted" using Cons.prems(1) by (auto simp: r)
    then show ?thesis using remove_reply[OF r Cons.prems(2)] Inl
      by (intro conjI exI[of _ "[]"] exI[of _ name] exI[of _ names]) auto
  next
    case (Inr resp)
    have w1: "inv w1" "rcp_Success resp" "held w1 = without ns {name} (held w)"
      using remove_reply[OF r Cons.prems(2)] by (simp_all add: Inr)
    from Cons.prems(1) w1(2) have "remove_constraints_loop C ns names (deleted @ [name]) out w1 = ((deleted', out', Some err), w')"
      by (simp add: r Inr)
    from Cons.IH[OF this w1(1)] obtain removed name' rest where
      *: "inv w'" "names = removed @ name' # rest" "deleted' = deleted @ name # removed"
      "held w' = without ns (set removed) (held w1) \<or> held w' = without ns (insert name' (set removed)) (held w1)"
      by auto
    then show ?thesis
      by (intro conjI exI[of _ "name # removed"] exI[of _ name'] exI[of _ rest])
        (auto simp: w1(3) without_without insert_commute)
  qed
qed simp

lemma import_loop_ok:
  assumes "import_loop C ds n w = ((k, None), w')" "inv w"
  shows "inv w' \<and> (\<exists>cs added. ds = map Inr cs \<and> subseq added cs \<and> n \<le> k \<and> k \<le> n + length added \<and>
    held w' = held w + mset (map stored added))"
  using assms
proof (induction ds arbitrary: n w)
  case (Cons d ds)
  then obtain c where d: "d = Inr c" by (cases d) auto
  obtain r w1 where r: "cl_AddConstraint C \<lparr>acr_Constraint = Some c\<rparr> w = (r, w1)" by (metis surj_pair)
  with Cons.prems d obtain resp where resp: "r = Inr resp" by (cases r) auto
  from add_reply[OF r Cons.prems(2)] have w1: "inv w1"
    "held w1 = add_mset (stored c) (held w) \<or> \<not> acp_Success resp \<and> held w1 = held w" by (simp_all add: resp)
  have "import_loop C ds (if acp_Success resp then Suc n else n) w1 = ((k, None), w')"
    using Cons.prems(1) by (simp add: d r resp)
  from Cons.IH[OF this w1(1)] obtain cs added where *: "inv w'" "ds = map Inr cs" "subseq added cs"
    "(if acp_Success resp then Suc n else n) \<le> k" "k \<le> (if acp_Success resp then Suc n else n) + length added"
    "held w' = held w1 + mset (map stored added)" by auto
  show ?case
  proof (cases "held w1 = add_mset (stored c) (held w)")
    case True
    with * d show ?thesis
      by (intro conjI exI[of _ "c # cs"] exI[of _ "c # added"]) (auto split: if_splits)
  next
    case False
    with * d w1(2) show ?thesis
      by (intro conjI exI[of _ "c # cs"] exI[of _ added]) (auto split: if_splits)
  qed
qed (auto intro: exI[of _ "[]"])

text \<open>When as many constraints were imported as the file has documents, the server holds them all.\<close>

lemma import_all:
  assumes "import_loop C ds 0 w = ((length ds, None), w')" "inv w"
  shows "\<exists>cs. ds = map Inr cs \<and> held w' = held w + mset (map stored cs)"
proof -
  obtain cs added where *: "ds = map Inr cs" "subseq added cs" "length ds \<le> length added"
    "held w' = held w + mset (map stored added)"
    using import_loop_ok[OF assms] by auto
  then have "added = cs" by (metis le_antisym length_map list_emb_length subseq_same_length)
  with * show ?thesis by auto
qed

end

end
