(* ===== verification/ClusterAgentMain.thy ===== *)
theory ClusterAgentMain
  imports FalcoListener ActionHandler PodInjector Tarianctl Paths
begin

text \<open>
  The cluster agent as a process: \<^verbatim>\<open>pkg/clusteragent/clusteragent.go\<close>, which puts the proxy services, the
  action handler, the cache and the Falco listener together, the commands \<^verbatim>\<open>run\<close> and \<^verbatim>\<open>run-webhook-server\<close> of
  \<^verbatim>\<open>cmd/tarian-cluster-agent\<close>, and \<^verbatim>\<open>webhookserver/manager.go\<close>. Goroutines that are started are recorded as
  tasks. The libraries (gRPC, the Kubernetes client, controller-runtime, the certificate rotator) are
  parameters.
\<close>

section \<open>NewClusterAgent\<close>

record 'cert agent_config =
  ac_ServerAddress :: string
  ac_ServerGrpcDialOptions :: "'cert dial_option list"
  ac_EnableAddConstraint :: bool

text \<open>The environment of the process, with the libraries. A connection is the client made from it.\<close>

record ('x, 'w, 'cert, 'kc) cluster_env =
  ce_Dial :: "string \<Rightarrow> 'cert dial_option list \<Rightarrow> ('x, go_error + 'w server_client) io"
  ce_Getenv :: "string \<Rightarrow> string"
  ce_HomeDir :: string
  ce_InClusterConfig :: "go_error + 'kc"
  ce_BuildConfigFromFlags :: "string \<Rightarrow> go_error + 'kc"
  ce_NewForConfig :: "'kc \<Rightarrow> go_error + 'w k8s_client"

datatype cluster_task = SyncConstraintsLoop | ActionsLoop | InformersLoop | FalcoHTTP string

record 'w clusterAgent =
  ca_services :: "string list"
  ca_configServer :: proxy
  ca_configConn :: "'w server_client"
  ca_eventConn :: "'w server_client"
  ca_actionHandler :: actionHandler
  ca_actionConn :: "'w server_client"
  ca_k8sClientset :: "'w k8s_client option"
  ca_configCache :: ConfigCache
  ca_cacheConn :: "'w server_client option"
  ca_falcoSidekickListener :: FalcoSidekickListener
  ca_falcoAddr :: string
  ca_falcoConn :: "'w server_client"
  ca_configOpen :: bool
  ca_eventOpen :: bool
  ca_eventCancelled :: bool
  ca_actionCancelled :: bool
  ca_cancelled :: bool

definition connect_server ::
  "('x, 'w, 'cert, 'kc) cluster_env \<Rightarrow> string \<Rightarrow> 'cert agent_config \<Rightarrow> ('x, go_error + 'w server_client) io" where
  "connect_server E who config x = (case ce_Dial E (ac_ServerAddress config) (ac_ServerGrpcDialOptions config) x of
     (Inl err, x') \<Rightarrow>
       (Inl (Wrap ''NewClusterAgent: %w'' (Some (Wrap (who @ '': couldn't not connect to tarian-server: %w'') (Some err)))), x')
   | (Inr conn, x') \<Rightarrow> (Inr conn, x'))"

text \<open>
  The configuration for Kubernetes: an error inside a cluster is returned, one outside of it only
  logged, and so is an error of \<^verbatim>\<open>NewForConfig\<close>.
\<close>

definition k8s_config :: "('x, 'w, 'cert, 'kc) cluster_env \<Rightarrow> go_error + 'kc option" where
  "k8s_config E =
     (if ce_Getenv E ''KUBERNETES_SERVICE_HOST'' \<noteq> []
      then (case ce_InClusterConfig E of
              Inl err \<Rightarrow> Inl (Wrap ''NewClusterAgent: %w'' (Some err))
            | Inr kc \<Rightarrow> Inr (Some kc))
      else
        let kubeconfig = (if ce_Getenv E ''KUBECONFIG'' \<noteq> [] then ce_Getenv E ''KUBECONFIG''
                          else path_Join [ce_HomeDir E, ''.kube'', ''config''])
        in (case ce_BuildConfigFromFlags E kubeconfig of Inl err \<Rightarrow> Inr None | Inr kc \<Rightarrow> Inr (Some kc)))"

definition k8s_clientset :: "('x, 'w, 'cert, 'kc) cluster_env \<Rightarrow> 'kc option \<Rightarrow> 'w k8s_client option" where
  "k8s_clientset E kc = (case kc of
     None \<Rightarrow> None
   | Some c \<Rightarrow> (case ce_NewForConfig E c of Inl err \<Rightarrow> None | Inr k \<Rightarrow> Some k))"

text \<open>
  The second result is the list of goroutines started: \<^verbatim>\<open>NewConfigCache\<close> starts the loop of the cache.
\<close>

definition NewClusterAgent ::
  "('x, 'w, 'cert, 'kc) cluster_env \<Rightarrow> 'cert agent_config \<Rightarrow> ('x, (go_error + 'w clusterAgent) \<times> cluster_task list) io" where
  "NewClusterAgent E config x0 =
     (case connect_server E ''NewConfigServer'' config x0 of
        (Inl err, x1) \<Rightarrow> ((Inl err, []), x1)
      | (Inr configConn, x1) \<Rightarrow>
     (case k8s_config E of
        Inl err \<Rightarrow> ((Inl err, []), x1)
      | Inr k8sClientConfig \<Rightarrow>
     (case connect_server E ''newActionHandler'' config x1 of
        (Inl err, x2) \<Rightarrow> ((Inl err, []), x2)
      | (Inr actionConn, x2) \<Rightarrow>
     (case connect_server E ''NewEventServer'' config x2 of
        (Inl err, x3) \<Rightarrow> ((Inl err, []), x3)
      | (Inr eventConn, x3) \<Rightarrow>
     (case ce_Dial E (ac_ServerAddress config) (ac_ServerGrpcDialOptions config) x3 of
        (cacheConn, x4) \<Rightarrow>
     (case connect_server E ''NewFalcoSidekickListener'' config x4 of
        (Inl err, x5) \<Rightarrow> ((Inl err, [SyncConstraintsLoop]), x5)
      | (Inr falcoConn, x5) \<Rightarrow>
          ((Inr \<lparr>ca_services = [''Config'', ''Event''],
             ca_configServer = px_EnableAddConstraint (ac_EnableAddConstraint config) NewProxy,
             ca_configConn = configConn,
             ca_eventConn = eventConn,
             ca_actionHandler = newActionHandler,
             ca_actionConn = actionConn,
             ca_k8sClientset = k8s_clientset E k8sClientConfig,
             ca_configCache = NewConfigCache,
             ca_cacheConn = (case cacheConn of Inl _ \<Rightarrow> None | Inr c \<Rightarrow> Some c),
             ca_falcoSidekickListener = NewFalcoSidekickListener NewConfigCache,
             ca_falcoAddr = '':8088'',
             ca_falcoConn = falcoConn,
             ca_configOpen = True, ca_eventOpen = True, ca_eventCancelled = False,
             ca_actionCancelled = False, ca_cancelled = False\<rparr>, [SyncConstraintsLoop]), x5)))))))"

text \<open>The two services close the connections they were made with; the event service has a context of its own.\<close>

definition configServer_Close :: "'w clusterAgent \<Rightarrow> 'w clusterAgent" where
  "configServer_Close ca = ca\<lparr>ca_configOpen := False\<rparr>"

definition eventServer_Close :: "'w clusterAgent \<Rightarrow> 'w clusterAgent" where
  "eventServer_Close ca = ca\<lparr>ca_eventOpen := False, ca_eventCancelled := True\<rparr>"

definition ca_Close :: "'w clusterAgent \<Rightarrow> 'w clusterAgent" where
  "ca_Close ca = (eventServer_Close (configServer_Close ca))\<lparr>ca_cancelled := True\<rparr>"

definition ca_Run :: "'w clusterAgent \<Rightarrow> cluster_task list" where
  "ca_Run ca = [SyncConstraintsLoop, ActionsLoop, InformersLoop, FalcoHTTP (ca_falcoAddr ca)]"

text \<open>
  The loop of the cache: a synchronisation, then a wait that ends by the timer (\<open>True\<close>) or by the
  cancelled context.
\<close>

fun cc_Run ::
  "('w, GetConstraintsRequest, GetConstraintsResponse) rpc \<Rightarrow> bool list \<Rightarrow> ConfigCache \<Rightarrow> ('w, ConfigCache) io" where
  "cc_Run getConstraints [] cc w = cc_SyncConstraints getConstraints cc w"
| "cc_Run getConstraints (timer # ts) cc w = (case cc_SyncConstraints getConstraints cc w of
     (cc', w') \<Rightarrow> if timer then cc_Run getConstraints ts cc' w' else (cc', w'))"

section \<open>tarian-cluster-agent run\<close>

record clusterRunCommand =
  cr_host :: string
  cr_port :: string
  cr_serverAddress :: string
  cr_serverTLSEnabled :: bool
  cr_serverTLSCAFile :: string
  cr_serverTLSInsecureSkipVerify :: bool
  cr_enableAddConstraint :: bool
  cr_falcoListenerHTTPPort :: string

definition newClusterRunCommand :: clusterRunCommand where
  "newClusterRunCommand = \<lparr>cr_host = [], cr_port = ''50052'', cr_serverAddress = ''localhost:50051'',
     cr_serverTLSEnabled = False, cr_serverTLSCAFile = [], cr_serverTLSInsecureSkipVerify = True,
     cr_enableAddConstraint = False, cr_falcoListenerHTTPPort = ''8088''\<rparr>"

definition newClusterAgentConfigFromCliContext ::
  "(bool \<Rightarrow> bool \<Rightarrow> string \<Rightarrow> go_error + 'cert dial_option list) \<Rightarrow> clusterRunCommand \<Rightarrow> go_error + 'cert agent_config" where
  "newClusterAgentConfigFromCliContext DialOptions c =
     (case DialOptions (cr_serverTLSEnabled c) (cr_serverTLSInsecureSkipVerify c) (cr_serverTLSCAFile c) of
        Inl err \<Rightarrow> Inl (Wrap ''new cluster agent config: %w'' (Some err))
      | Inr dialOpts \<Rightarrow> Inr \<lparr>ac_ServerAddress = cr_serverAddress c, ac_ServerGrpcDialOptions = dialOpts,
          ac_EnableAddConstraint = cr_enableAddConstraint c\<rparr>)"

text \<open>
  The command: its error, the agent it served with (closed by the deferred call), and the goroutines.
  \<open>Serve\<close> returns nil after a graceful stop.
\<close>

definition cluster_run ::
  "(string \<Rightarrow> go_error + 'l) \<Rightarrow> ('l \<Rightarrow> go_error option) \<Rightarrow> (bool \<Rightarrow> bool \<Rightarrow> string \<Rightarrow> go_error + 'cert dial_option list) \<Rightarrow>
   ('x, 'w, 'cert, 'kc) cluster_env \<Rightarrow> clusterRunCommand \<Rightarrow>
   ('x, go_error option \<times> 'w clusterAgent option \<times> cluster_task list) io" where
  "cluster_run Listen Serve DialOptions E c x =
     (case Listen (cr_host c @ '':'' @ cr_port c) of
        Inl err \<Rightarrow> ((Errorf_w ''run: failed to listen: %w'' (Some err), None, []), x)
      | Inr listener \<Rightarrow>
          (case newClusterAgentConfigFromCliContext DialOptions c of
             Inl err \<Rightarrow> ((Errorf_w ''run: %w'' (Some err), None, []), x)
           | Inr config \<Rightarrow>
               (case NewClusterAgent E config x of
                  ((Inl err, tasks), x') \<Rightarrow> ((Errorf_w ''run: %w'' (Some err), None, tasks), x')
                | ((Inr ca, tasks), x') \<Rightarrow>
                    (case Serve listener of
                       Some err \<Rightarrow> ((Errorf_w ''run: failed to serve: %w'' (Some err), Some (ca_Close ca), tasks @ ca_Run ca), x')
                     | None \<Rightarrow> ((None, Some (ca_Close ca), tasks @ ca_Run ca), x')))))"

section \<open>tarian-cluster-agent run-webhook-server\<close>

record webhookCommand =
  wh_port :: int
  wh_podAgentContainerName :: string
  wh_podAgentContainerImage :: string
  wh_clusterAgentHost :: string
  wh_clusterAgentPort :: string
  wh_healthProbeBindAddress :: string
  wh_podNamespace :: string
  wh_enableLeaderElection :: bool
  wh_enableCertRotator :: bool
  wh_certRotatorSecretName :: string
  wh_mutatingWebhookConfigurationName :: string

definition newWebhookServerCommand :: webhookCommand where
  "newWebhookServerCommand = \<lparr>wh_port = 9443, wh_podAgentContainerName = ''tarian-pod-agent'',
     wh_podAgentContainerImage = ''localhost:5000/tarian-pod-agent:latest'',
     wh_clusterAgentHost = ''tarian-cluster-agent.tarian-system.svc'', wh_clusterAgentPort = ''80'',
     wh_healthProbeBindAddress = '':8081'', wh_podNamespace = ''tarian-system'', wh_enableLeaderElection = False,
     wh_enableCertRotator = True, wh_certRotatorSecretName = ''tarian-webhook-server-cert'',
     wh_mutatingWebhookConfigurationName = ''tarian-mutating-webhook-configuration''\<rparr>"

record manager_options =
  mo_HealthProbeBindAddress :: string
  mo_LeaderElection :: bool
  mo_LeaderElectionID :: string

record CertRotator =
  cert_Namespace :: string
  cert_SecretName :: string
  cert_CertDir :: string
  cert_CAName :: string
  cert_CAOrganization :: string
  cert_DNSName :: string
  cert_Webhook :: string

text \<open>
  The manager: what was registered with it, the rotator it runs, and the channel \<^verbatim>\<open>isReady\<close>, open until
  the certificates are ready or nothing has to be waited for.
\<close>

record manager =
  mgr_options :: manager_options
  mgr_checks :: "string list"
  mgr_rotator :: "CertRotator option"
  mgr_isReady :: bool
  mgr_webhooks :: "(string \<times> PodAgentContainerConfig) list"

text \<open>The functions of controller-runtime and of the rotator that may fail.\<close>

record webhook_env =
  we_NewManager :: "manager_options \<Rightarrow> go_error option"
  we_AddCheck :: "string \<Rightarrow> go_error option"
  we_AddRotator :: "CertRotator \<Rightarrow> go_error option"

text \<open>The parameter \<^verbatim>\<open>port\<close> of \<^verbatim>\<open>NewManager\<close> is not used.\<close>

definition NewManager :: "webhook_env \<Rightarrow> int \<Rightarrow> string \<Rightarrow> bool \<Rightarrow> go_error + manager" where
  "NewManager E port healthProbeBindAddress leaderElection =
     (let opts = \<lparr>mo_HealthProbeBindAddress = healthProbeBindAddress, mo_LeaderElection = leaderElection,
                  mo_LeaderElectionID = ''0f4c7cb2.k8s.tarian.dev''\<rparr>
      in case we_NewManager E opts of
           Some err \<Rightarrow> Inl (Wrap ''NewManager: unable to start manager: %w'' (Some err))
         | None \<Rightarrow>
             (case we_AddCheck E ''healthz'' of
                Some err \<Rightarrow> Inl (Wrap ''NewManager: unable to set up health check: %w'' (Some err))
              | None \<Rightarrow>
                  (case we_AddCheck E ''readyz'' of
                     Some err \<Rightarrow> Inl (Wrap ''NewManager: unable to set up ready check: %w'' (Some err))
                   | None \<Rightarrow> Inr \<lparr>mgr_options = opts, mgr_checks = [''healthz'', ''readyz''], mgr_rotator = None,
                       mgr_isReady = False, mgr_webhooks = []\<rparr>)))"

definition RegisterControllers :: "PodAgentContainerConfig \<Rightarrow> manager \<Rightarrow> manager" where
  "RegisterControllers cfg mgr = mgr\<lparr>mgr_webhooks := mgr_webhooks mgr @ [(''/inject-pod-agent'', cfg)]\<rparr>"

definition RegisterCertRotator :: "webhook_env \<Rightarrow> string \<Rightarrow> string \<Rightarrow> string \<Rightarrow> manager \<Rightarrow> go_error + manager" where
  "RegisterCertRotator E namespace mutatingWebhookConfigurationName secretName mgr =
     (let rotator = \<lparr>cert_Namespace = namespace, cert_SecretName = secretName,
            cert_CertDir = ''/tmp/k8s-webhook-server/serving-certs'', cert_CAName = ''tarian-ca'',
            cert_CAOrganization = ''tarian'', cert_DNSName = ''*.'' @ namespace @ ''.svc'',
            cert_Webhook = mutatingWebhookConfigurationName\<rparr>
      in case we_AddRotator E rotator of
           Some err \<Rightarrow> Inl (Wrap ''RegisterCertRotator: unable to set up cert rotation: %w'' (Some err))
         | None \<Rightarrow> Inr (mgr\<lparr>mgr_rotator := Some rotator\<rparr>))"

definition webhook_container_config :: "string \<Rightarrow> webhookCommand \<Rightarrow> PodAgentContainerConfig" where
  "webhook_container_config logFormatter c = \<lparr>pc_Name = wh_podAgentContainerName c, pc_Image = wh_podAgentContainerImage c,
     pc_LogEncoding = logFormatter, pc_Host = wh_clusterAgentHost c, pc_Port = wh_clusterAgentPort c\<rparr>"

text \<open>The part of the command before the manager is started.\<close>

definition webhook_setup :: "webhook_env \<Rightarrow> webhookCommand \<Rightarrow> go_error + manager" where
  "webhook_setup E c =
     (case NewManager E (wh_port c) (wh_healthProbeBindAddress c) (wh_enableLeaderElection c) of
        Inl err \<Rightarrow> Inl (Wrap ''run-webhook-server: %w'' (Some err))
      | Inr mgr \<Rightarrow>
          (if wh_enableCertRotator c
           then (case RegisterCertRotator E (wh_podNamespace c) (wh_mutatingWebhookConfigurationName c)
                        (wh_certRotatorSecretName c) mgr of
                   Inl err \<Rightarrow> Inl (Wrap ''run-webhook-server: %w'' (Some err))
                 | Inr mgr' \<Rightarrow> Inr mgr')
           else Inr (mgr\<lparr>mgr_isReady := True\<rparr>)))"

text \<open>
  The running process: whether the certificates are there, the manager, and whether the goroutine
  that waits for \<^verbatim>\<open>isReady\<close> is still waiting. The rotator closes the channel once the certificates are
  ready, as its documentation says.
\<close>

record webhook_state =
  ws_certs :: bool
  ws_mgr :: manager
  ws_waiting :: bool

inductive webhook_step :: "PodAgentContainerConfig \<Rightarrow> webhook_state \<Rightarrow> webhook_state \<Rightarrow> bool" for cfg where
  rotated: "mgr_rotator (ws_mgr s) \<noteq> None \<Longrightarrow> webhook_step cfg s (s\<lparr>ws_certs := True\<rparr>)"
| ready_closed: "mgr_rotator (ws_mgr s) \<noteq> None \<Longrightarrow> ws_certs s \<Longrightarrow>
    webhook_step cfg s (s\<lparr>ws_mgr := (ws_mgr s)\<lparr>mgr_isReady := True\<rparr>\<rparr>)"
| registered: "ws_waiting s \<Longrightarrow> mgr_isReady (ws_mgr s) \<Longrightarrow>
    webhook_step cfg s (s\<lparr>ws_mgr := RegisterControllers cfg (ws_mgr s), ws_waiting := False\<rparr>)"

definition webhook_start :: "manager \<Rightarrow> webhook_state" where
  "webhook_start mgr = \<lparr>ws_certs = False, ws_mgr = mgr, ws_waiting = True\<rparr>"

text \<open>The whole command; \<open>Start\<close> is how the manager ends that was started.\<close>

definition webhook_run :: "webhook_env \<Rightarrow> (manager \<Rightarrow> go_error option) \<Rightarrow> webhookCommand \<Rightarrow> go_error option" where
  "webhook_run E Start c =
     (case webhook_setup E c of
        Inl err \<Rightarrow> Some err
      | Inr mgr \<Rightarrow>
          (case Start mgr of
             Some err \<Rightarrow> Errorf_w ''run-webhook-server: problem running manager: %w'' (Some err)
           | None \<Rightarrow> None))"

section \<open>What the processes guarantee\<close>

text \<open>The handlers are registered once, and only once the certificates are there, if they are rotated.\<close>

definition webhook_inv :: "PodAgentContainerConfig \<Rightarrow> bool \<Rightarrow> webhook_state \<Rightarrow> bool" where
  "webhook_inv cfg rotating s \<longleftrightarrow>
     (mgr_rotator (ws_mgr s) \<noteq> None \<longleftrightarrow> rotating) \<and>
     (rotating \<and> mgr_isReady (ws_mgr s) \<longrightarrow> ws_certs s) \<and>
     (\<not> rotating \<longrightarrow> mgr_isReady (ws_mgr s)) \<and>
     (if ws_waiting s then mgr_webhooks (ws_mgr s) = []
      else mgr_isReady (ws_mgr s) \<and> mgr_webhooks (ws_mgr s) = [(''/inject-pod-agent'', cfg)])"

lemma webhook_inv_step: "webhook_step cfg s s' \<Longrightarrow> webhook_inv cfg r s \<Longrightarrow> webhook_inv cfg r s'"
  by (induction rule: webhook_step.induct) (auto simp: webhook_inv_def RegisterControllers_def)

lemma webhook_inv_start: "webhook_setup E c = Inr mgr \<Longrightarrow> webhook_inv cfg (wh_enableCertRotator c) (webhook_start mgr)"
  by (auto simp: webhook_setup_def NewManager_def RegisterCertRotator_def webhook_inv_def webhook_start_def Let_def
      split: sum.splits option.splits if_splits)

lemma webhook_inv_reachable:
  assumes "webhook_setup E c = Inr mgr" and "(webhook_step cfg)\<^sup>*\<^sup>* (webhook_start mgr) s"
  shows "webhook_inv cfg (wh_enableCertRotator c) s"
  using assms(2) by (induction rule: rtranclp_induct) (auto intro: webhook_inv_start[OF assms(1)] webhook_inv_step)

lemma webhook_can_register:
  assumes "webhook_inv cfg rotating s"
  shows "\<exists>s'. (webhook_step cfg)\<^sup>*\<^sup>* s s' \<and> mgr_webhooks (ws_mgr s') \<noteq> []"
proof (cases "ws_waiting s")
  case True
  let ?s1 = "if rotating then s\<lparr>ws_certs := True, ws_mgr := (ws_mgr s)\<lparr>mgr_isReady := True\<rparr>\<rparr> else s"
  let ?s2 = "?s1\<lparr>ws_mgr := RegisterControllers cfg (ws_mgr ?s1), ws_waiting := False\<rparr>"
  have "(webhook_step cfg)\<^sup>*\<^sup>* s ?s1"
  proof (cases rotating)
    case True
    then have r: "mgr_rotator (ws_mgr s) \<noteq> None" using assms by (simp add: webhook_inv_def)
    let ?a = "s\<lparr>ws_certs := True\<rparr>"
    have "webhook_step cfg s ?a" using r by (rule webhook_step.rotated)
    moreover have "webhook_step cfg ?a (?a\<lparr>ws_mgr := (ws_mgr ?a)\<lparr>mgr_isReady := True\<rparr>\<rparr>)"
      using r by (intro webhook_step.ready_closed) simp_all
    ultimately show ?thesis using True by (auto intro: rtranclp.rtrancl_into_rtrancl)
  qed simp
  moreover have "webhook_step cfg ?s1 ?s2"
    using True assms by (intro webhook_step.registered) (auto simp: webhook_inv_def)
  ultimately have "(webhook_step cfg)\<^sup>*\<^sup>* s ?s2" by (rule rtranclp.rtrancl_into_rtrancl)
  moreover have "mgr_webhooks (ws_mgr ?s2) \<noteq> []" by (simp add: RegisterControllers_def)
  ultimately show ?thesis by blast
next
  case False
  then show ?thesis using assms by (intro exI[of _ s]) (auto simp: webhook_inv_def)
qed

text \<open>
  C20: while the webhook server runs, the injection handler is registered at most once, with the
  configuration of the command line, and with the certificate rotator enabled never before the
  certificates are ready; as long as it is not registered it can still become so.
\<close>

theorem webhook_registered_after_certs:
  assumes "webhook_setup E c = Inr mgr"
    and "(webhook_step (webhook_container_config fmt c))\<^sup>*\<^sup>* (webhook_start mgr) s"
  shows "(mgr_webhooks (ws_mgr s) = [] \<or>
       mgr_webhooks (ws_mgr s) = [(''/inject-pod-agent'', webhook_container_config fmt c)] \<and> (wh_enableCertRotator c \<longrightarrow> ws_certs s)) \<and>
     (\<exists>s'. (webhook_step (webhook_container_config fmt c))\<^sup>*\<^sup>* s s' \<and> mgr_webhooks (ws_mgr s') \<noteq> [])"
  using webhook_inv_reachable[OF assms] webhook_can_register[OF webhook_inv_reachable[OF assms]]
  by (auto simp: webhook_inv_def split: if_splits)

definition ok_webhook_env :: webhook_env where
  "ok_webhook_env = \<lparr>we_NewManager = (\<lambda>_. None), we_AddCheck = (\<lambda>_. None), we_AddRotator = (\<lambda>_. None)\<rparr>"

theorem webhook_registered_after_certs_witness:
  "\<exists>mgr s'. webhook_setup ok_webhook_env newWebhookServerCommand = Inr mgr \<and>
     (webhook_step (webhook_container_config ''text'' newWebhookServerCommand))\<^sup>*\<^sup>* (webhook_start mgr) s' \<and>
     mgr_webhooks (ws_mgr s') \<noteq> []"
proof -
  obtain mgr where m: "webhook_setup ok_webhook_env newWebhookServerCommand = Inr mgr"
    by (simp add: webhook_setup_def NewManager_def RegisterCertRotator_def ok_webhook_env_def Let_def newWebhookServerCommand_def)
  then show ?thesis using webhook_registered_after_certs[OF m, of "''text''" "webhook_start mgr"] by blast
qed

text \<open>The agent that the command runs.\<close>

lemma NewClusterAgent_fields:
  "NewClusterAgent E config x = ((Inr ca, tasks), x') \<Longrightarrow>
     ca_configServer ca = px_EnableAddConstraint (ac_EnableAddConstraint config) NewProxy \<and>
     ca_falcoAddr ca = '':8088'' \<and> tasks = [SyncConstraintsLoop] \<and>
     ca_falcoSidekickListener ca = NewFalcoSidekickListener NewConfigCache \<and> \<not> ca_actionCancelled ca"
  by (auto simp: NewClusterAgent_def split: prod.splits sum.splits)

lemmas agent_close = ca_Close_def configServer_Close_def eventServer_Close_def

lemma cluster_run_agent:
  assumes "cluster_run Listen Serve DialOptions E c x = ((err, Some ca, tasks), x')"
  shows "ca_configServer ca = px_EnableAddConstraint (cr_enableAddConstraint c) NewProxy \<and>
    tasks = [SyncConstraintsLoop, SyncConstraintsLoop, ActionsLoop, InformersLoop, FalcoHTTP '':8088'']"
  using assms
  by (auto simp: cluster_run_def newClusterAgentConfigFromCliContext_def agent_close ca_Run_def
      split: sum.splits prod.splits option.splits dest!: NewClusterAgent_fields)

text \<open>
  Which goroutines go on after the agent was closed: the loop of the cache and the informers follow the
  agent's context, the action handler has one of its own, and the HTTP server has none.
\<close>

fun still_running :: "'w clusterAgent \<Rightarrow> cluster_task \<Rightarrow> bool" where
  "still_running ca SyncConstraintsLoop = (\<not> ca_cancelled ca)"
| "still_running ca InformersLoop = (\<not> ca_cancelled ca)"
| "still_running ca ActionsLoop = (\<not> ca_actionCancelled ca)"
| "still_running ca (FalcoHTTP addr) = True"

text \<open>
  Closing the agent does not stop its action handler: when the command returns, the connections of the two services
  are closed and the cache is stopped, but the loops that delete pods and the HTTP server that
  listens for alerts still run.
\<close>

theorem closed_agent_keeps_acting:
  assumes "cluster_run Listen Serve DialOptions E c x = ((err, Some ca, tasks), x')"
  shows "\<not> ca_configOpen ca \<and> \<not> ca_eventOpen ca \<and> filter (still_running ca) tasks = [ActionsLoop, FalcoHTTP '':8088'']"
proof -
  have "ca_cancelled ca \<and> \<not> ca_configOpen ca \<and> \<not> ca_eventOpen ca \<and> \<not> ca_actionCancelled ca"
    using assms
    by (auto simp: cluster_run_def newClusterAgentConfigFromCliContext_def agent_close
        split: sum.splits prod.splits option.splits dest!: NewClusterAgent_fields)
  then show ?thesis using cluster_run_agent[OF assms] by simp
qed


definition sample_cluster_env :: "(unit, nat, unit, unit) cluster_env" where
  "sample_cluster_env = \<lparr>ce_Dial = (\<lambda>_ _ x. (Inr ok_client, x)), ce_Getenv = (\<lambda>_. []), ce_HomeDir = ''/root'',
     ce_InClusterConfig = Inl (ExtError ''not in a cluster''), ce_BuildConfigFromFlags = (\<lambda>_. Inl (ExtError ''no file'')),
     ce_NewForConfig = (\<lambda>_. Inl (ExtError ''bad''))\<rparr>"

definition sample_cluster_run :: "clusterRunCommand \<Rightarrow> (go_error option \<times> nat clusterAgent option \<times> cluster_task list) \<times> unit" where
  "sample_cluster_run c = cluster_run (\<lambda>a. Inr a) (\<lambda>_. None) (\<lambda>_ _ _. Inr [Insecure]) sample_cluster_env c ()"


end
