(* ===== verification/Install.thy ===== *)
theory Install
  imports Paths "HOL-Library.Sublist"
begin

text \<open>
  \<^verbatim>\<open>tarianctl install\<close> (\<^verbatim>\<open>cmd/tarianctl/cmd/install\<close>) with the clients it drives, \<^verbatim>\<open>pkg/util/helm\<close> and
  \<^verbatim>\<open>pkg/util/kubeclient\<close>. NATS and Dgraph are installed by two goroutines, whose operations interleave as a
  schedule says. Running a program, the Kubernetes API and the YAML printer are parameters.
\<close>

section \<open>helm.go\<close>

record 'w helm_client =
  hc_AddRepo :: "string \<Rightarrow> string \<Rightarrow> ('w, go_error option) io"
  hc_Install :: "string \<Rightarrow> string \<Rightarrow> string \<Rightarrow> string list \<Rightarrow> string \<Rightarrow> string list \<Rightarrow> ('w, go_error option) io"

record helm =
  hm_helmBin :: string
  hm_kubeconfig :: string
  hm_kubeContext :: string

text \<open>\<open>Exec\<close> runs a program and gives its output.\<close>

type_synonym 'w exec = "string \<Rightarrow> string list \<Rightarrow> ('w, string \<times> go_error option) io"

definition NewHelmClient :: "go_error + string \<Rightarrow> 'w exec \<Rightarrow> string \<Rightarrow> string \<Rightarrow> ('w, go_error + helm) io" where
  "NewHelmClient LookPath Exec kubeconfig kubeContext w =
     (case LookPath of
        Inl err \<Rightarrow> (Inl (NewError ''seems like helm is not installed, please install helm first''), w)
      | Inr helmBinaryPath \<Rightarrow>
          (case Exec helmBinaryPath [''version''] w of
             ((out, Some err), w') \<Rightarrow> (Inl (Wrap ''failed to run helm version: %w'' (Some err)), w')
           | ((out, None), w') \<Rightarrow>
               (if \<not> Contains out (''Version:'' @ [CHR 0x22] @ ''v3.'')
                then (Inl (NewError (''helm version >=v3.*.* is required, current version: '' @ out)), w')
                else (Inr \<lparr>hm_helmBin = helmBinaryPath, hm_kubeconfig = kubeconfig, hm_kubeContext = kubeContext\<rparr>, w'))))"

definition cluster_args :: "helm \<Rightarrow> string list" where
  "cluster_args h = (if hm_kubeconfig h \<noteq> [] then [''--kubeconfig'', hm_kubeconfig h] else []) @
     (if hm_kubeContext h \<noteq> [] then [''--kube-context'', hm_kubeContext h] else [])"

definition helm_AddRepo :: "'w exec \<Rightarrow> helm \<Rightarrow> string \<Rightarrow> string \<Rightarrow> ('w, go_error option) io" where
  "helm_AddRepo Exec h name url w =
     (case Exec (hm_helmBin h) ([''repo'', ''add'', name, url] @ cluster_args h) w of ((out, err), w') \<Rightarrow> (err, w'))"

definition helm_Install ::
  "'w exec \<Rightarrow> helm \<Rightarrow> string \<Rightarrow> string \<Rightarrow> string \<Rightarrow> string list \<Rightarrow> string \<Rightarrow> string list \<Rightarrow> ('w, go_error option) io" where
  "helm_Install Exec h name chart namespace valuesFiles version setArgs w =
     (let args = [''upgrade'', ''--install'', name, chart, ''--namespace'', namespace, ''--create-namespace''] @
            cluster_args h @
            concat (map (\<lambda>valuesFile. [''--values'', valuesFile]) valuesFiles) @
            (if version \<noteq> [] then [''--version'', version] else []) @
            concat (map (\<lambda>setArg. [''--set'', setArg]) setArgs)
      in case Exec (hm_helmBin h) args w of ((out, err), w') \<Rightarrow> (err, w'))"

definition real_helm :: "'w exec \<Rightarrow> helm \<Rightarrow> 'w helm_client" where
  "real_helm Exec h = \<lparr>hc_AddRepo = helm_AddRepo Exec h, hc_Install = helm_Install Exec h\<rparr>"

section \<open>kubeclient.go\<close>

record 'w kube_client =
  kc_WaitForPodsToBeReady :: "string \<Rightarrow> string \<Rightarrow> ('w, go_error option) io"
  kc_GetPodName :: "string \<Rightarrow> string \<Rightarrow> ('w, go_error + string) io"
  kc_ExecPodWithOneContainer :: "string \<Rightarrow> string \<Rightarrow> string list \<Rightarrow> ('w, go_error + string) io"

text \<open>
  The libraries of Kubernetes: the configuration of a context of a file and that of a file, and the
  client of a configuration.
\<close>

record ('c, 'k) kube_libs =
  kl_ClientConfig :: "string \<Rightarrow> string \<Rightarrow> go_error + 'c"
  kl_BuildConfigFromFlags :: "string \<Rightarrow> go_error + 'c"
  kl_NewForConfig :: "'c \<Rightarrow> go_error + 'k"

record ('c, 'k) kubernetes_client =
  kk_client :: 'k
  kk_restConfig :: 'c

definition NewKubeClient :: "('c, 'k) kube_libs \<Rightarrow> string \<Rightarrow> string \<Rightarrow> go_error + ('c, 'k) kubernetes_client" where
  "NewKubeClient L kubeconfig kubeContext =
     (case (if kubeContext \<noteq> [] then kl_ClientConfig L kubeconfig kubeContext else kl_BuildConfigFromFlags L kubeconfig) of
        Inl err \<Rightarrow> Inl (Wrap ''failed to build kubeconfig: %w'' (Some err))
      | Inr restConfig \<Rightarrow>
          (case kl_NewForConfig L restConfig of
             Inl err \<Rightarrow> Inl (Wrap ''failed to create kube client: %w'' (Some err))
           | Inr clientSet \<Rightarrow> Inr \<lparr>kk_client = clientSet, kk_restConfig = restConfig\<rparr>))"

record listed_pod =
  lp_Name :: string
  lp_Phase :: string
  lp_Ready :: "bool list"

text \<open>The condition on the listed pods, as the two nested loops test it.\<close>

fun pods_ready :: "listed_pod list \<Rightarrow> bool" where
  "pods_ready [] = True"
| "pods_ready (pod # rest) =
     (if lp_Phase pod \<noteq> ''Running'' then False
      else if list_ex Not (lp_Ready pod) then False
      else pods_ready rest)"

text \<open>
  \<^verbatim>\<open>PollUntilContextTimeout\<close> with \<open>polls\<close> polls before the timeout. An error of the listing counts as not
  ready.
\<close>

type_synonym 'w list_pods = "string \<Rightarrow> string \<Rightarrow> ('w, go_error + listed_pod list) io"

fun WaitForPodsToBeReady :: "nat \<Rightarrow> 'w list_pods \<Rightarrow> string \<Rightarrow> string \<Rightarrow> ('w, go_error option) io" where
  "WaitForPodsToBeReady 0 ListPods namespace labelSelector w = (Some (ExtError ''context deadline exceeded''), w)"
| "WaitForPodsToBeReady (Suc polls) ListPods namespace labelSelector w =
     (case ListPods namespace labelSelector w of
        (Inl err, w') \<Rightarrow> WaitForPodsToBeReady polls ListPods namespace labelSelector w'
      | (Inr podList, w') \<Rightarrow>
          (if pods_ready podList then (None, w') else WaitForPodsToBeReady polls ListPods namespace labelSelector w'))"

definition GetPodName :: "'w list_pods \<Rightarrow> string \<Rightarrow> string \<Rightarrow> ('w, go_error + string) io" where
  "GetPodName ListPods namespace labelSelector w =
     (case ListPods namespace labelSelector w of
        (Inl err, w') \<Rightarrow> (Inl (Wrap ''failed to get pod: %w'' (Some err)), w')
      | (Inr [], w') \<Rightarrow> (Inl (Wrap ''failed to get pod: %w'' None), w')
      | (Inr (pod # rest), w') \<Rightarrow> (Inr (lp_Name pod), w'))"

text \<open>The executor, the streams it fills and the error of the stream are the result of \<open>Stream\<close>.\<close>

definition ExecPodWithOneContainer ::
  "(string \<Rightarrow> string \<Rightarrow> string list \<Rightarrow> ('w, go_error + string \<times> string \<times> go_error option) io) \<Rightarrow>
   string \<Rightarrow> string \<Rightarrow> string list \<Rightarrow> ('w, go_error + string) io" where
  "ExecPodWithOneContainer Stream namespace podName cmd w =
     (case Stream namespace podName cmd w of
        (Inl err, w') \<Rightarrow> (Inl (Wrap ''failed to create executor: %w'' (Some err)), w')
      | (Inr (stdout, stderr, Some err), w') \<Rightarrow> (Inl (Wrap ''failed to stream: %w'' (Some err)), w')
      | (Inr (stdout, stderr, None), w') \<Rightarrow>
          (if stderr \<noteq> [] then (Inl (NewError (''stderr: '' @ stderr)), w') else (Inr stdout, w')))"

definition real_kube ::
  "nat \<Rightarrow> 'w list_pods \<Rightarrow> (string \<Rightarrow> string \<Rightarrow> string list \<Rightarrow> ('w, go_error + string \<times> string \<times> go_error option) io) \<Rightarrow> 'w kube_client" where
  "real_kube polls ListPods Stream = \<lparr>kc_WaitForPodsToBeReady = WaitForPodsToBeReady polls ListPods,
     kc_GetPodName = GetPodName ListPods, kc_ExecPodWithOneContainer = ExecPodWithOneContainer Stream\<rparr>"

section \<open>defaultValues.go\<close>

record StorageOpts =
  so_Enabled :: bool
  so_Size :: string

record NatsHelmDefaultValues =
  nv_Image :: string
  nv_JetstreamEnabled :: bool
  nv_MemStorage :: StorageOpts
  nv_FileStorage :: StorageOpts

definition natsValues :: NatsHelmDefaultValues where
  "natsValues = \<lparr>nv_Image = ''nats:alpine'', nv_JetstreamEnabled = True,
     nv_MemStorage = \<lparr>so_Enabled = True, so_Size = ''128Mi''\<rparr>,
     nv_FileStorage = \<lparr>so_Enabled = True, so_Size = ''200Mi''\<rparr>\<rparr>"

record AlphaConfig =
  al_ExtraEnvs :: "(string \<times> string) list"

definition dgraphValues :: AlphaConfig where
  "dgraphValues = \<lparr>al_ExtraEnvs = [(''DGRAPH_ALPHA_SECURITY'', ''whitelist=0.0.0.0/0'')]\<rparr>"

text \<open>Files are written through \<open>Write\<close>; \<open>Yaml\<close> prints the values.\<close>

type_synonym 'w write_file = "string \<Rightarrow> string \<Rightarrow> ('w, go_error option) io"

definition write_values :: "('a \<Rightarrow> go_error + string) \<Rightarrow> 'w write_file \<Rightarrow> 'a \<Rightarrow> string \<Rightarrow> ('w, go_error option) io" where
  "write_values Yaml Write values path w =
     (case Yaml values of
        Inl err \<Rightarrow> (Some (Wrap ''failed to marshal values to YAML: %v'' (Some err)), w)
      | Inr valuesYAML \<Rightarrow>
          (case Write path valuesYAML w of
             (Some err, w') \<Rightarrow> (Some (Wrap ''failed to write values to temporary file: %v'' (Some err)), w')
           | (None, w') \<Rightarrow> (None, w')))"

definition natsHelmDefaultValues ::
  "(NatsHelmDefaultValues \<Rightarrow> go_error + string) \<Rightarrow> 'w write_file \<Rightarrow> string \<Rightarrow> ('w, go_error option) io" where
  "natsHelmDefaultValues Yaml Write natsValuesFile = write_values Yaml Write natsValues natsValuesFile"

definition dgraphHelmDefaultValues ::
  "(AlphaConfig \<Rightarrow> go_error + string) \<Rightarrow> 'w write_file \<Rightarrow> string \<Rightarrow> ('w, go_error option) io" where
  "dgraphHelmDefaultValues Yaml Write dgraphValuesFile = write_values Yaml Write dgraphValues dgraphValuesFile"

section \<open>install.go\<close>

record installCmd =
  ic_namespace :: string
  ic_kubeContext :: string
  ic_kubeconfig :: string
  ic_charts :: string
  ic_serverValues :: "string list"
  ic_agentsValues :: "string list"
  ic_natsValues :: "string list"
  ic_dgraphValues :: "string list"
  ic_onlyAgents :: bool

definition NewInstallCommand :: installCmd where
  "NewInstallCommand = \<lparr>ic_namespace = ''tarian-system'', ic_kubeContext = [], ic_kubeconfig = [], ic_charts = [],
     ic_serverValues = [], ic_agentsValues = [], ic_natsValues = [], ic_dgraphValues = [], ic_onlyAgents = False\<rparr>"

record 'w install_clients =
  cl_helm :: "'w helm_client"
  cl_kube :: "'w kube_client"
  cl_natsDefaults :: "string \<Rightarrow> ('w, go_error option) io"
  cl_dgraphDefaults :: "string \<Rightarrow> ('w, go_error option) io"

text \<open>
  A goroutine as the list of the operations it performs, each with the text its error is wrapped in.
  It ends after the first error.
\<close>

type_synonym 'w steps = "(('w, go_error option) io \<times> string) list"

definition installNats :: "'w install_clients \<Rightarrow> installCmd \<Rightarrow> string \<Rightarrow> 'w steps" where
  "installNats C c tempDir =
     (let natsValuesFile = path_Join [tempDir, ''nats-values.yaml''];
          valuesFiles = [natsValuesFile] @ ic_natsValues c
      in [(hc_AddRepo (cl_helm C) ''nats'' ''https://nats-io.github.io/k8s/helm/charts/'', ''failed to add nats repo: %w''),
          (cl_natsDefaults C natsValuesFile, ''failed to get nats helm default values file: %w''),
          (hc_Install (cl_helm C) ''nats'' ''nats/nats'' (ic_namespace c) valuesFiles ''0.19.16'' [], ''failed to install nats: %w''),
          (kc_WaitForPodsToBeReady (cl_kube C) (ic_namespace c) ''app.kubernetes.io/name=nats'', ''nats pods failed to be ready: %w'')])"

definition installDgraph :: "'w install_clients \<Rightarrow> installCmd \<Rightarrow> string \<Rightarrow> 'w steps" where
  "installDgraph C c tempDir =
     (let dgraphValuesFile = path_Join [tempDir, ''dgraph-values.yaml''];
          valuesFiles = [dgraphValuesFile] @ ic_dgraphValues c
      in [(hc_AddRepo (cl_helm C) ''dgraph'' ''https://charts.dgraph.io'', ''failed to add dgraph repo: %w''),
          (cl_dgraphDefaults C dgraphValuesFile, ''failed to get dgraph helm default values file: %w''),
          (hc_Install (cl_helm C) ''dgraph'' ''dgraph/dgraph'' (ic_namespace c) valuesFiles [] [], ''failed to install dgraph: %w''),
          (kc_WaitForPodsToBeReady (cl_kube C) (ic_namespace c) ''app=dgraph'', ''dgraph pods failed to be ready: %w'')])"

text \<open>
  \<^verbatim>\<open>errgroup\<close>: both goroutines run to their end, \<^verbatim>\<open>Wait\<close> gives the first error in time. The schedule tells
  whose operation is next while both have one.
\<close>

definition run_step :: "('w, go_error option) io \<times> string \<Rightarrow> 'w steps \<Rightarrow> go_error option \<Rightarrow> 'w \<Rightarrow> 'w steps \<times> go_error option \<times> 'w" where
  "run_step s rest err w = (case fst s w of
     (None, w') \<Rightarrow> (rest, err, w')
   | (Some e, w') \<Rightarrow> ([], (case err of None \<Rightarrow> Errorf_w (snd s) (Some e) | Some _ \<Rightarrow> err), w'))"

lemma run_step_length: "run_step s rest err w = (rest', err', w') \<Longrightarrow> length rest' \<le> length rest"
  by (auto simp: run_step_def split: prod.splits option.splits)

function group_wait :: "bool list \<Rightarrow> 'w steps \<Rightarrow> 'w steps \<Rightarrow> go_error option \<Rightarrow> ('w, go_error option) io" where
  "group_wait sched [] [] err w = (err, w)"
| "group_wait sched (x # xs) [] err w =
     (case run_step x xs err w of (xs', err', w') \<Rightarrow> group_wait sched xs' [] err' w')"
| "group_wait sched [] (y # ys) err w =
     (case run_step y ys err w of (ys', err', w') \<Rightarrow> group_wait sched [] ys' err' w')"
| "group_wait sched (x # xs) (y # ys) err w =
     (if sched = [] \<or> hd sched
      then (case run_step x xs err w of (xs', err', w') \<Rightarrow> group_wait (tl sched) xs' (y # ys) err' w')
      else (case run_step y ys err w of (ys', err', w') \<Rightarrow> group_wait (tl sched) (x # xs) ys' err' w'))"
  by pat_completeness auto
termination
  by (relation "measure (\<lambda>(_, xs, ys, _). length xs + length ys)")
    (auto dest!: run_step_length[OF sym] run_step_length split: prod.splits)

fun run_seq :: "'w steps \<Rightarrow> ('w, go_error option) io" where
  "run_seq [] w = (None, w)"
| "run_seq (s # rest) w = (case fst s w of
     (None, w') \<Rightarrow> run_seq rest w'
   | (Some e, w') \<Rightarrow> (Errorf_w (snd s) (Some e), w'))"

text \<open>Adding the repository of the charts, unless a directory of charts is given; the charts are set then.\<close>

definition tarian_repo :: "'w install_clients \<Rightarrow> installCmd \<Rightarrow> 'w steps" where
  "tarian_repo C c =
     (if ic_charts c = []
      then [(hc_AddRepo (cl_helm C) ''tarian'' ''https://kube-tarian.github.io/helm-charts'', ''failed to add tarian repo: %w'')]
      else [])"

definition with_charts :: "installCmd \<Rightarrow> installCmd" where
  "with_charts c = (if ic_charts c = [] then c\<lparr>ic_charts := ''tarian''\<rparr> else c)"

definition dgraphCmd :: "string list" where
  "dgraphCmd = [''./tarian-server'', ''dgraph'', ''apply-schema'']"

definition apply_schema :: "'w install_clients \<Rightarrow> installCmd \<Rightarrow> ('w, go_error option) io" where
  "apply_schema C c w =
     (case kc_GetPodName (cl_kube C) (ic_namespace c) ''app=tarian-server'' w of
        (Inl err, w1) \<Rightarrow> (Errorf_w ''failed to get tarian server pod name: %w'' (Some err), w1)
      | (Inr podName, w1) \<Rightarrow>
          (case kc_ExecPodWithOneContainer (cl_kube C) (ic_namespace c) podName dgraphCmd w1 of
             (Inl err, w2) \<Rightarrow> (Errorf_w ''failed to apply schema to dgraph: %w'' (Some err), w2)
           | (Inr out, w2) \<Rightarrow>
               (if Contains out ''error while applying dgraph schema''
                then (Some (NewError (''failed to execute command: '' @ Join dgraphCmd '' '' @ '', in namespace/pod: '' @
                        ic_namespace c @ ''/'' @ podName @ '', error: '' @ out)), w2)
                else (None, w2))))"

definition installServer :: "'w install_clients \<Rightarrow> installCmd \<Rightarrow> ('w, go_error option) io" where
  "installServer C c w =
     (let c' = with_charts c; chart = ic_charts c' @ ''/tarian-server'';
          set_values = [''server.dgraph.address=dgraph-dgraph-alpha:9080'']
      in case run_seq (tarian_repo C c @
            [(hc_Install (cl_helm C) ''tarian-server'' chart (ic_namespace c) (ic_serverValues c) [] set_values, ''failed to install tarian server: %w''),
             (kc_WaitForPodsToBeReady (cl_kube C) (ic_namespace c) ''app=tarian-server'', ''tarian server pods failed to be ready: %w'')]) w of
           (Some err, w') \<Rightarrow> (Some err, w')
         | (None, w') \<Rightarrow> apply_schema C c w')"

definition installAgents :: "'w install_clients \<Rightarrow> installCmd \<Rightarrow> ('w, go_error option) io" where
  "installAgents C c w =
     (let c' = with_charts c; chart = ic_charts c' @ ''/tarian-cluster-agent''
      in run_seq (tarian_repo C c @
            [(hc_Install (cl_helm C) ''tarian'' chart (ic_namespace c) (ic_agentsValues c) [] [], ''failed to install tarian cluster agent: %w''),
             (kc_WaitForPodsToBeReady (cl_kube C) (ic_namespace c) ''app=tarian'', ''tarian cluster/node agent pods failed to be ready: %w'')]) w)"

text \<open>The part of \<^verbatim>\<open>run\<close> once the clients are there.\<close>

definition install_all :: "bool list \<Rightarrow> 'w install_clients \<Rightarrow> installCmd \<Rightarrow> string \<Rightarrow> ('w, go_error option) io" where
  "install_all sched C c tempDir w =
     (case group_wait sched (installNats C c tempDir) (installDgraph C c tempDir) None w of
        (Some err, w1) \<Rightarrow> (Errorf_w ''install: failed to install dependencies: %w'' (Some err), w1)
      | (None, w1) \<Rightarrow>
          (if ic_onlyAgents c
           then (case installAgents C c w1 of
                   (Some err, w2) \<Rightarrow> (Errorf_w ''install: %w'' (Some err), w2)
                 | (None, w2) \<Rightarrow> (None, w2))
           else (case installServer C c w1 of
                   (Some err, w2) \<Rightarrow> (Errorf_w ''install: %w'' (Some err), w2)
                 | (None, w2) \<Rightarrow>
                     (case installAgents C (with_charts c) w2 of
                        (Some err, w3) \<Rightarrow> (Errorf_w ''install: %w'' (Some err), w3)
                      | (None, w3) \<Rightarrow> (None, w3)))))"

text \<open>The file of the cluster configuration; \<open>Stat\<close> tells whether a file is there.\<close>

definition install_kubeconfig :: "(string \<Rightarrow> string) \<Rightarrow> string \<Rightarrow> (string \<Rightarrow> bool) \<Rightarrow> installCmd \<Rightarrow> go_error + installCmd" where
  "install_kubeconfig Getenv home Stat c =
     (if ic_kubeconfig c = []
      then (if Getenv ''KUBECONFIG'' \<noteq> [] then Inr (c\<lparr>ic_kubeconfig := Getenv ''KUBECONFIG''\<rparr>)
            else let path = path_Join [home, ''.kube'', ''config'']
                 in if Stat path then Inr (c\<lparr>ic_kubeconfig := path\<rparr>)
                    else Inl (NewError ''install: could not find kubeconfig''))
      else Inr c)"

record 'w install_env =
  ie_MkdirTemp :: "('w, go_error + string) io"
  ie_Getenv :: "string \<Rightarrow> string"
  ie_Home :: string
  ie_Stat :: "string \<Rightarrow> bool"
  ie_NewHelm :: "string \<Rightarrow> string \<Rightarrow> ('w, go_error + 'w helm_client) io"
  ie_NewKube :: "string \<Rightarrow> string \<Rightarrow> ('w, go_error + 'w kube_client) io"
  ie_natsDefaults :: "string \<Rightarrow> ('w, go_error option) io"
  ie_dgraphDefaults :: "string \<Rightarrow> ('w, go_error option) io"

definition install_run :: "bool list \<Rightarrow> 'w install_env \<Rightarrow> installCmd \<Rightarrow> ('w, go_error option) io" where
  "install_run sched E c w =
     (case ie_MkdirTemp E w of
        (Inl err, w1) \<Rightarrow> (Some (Wrap ''failed to create temporary directory: %v'' (Some err)), w1)
      | (Inr tempDir, w1) \<Rightarrow>
          (case install_kubeconfig (ie_Getenv E) (ie_Home E) (ie_Stat E) c of
             Inl err \<Rightarrow> (Some err, w1)
           | Inr c' \<Rightarrow>
               (case ie_NewHelm E (ic_kubeconfig c') (ic_kubeContext c') w1 of
                  (Inl err, w2) \<Rightarrow> (Errorf_w ''install: failed to create helm client: %w'' (Some err), w2)
                | (Inr helmClient, w2) \<Rightarrow>
                    (case ie_NewKube E (ic_kubeconfig c') (ic_kubeContext c') w2 of
                       (Inl err, w3) \<Rightarrow> (Errorf_w ''install: failed to get kubeclient: %w'' (Some err), w3)
                     | (Inr kubeClient, w3) \<Rightarrow>
                         install_all sched \<lparr>cl_helm = helmClient, cl_kube = kubeClient,
                           cl_natsDefaults = ie_natsDefaults E, cl_dgraphDefaults = ie_dgraphDefaults E\<rparr> c' tempDir w3))))"

section \<open>The order of an installation\<close>

text \<open>Clients that record what they are asked to do, with any answers.\<close>

datatype op =
    AddRepoOp string string
  | DefaultsOp string
  | InstallOp string string string "string list" string "string list"
  | WaitOp string string
  | GetPodOp string string
  | ExecOp string string "string list"

definition rec :: "(op \<Rightarrow> op list \<Rightarrow> go_error option) \<Rightarrow> op \<Rightarrow> (op list, go_error option) io" where
  "rec answer o1 log = (answer o1 log, log @ [o1])"

definition rec_value :: "(op \<Rightarrow> op list \<Rightarrow> go_error option) \<Rightarrow> string \<Rightarrow> op \<Rightarrow> (op list, go_error + string) io" where
  "rec_value answer v o1 log = (case answer o1 log of Some e \<Rightarrow> Inl e | None \<Rightarrow> Inr v, log @ [o1])"

definition recording_clients :: "(op \<Rightarrow> op list \<Rightarrow> go_error option) \<Rightarrow> string \<Rightarrow> string \<Rightarrow> op list install_clients" where
  "recording_clients answer pod out =
     \<lparr>cl_helm = \<lparr>hc_AddRepo = (\<lambda>n u. rec answer (AddRepoOp n u)),
                 hc_Install = (\<lambda>n ch ns vf v sa. rec answer (InstallOp n ch ns vf v sa))\<rparr>,
      cl_kube = \<lparr>kc_WaitForPodsToBeReady = (\<lambda>ns l. rec answer (WaitOp ns l)),
                 kc_GetPodName = (\<lambda>ns l. rec_value answer pod (GetPodOp ns l)),
                 kc_ExecPodWithOneContainer = (\<lambda>ns p cmd. rec_value answer out (ExecOp ns p cmd))\<rparr>,
      cl_natsDefaults = (\<lambda>f. rec answer (DefaultsOp f)), cl_dgraphDefaults = (\<lambda>f. rec answer (DefaultsOp f))\<rparr>"

definition nats_ops :: "installCmd \<Rightarrow> string \<Rightarrow> op list" where
  "nats_ops c tempDir = (let f = path_Join [tempDir, ''nats-values.yaml''] in
     [AddRepoOp ''nats'' ''https://nats-io.github.io/k8s/helm/charts/'', DefaultsOp f,
      InstallOp ''nats'' ''nats/nats'' (ic_namespace c) (f # ic_natsValues c) ''0.19.16'' [],
      WaitOp (ic_namespace c) ''app.kubernetes.io/name=nats''])"

definition dgraph_ops :: "installCmd \<Rightarrow> string \<Rightarrow> op list" where
  "dgraph_ops c tempDir = (let f = path_Join [tempDir, ''dgraph-values.yaml''] in
     [AddRepoOp ''dgraph'' ''https://charts.dgraph.io'', DefaultsOp f,
      InstallOp ''dgraph'' ''dgraph/dgraph'' (ic_namespace c) (f # ic_dgraphValues c) [] [],
      WaitOp (ic_namespace c) ''app=dgraph''])"

definition repo_ops :: "installCmd \<Rightarrow> op list" where
  "repo_ops c = (if ic_charts c = [] then [AddRepoOp ''tarian'' ''https://kube-tarian.github.io/helm-charts''] else [])"

definition server_ops :: "installCmd \<Rightarrow> string \<Rightarrow> op list" where
  "server_ops c pod = repo_ops c @
     [InstallOp ''tarian-server'' (ic_charts (with_charts c) @ ''/tarian-server'') (ic_namespace c) (ic_serverValues c) []
        [''server.dgraph.address=dgraph-dgraph-alpha:9080''],
      WaitOp (ic_namespace c) ''app=tarian-server'', GetPodOp (ic_namespace c) ''app=tarian-server'',
      ExecOp (ic_namespace c) pod dgraphCmd]"

definition agent_ops :: "installCmd \<Rightarrow> op list" where
  "agent_ops c = repo_ops c @
     [InstallOp ''tarian'' (ic_charts (with_charts c) @ ''/tarian-cluster-agent'') (ic_namespace c) (ic_agentsValues c) [] [],
      WaitOp (ic_namespace c) ''app=tarian'']"

definition tarian_ops :: "installCmd \<Rightarrow> string \<Rightarrow> op list" where
  "tarian_ops c pod = (if ic_onlyAgents c then agent_ops c else server_ops c pod @ agent_ops (with_charts c))"

text \<open>The steps of a list record its operations.\<close>

definition records :: "(op \<Rightarrow> op list \<Rightarrow> go_error option) \<Rightarrow> op list steps \<Rightarrow> op list \<Rightarrow> bool" where
  "records answer steps os \<longleftrightarrow> map fst steps = map (rec answer) os"

lemma records_Cons: "records answer (s # ss) os \<longleftrightarrow> (\<exists>o1 os'. os = o1 # os' \<and> fst s = rec answer o1 \<and> records answer ss os')"
  by (auto simp: records_def Cons_eq_map_conv)

lemma records_Nil: "records answer [] os \<longleftrightarrow> os = []"
  by (simp add: records_def)

lemma run_seq_records:
  "records answer ss os \<Longrightarrow> run_seq ss log = (r, log') \<Longrightarrow>
     \<exists>d. log' = log @ d \<and> prefix d os \<and> (r = None \<longrightarrow> d = os)"
proof (induction ss arbitrary: os log)
  case (Cons s ss)
  then obtain o1 os' where os: "os = o1 # os'" "fst s = rec answer o1" "records answer ss os'" by (auto simp: records_Cons)
  show ?case
  proof (cases "answer o1 log")
    case None
    then have "run_seq ss (log @ [o1]) = (r, log')" using Cons.prems(2) os by (simp add: rec_def)
    then obtain d where "log' = (log @ [o1]) @ d" "prefix d os'" "r = None \<longrightarrow> d = os'" using Cons.IH[OF os(3)] by blast
    then show ?thesis using os by (intro exI[of _ "o1 # d"]) auto
  next
    case (Some e)
    then show ?thesis using Cons.prems(2) os by (intro exI[of _ "[o1]"]) (auto simp: rec_def Errorf_w_def)
  qed
qed (auto simp: records_Nil)

text \<open>What one operation of a goroutine does to the record, and what is left of the goroutine.\<close>

lemma run_step_records:
  assumes "records answer (x # xs) (o1 # os)" and "run_step x xs err log = (xs', err', log')"
  shows "log' = log @ [o1] \<and> (xs' = xs \<and> err' = err \<or> xs' = [] \<and> err' \<noteq> None)"
  using assms by (auto simp: records_Cons run_step_def rec_def Errorf_w_def split: option.splits)

definition group_result :: "go_error option \<Rightarrow> go_error option \<Rightarrow> op list \<Rightarrow> op list \<Rightarrow> op list \<Rightarrow> bool" where
  "group_result err r xs ys d \<longleftrightarrow> set d \<subseteq> set xs \<union> set ys \<and> (err \<noteq> None \<longrightarrow> r \<noteq> None) \<and> (r = None \<longrightarrow> d \<in> shuffles xs ys)"

lemma group_result_left:
  "group_result err' r xs' ys d \<Longrightarrow> xs' = xs \<and> err' = err \<or> xs' = [] \<and> err' \<noteq> None \<Longrightarrow> group_result err r (x # xs) ys (x # d)"
  by (cases ys) (auto simp: group_result_def)

lemma left_step_records:
  assumes "records answer (x # xs) as" and "run_step x xs err log = (xs', err', log1)"
    and "\<And>as'. records answer xs' as' \<Longrightarrow> \<exists>d. log' = log1 @ d \<and> group_result err' r as' bs d"
  shows "\<exists>d. log' = log @ d \<and> group_result err r as bs d"
proof -
  obtain o1 os where as: "as = o1 # os" "records answer xs os" using assms(1) by (auto simp: records_Cons)
  have st: "log1 = log @ [o1]" "xs' = xs \<and> err' = err \<or> xs' = [] \<and> err' \<noteq> None"
    using run_step_records[OF assms(1)[unfolded as(1)] assms(2)] by auto
  define os' where "os' = (if xs' = xs \<and> err' = err then os else [])"
  have "records answer xs' os'" using st(2) as(2) by (auto simp: os'_def records_Nil)
  then obtain d where d: "log' = log1 @ d" "group_result err' r os' bs d" using assms(3) by blast
  moreover have "os' = os \<and> err' = err \<or> os' = [] \<and> err' \<noteq> None" using st(2) by (auto simp: os'_def)
  ultimately show ?thesis using group_result_left[OF d(2)] st(1) as(1) by (intro exI[of _ "o1 # d"]) simp
qed

lemma right_step_records:
  assumes "records answer (y # ys) bs" and "run_step y ys err log = (ys', err', log1)"
    and "\<And>bs'. records answer ys' bs' \<Longrightarrow> \<exists>d. log' = log1 @ d \<and> group_result err' r as bs' d"
  shows "\<exists>d. log' = log @ d \<and> group_result err r as bs d"
proof -
  have "\<exists>d. log' = log1 @ d \<and> group_result err' r bs' as d" if "records answer ys' bs'" for bs'
    using assms(3)[OF that] by (auto simp: group_result_def shuffles_commutes)
  from left_step_records[OF assms(1,2) this] show ?thesis by (auto simp: group_result_def shuffles_commutes)
qed

lemma group_wait_records:
  "records answer xs as \<Longrightarrow> records answer ys bs \<Longrightarrow> group_wait sched xs ys err log = (r, log') \<Longrightarrow>
     \<exists>d. log' = log @ d \<and> group_result err r as bs d"
proof (induction sched xs ys err log arbitrary: as bs rule: group_wait.induct)
  case (1 sched err w)
  then show ?case by (auto simp: records_Nil group_result_def)
next
  case (2 sched x xs err w)
  obtain xs' err' w' where st: "run_step x xs err w = (xs', err', w')" by (cases "run_step x xs err w")
  show ?case by (rule left_step_records[OF 2(2) st]) (use 2 st in auto)
next
  case (3 sched y ys err w)
  obtain ys' err' w' where st: "run_step y ys err w = (ys', err', w')" by (cases "run_step y ys err w")
  show ?case by (rule right_step_records[OF 3(3) st]) (use 3 st in auto)
next
  case (4 sched x xs y ys err w)
  show ?case
  proof (cases "sched = [] \<or> hd sched")
    case True
    obtain xs' err' w' where st: "run_step x xs err w = (xs', err', w')" by (cases "run_step x xs err w")
    show ?thesis by (rule left_step_records[OF 4(3) st]) (use 4 st True in auto)
  next
    case False
    obtain ys' err' w' where st: "run_step y ys err w = (ys', err', w')" by (cases "run_step y ys err w")
    show ?thesis by (rule right_step_records[OF 4(4) st]) (use 4 st False in auto)
  qed
qed

lemma nats_records: "records answer (installNats (recording_clients answer pod out) c t) (nats_ops c t)"
  by (simp add: records_def installNats_def nats_ops_def recording_clients_def Let_def)

lemma dgraph_records: "records answer (installDgraph (recording_clients answer pod out) c t) (dgraph_ops c t)"
  by (simp add: records_def installDgraph_def dgraph_ops_def recording_clients_def Let_def)

text \<open>Operations in a row that appended a prefix of a list to the record, all of it without an error.\<close>

definition appended :: "op list \<Rightarrow> op list \<Rightarrow> go_error option \<times> op list \<Rightarrow> bool" where
  "appended os log res \<longleftrightarrow> (\<exists>d. snd res = log @ d \<and> prefix d os \<and> (fst res = None \<longrightarrow> d = os))"

lemma appended_then:
  assumes "appended os log (None, log1)" and "appended os' log1 res"
  shows "appended (os @ os') log res"
  using assms by (auto simp: appended_def)

lemma appended_error: "appended os log (Some e, log1) \<Longrightarrow> appended (os @ os') log (Some e', log1)"
  by (auto simp: appended_def prefix_def)

lemma run_seq_appended: "records answer ss os \<Longrightarrow> appended os log (run_seq ss log)"
  using run_seq_records[of answer ss os log] by (cases "run_seq ss log") (auto simp: appended_def)

lemma agents_appended: "appended (agent_ops c) log (installAgents (recording_clients answer pod out) c log)"
  unfolding installAgents_def Let_def
  by (rule run_seq_appended[of answer]) (simp add: records_def tarian_repo_def agent_ops_def repo_ops_def recording_clients_def)

lemma schema_appended:
  "appended [GetPodOp (ic_namespace c) ''app=tarian-server'', ExecOp (ic_namespace c) pod dgraphCmd] log
     (apply_schema (recording_clients answer pod out) c log)"
  by (auto simp: appended_def apply_schema_def recording_clients_def rec_value_def Errorf_w_def split: option.splits)

lemma server_appended: "appended (server_ops c pod) log (installServer (recording_clients answer pod out) c log)"
proof -
  let ?C = "recording_clients answer pod out"
  let ?os = "repo_ops c @ [InstallOp ''tarian-server'' (ic_charts (with_charts c) @ ''/tarian-server'') (ic_namespace c)
      (ic_serverValues c) [] [''server.dgraph.address=dgraph-dgraph-alpha:9080''], WaitOp (ic_namespace c) ''app=tarian-server'']"
  let ?ss = "tarian_repo ?C c @
      [(hc_Install (cl_helm ?C) ''tarian-server'' (ic_charts (with_charts c) @ ''/tarian-server'') (ic_namespace c) (ic_serverValues c) []
          [''server.dgraph.address=dgraph-dgraph-alpha:9080''], ''failed to install tarian server: %w''),
       (kc_WaitForPodsToBeReady (cl_kube ?C) (ic_namespace c) ''app=tarian-server'', ''tarian server pods failed to be ready: %w'')]"
  have seq: "appended ?os log (run_seq ?ss log)"
    by (rule run_seq_appended[of answer]) (simp add: records_def tarian_repo_def repo_ops_def recording_clients_def)
  have ops: "server_ops c pod = ?os @ [GetPodOp (ic_namespace c) ''app=tarian-server'', ExecOp (ic_namespace c) pod dgraphCmd]"
    by (simp add: server_ops_def)
  have def: "installServer ?C c log = (case run_seq ?ss log of (Some err, w') \<Rightarrow> (Some err, w') | (None, w') \<Rightarrow> apply_schema ?C c w')"
    unfolding installServer_def Let_def ..
  obtain r log1 where r: "run_seq ?ss log = (r, log1)" by fastforce
  show ?thesis
  proof (cases r)
    case None
    then show ?thesis using appended_then[OF seq[unfolded r None] schema_appended] def r ops by simp
  next
    case (Some e)
    then show ?thesis using appended_error[OF seq[unfolded r Some]] def r ops by simp
  qed
qed

lemma tarian_appended:
  assumes "install_all sched C c t w = (r, log)" and "group_wait sched (installNats C c t) (installDgraph C c t) None w = (None, log1)"
    and "C = recording_clients answer pod out"
  shows "appended (tarian_ops c pod) log1 (r, log)"
proof (cases "ic_onlyAgents c")
  case True
  then show ?thesis using assms agents_appended[of c log1 answer pod out]
    by (auto simp: install_all_def tarian_ops_def appended_def Errorf_w_def split: option.splits prod.splits)
next
  case False
  obtain r2 log2 where s: "installServer C c log1 = (r2, log2)" by fastforce
  show ?thesis
  proof (cases r2)
    case (Some e)
    then show ?thesis
      using appended_error[of "server_ops c pod" log1 e log2] server_appended[of c pod log1 answer out] assms s False
      by (auto simp: install_all_def tarian_ops_def Errorf_w_def)
  next
    case None
    obtain r3 log3 where a: "installAgents C (with_charts c) log2 = (r3, log3)" by fastforce
    have "appended (server_ops c pod @ agent_ops (with_charts c)) log1 (r3, log3)"
      using appended_then[of "server_ops c pod" log1 log2] server_appended[of c pod log1 answer out]
        agents_appended[of "with_charts c" log2 answer pod out] s a None assms(3) by simp
    moreover have "log = log3" "r = None \<longleftrightarrow> r3 = None"
      using assms(1,2) s a None False by (auto simp: install_all_def Errorf_w_def split: option.splits)
    ultimately show ?thesis using False by (simp add: tarian_ops_def appended_def)
  qed
qed


definition sample_install :: "go_error option \<times> op list" where
  "sample_install = install_all [False, True, False] (recording_clients (\<lambda>_ _. None) ''server-0'' ''ok'')
     (NewInstallCommand\<lparr>ic_onlyAgents := True, ic_charts := ''charts''\<rparr>) ''/tmp/v'' []"


section \<open>Waiting for pods\<close>

text \<open>A namespace in which no pod carries the label counts as ready, at the first poll.\<close>

lemma wait_without_pods: "ListPods ns l w = (Inr [], w') \<Longrightarrow> WaitForPodsToBeReady (Suc n) ListPods ns l w = (None, w')"
  by simp

lemma pods_ready_iff: "pods_ready ps \<longleftrightarrow> list_all (\<lambda>p. lp_Phase p = ''Running'' \<and> list_all id (lp_Ready p)) ps"
  by (induction ps) (auto simp: list_ex_iff list_all_iff)

text \<open>The state after \<open>i\<close> listings.\<close>

primrec after_lists :: "'w list_pods \<Rightarrow> string \<Rightarrow> string \<Rightarrow> nat \<Rightarrow> 'w \<Rightarrow> 'w" where
  "after_lists ListPods ns l 0 w = w"
| "after_lists ListPods ns l (Suc i) w = after_lists ListPods ns l i (snd (ListPods ns l w))"

definition sees_ready :: "'w list_pods \<Rightarrow> string \<Rightarrow> string \<Rightarrow> 'w \<Rightarrow> bool" where
  "sees_ready ListPods ns l w = (case fst (ListPods ns l w) of Inl _ \<Rightarrow> False | Inr ps \<Rightarrow> pods_ready ps)"

text \<open>
  Waiting for pods ends without an error exactly when one of the polls before the timeout lists only
  running pods with ready containers, which includes listing no pod at all.
\<close>

theorem WaitForPodsToBeReady_spec:
  "fst (WaitForPodsToBeReady n ListPods ns l w) = None \<longleftrightarrow> (\<exists>i<n. sees_ready ListPods ns l (after_lists ListPods ns l i w))"
proof (induction n arbitrary: w)
  case (Suc n)
  show ?case
  proof (cases "sees_ready ListPods ns l w")
    case True
    then have "fst (WaitForPodsToBeReady (Suc n) ListPods ns l w) = None"
      by (auto simp: sees_ready_def split: prod.splits sum.splits)
    moreover have "\<exists>i<Suc n. sees_ready ListPods ns l (after_lists ListPods ns l i w)" using True by (intro exI[of _ 0]) simp
    ultimately show ?thesis by blast
  next
    case False
    then have "fst (WaitForPodsToBeReady (Suc n) ListPods ns l w) = fst (WaitForPodsToBeReady n ListPods ns l (snd (ListPods ns l w)))"
      by (auto simp: sees_ready_def split: prod.splits sum.splits)
    moreover have "(\<exists>i<Suc n. sees_ready ListPods ns l (after_lists ListPods ns l i w)) \<longleftrightarrow>
        (\<exists>i<n. sees_ready ListPods ns l (after_lists ListPods ns l i (snd (ListPods ns l w))))"
      using False by (metis Suc_less_eq after_lists.simps(1,2) gr0_conv_Suc not_gr_zero)
    ultimately show ?thesis using Suc.IH by simp
  qed
qed simp

end
