(* ===== verification/Registry.thy ===== *)
theory Registry
  imports ConfigServer
begin

text \<open>
  What the config server is meant to be: a registry that maps a namespace and a name to at most one
  constraint and one action. The handlers over the Dgraph stores refine it: every request with its
  reply is a step of the registry. The type invariant of the database on which this rests says that
  every node has one type.
\<close>

section \<open>The abstract registry\<close>

record registry =
  rg_constraints :: "string \<times> string \<Rightarrow> Constraint option"
  rg_actions :: "string \<times> string \<Rightarrow> Action option"

text \<open>A request with its reply.\<close>

datatype config_call =
    AddConstraintCall AddConstraintRequest "AddConstraintResponse reply"
  | RemoveConstraintCall RemoveConstraintRequest "RemoveConstraintResponse reply"
  | GetConstraintsCall GetConstraintsRequest "GetConstraintsResponse reply"
  | AddActionCall AddActionRequest "AddActionResponse reply"
  | RemoveActionCall RemoveActionRequest "RemoveActionResponse reply"
  | GetActionsCall GetActionsRequest "GetActionsResponse reply"

text \<open>
  An addition that succeeds puts a constraint under a name that was free; one that reports no success
  without an error may have been committed all the same; an error means that nothing was added. A
  removal that succeeds frees a name that was taken; one that fails may have been committed. Reading
  changes nothing.
\<close>

inductive registry_step :: "registry \<Rightarrow> config_call \<Rightarrow> registry \<Rightarrow> bool" where
  add_constraint: "acr_Constraint req = Some c \<Longrightarrow> rg_constraints g (constraint_nsname c) = None \<Longrightarrow>
    registry_step g (AddConstraintCall req (Some \<lparr>acp_Success = ok\<rparr>, None))
      (g\<lparr>rg_constraints := (rg_constraints g)(constraint_nsname c \<mapsto> stored_constraint c)\<rparr>)"
| add_constraint_unsure: "acr_Constraint req = Some c \<Longrightarrow> rg_constraints g (constraint_nsname c) = None \<Longrightarrow>
    registry_step g (AddConstraintCall req (Some \<lparr>acp_Success = False\<rparr>, None)) g"
| add_constraint_refused: "snd reply \<noteq> None \<Longrightarrow> registry_step g (AddConstraintCall req reply) g"
| remove_constraint: "rg_constraints g (rcr_Namespace req, rcr_Name req) \<noteq> None \<Longrightarrow>
    reply = (Some \<lparr>rcp_Success = True\<rparr>, None) \<or> snd reply \<noteq> None \<Longrightarrow>
    registry_step g (RemoveConstraintCall req reply)
      (g\<lparr>rg_constraints := (rg_constraints g)((rcr_Namespace req, rcr_Name req) := None)\<rparr>)"
| remove_constraint_refused: "snd reply \<noteq> None \<Longrightarrow> registry_step g (RemoveConstraintCall req reply) g"
| get_constraints: "snd reply = None \<Longrightarrow> registry_step g (GetConstraintsCall req reply) g"
| add_action: "aar_Action req = Some a \<Longrightarrow> rg_actions g (action_nsname a) = None \<Longrightarrow>
    registry_step g (AddActionCall req (Some \<lparr>aap_Success = ok\<rparr>, None))
      (g\<lparr>rg_actions := (rg_actions g)(action_nsname a \<mapsto> stored_action a)\<rparr>)"
| add_action_unsure: "aar_Action req = Some a \<Longrightarrow> rg_actions g (action_nsname a) = None \<Longrightarrow>
    registry_step g (AddActionCall req (Some \<lparr>aap_Success = False\<rparr>, None)) g"
| add_action_refused: "snd reply \<noteq> None \<Longrightarrow> registry_step g (AddActionCall req reply) g"
| remove_action: "rg_actions g (rar_Namespace req, rar_Name req) \<noteq> None \<Longrightarrow>
    reply = (Some \<lparr>rap_Success = True\<rparr>, None) \<or> snd reply \<noteq> None \<Longrightarrow>
    registry_step g (RemoveActionCall req reply)
      (g\<lparr>rg_actions := (rg_actions g)((rar_Namespace req, rar_Name req) := None)\<rparr>)"
| remove_action_refused: "snd reply \<noteq> None \<Longrightarrow> registry_step g (RemoveActionCall req reply) g"
| get_actions: "snd reply = None \<Longrightarrow> registry_step g (GetActionsCall req reply) g"

text \<open>The server's steps, labelled in the same way.\<close>

inductive server_call :: "'k strset \<Rightarrow> 's ConfigServer \<Rightarrow> 's \<Rightarrow> config_call \<Rightarrow> 's \<Rightarrow> bool" for S cs where
  "AddConstraint cs req s = (r, s') \<Longrightarrow> server_call S cs s (AddConstraintCall req r) s'"
| "RemoveConstraint cs req s = (r, s') \<Longrightarrow> server_call S cs s (RemoveConstraintCall req r) s'"
| "GetConstraints S cs req s = (r, s') \<Longrightarrow> server_call S cs s (GetConstraintsCall req r) s'"
| "AddAction cs req s = (r, s') \<Longrightarrow> server_call S cs s (AddActionCall req r) s'"
| "RemoveAction cs req s = (r, s') \<Longrightarrow> server_call S cs s (RemoveActionCall req r) s'"
| "GetActions S cs req s = (r, s') \<Longrightarrow> server_call S cs s (GetActionsCall req r) s'"

inductive server_calls :: "'k strset \<Rightarrow> 's ConfigServer \<Rightarrow> 's \<Rightarrow> config_call list \<Rightarrow> 's \<Rightarrow> bool" for S cs where
  no_call: "server_calls S cs s [] s"
| one_more: "server_calls S cs s tr s' \<Longrightarrow> server_call S cs s' call s'' \<Longrightarrow> server_calls S cs s (tr @ [call]) s''"

inductive registry_steps :: "registry \<Rightarrow> config_call list \<Rightarrow> registry \<Rightarrow> bool" where
  no_step: "registry_steps g [] g"
| step_more: "registry_steps g tr g' \<Longrightarrow> registry_step g' call g'' \<Longrightarrow> registry_steps g (tr @ [call]) g''"

section \<open>The abstraction\<close>

definition tracks :: "('a \<Rightarrow> string \<times> string) \<Rightarrow> 'a multiset \<Rightarrow> (string \<times> string \<Rightarrow> 'a option) \<Rightarrow> bool" where
  "tracks nsname M m \<longleftrightarrow> (\<forall>k. filter_mset (\<lambda>x. nsname x = k) M = (case m k of None \<Rightarrow> {#} | Some x \<Rightarrow> {#x#}))"

lemma tracks_None: "tracks nsname M m \<Longrightarrow> m k = None \<longleftrightarrow> (\<forall>x\<in>#M. nsname x \<noteq> k)"
proof -
  assume "tracks nsname M m"
  then have "filter_mset (\<lambda>x. nsname x = k) M = (case m k of None \<Rightarrow> {#} | Some x \<Rightarrow> {#x#})" unfolding tracks_def by (rule spec)
  then have "m k = None \<longleftrightarrow> filter_mset (\<lambda>x. nsname x = k) M = {#}" by (simp split: option.splits)
  then show ?thesis by (auto simp: filter_mset_eq_mempty_iff)
qed

lemma tracks_member:
  assumes "tracks nsname M m" and "x \<in># M"
  shows "m (nsname x) = Some x"
proof -
  have "x \<in># filter_mset (\<lambda>y. nsname y = nsname x) M" using assms(2) by simp
  then show ?thesis using assms(1) unfolding tracks_def by (auto split: option.splits)
qed

lemma tracks_add: "tracks nsname M m \<Longrightarrow> m (nsname x) = None \<Longrightarrow> tracks nsname (add_mset x M) (m(nsname x \<mapsto> x))"
  by (auto simp: tracks_def)

lemma tracks_remove: "tracks nsname M m \<Longrightarrow> x \<in># M \<Longrightarrow> tracks nsname (M - {#x#}) (m(nsname x := None))"
  using tracks_member[of nsname M m x] by (auto simp: tracks_def)

lemma tracks_exists:
  assumes "\<forall>k. size (filter_mset (\<lambda>x. nsname x = k) M) \<le> 1"
  shows "\<exists>m. tracks nsname M m"
proof -
  have "\<exists>v. filter_mset (\<lambda>x. nsname x = k) M = (case v of None \<Rightarrow> {#} | Some x \<Rightarrow> {#x#})" for k
  proof (cases "filter_mset (\<lambda>x. nsname x = k) M = {#}")
    case False
    then have "size (filter_mset (\<lambda>x. nsname x = k) M) = 1"
      using assms by (metis le_neq_implies_less less_one size_eq_0_iff_empty)
    then obtain x where "filter_mset (\<lambda>x. nsname x = k) M = {#x#}" using size_1_singleton_mset by blast
    then show ?thesis by (intro exI[of _ "Some x"]) simp
  qed (intro exI[of _ None], simp)
  then show ?thesis unfolding tracks_def by metis
qed

text \<open>The type invariant: no node has two types.\<close>

definition one_type :: "node list \<Rightarrow> bool" where
  "one_type g \<longleftrightarrow> (\<forall>n\<in>set g. \<forall>T T'. has_type T n \<longrightarrow> has_type T' n \<longrightarrow> T = T')"

definition represents :: "node list \<Rightarrow> registry \<Rightarrow> bool" where
  "represents g r \<longleftrightarrow> tracks constraint_nsname (held_constraints g) (rg_constraints r) \<and>
     tracks action_nsname (held_actions g) (rg_actions r)"

text \<open>A database without duplicates represents a registry.\<close>

lemma represents_exists: "no_duplicates g \<Longrightarrow> \<exists>r. represents g r"
  unfolding no_duplicates_def represents_def
  by (metis registry.select_convs tracks_exists)

context dgraph_db
begin

lemma set_one_type:
  assumes "dg_SetJson D (render (JObj ((''uid'', JStr (''_:'' @ x)) # kvs))) s = (r, s')"
    "list_all (\<lambda>(k, v). flat_value v) kvs" "\<And>u T. has_type T (u, kvs) \<longleftrightarrow> T = T0" "one_type (graph s)"
  shows "one_type (graph s')"
  using set_cases[OF assms(1) json_parse_render assms(2)]
proof
  assume "\<exists>u. plain_uid u \<and> u \<notin> fst ` set (graph s) \<and> mset (graph s') = add_mset (u, kvs) (mset (graph s))"
  then obtain u where "mset (graph s') = add_mset (u, kvs) (mset (graph s))" by blast
  then have "set (graph s') = insert (u, kvs) (set (graph s))" by (metis set_mset_add_mset_insert set_mset_mset)
  then show ?thesis using assms(3,4) by (auto simp: one_type_def)
qed (use assms(4) in simp)

lemma deleted_node:
  assumes "dg_DeleteJson D (delete_payload (fst n)) s = (r, s')" "n \<in> set (graph s)" "has_type T0 n" "one_type (graph s)"
  shows "one_type (graph s') \<and> (T \<noteq> T0 \<longrightarrow> held_nodes T F (graph s') = held_nodes T F (graph s))"
  using delete_cases[OF assms(1) delete_payload_parse[OF uids_plain[OF assms(2)]]]
proof
  assume g: "graph s' = filter (\<lambda>m. fst m \<noteq> fst n) (graph s)"
  have "\<not> has_type T n" if "T \<noteq> T0" using that assms(2-4) unfolding one_type_def by blast
  then have "T \<noteq> T0 \<longrightarrow> held_nodes T F (graph s') = held_nodes T F (graph s)"
    unfolding g held_nodes_def filter_uid_mset[OF uids_distinct assms(2)] filter_diff_mset by simp
  then show ?thesis using assms(4) by (auto simp: g one_type_def)
qed (use assms(4) in simp)

lemma constraint_Add_one_type:
  assumes "cs_Add (dgraphConstraintStore D) x s = (r, s')" "one_type (graph s)"
  shows "one_type (graph s')"
proof (rule set_one_type)
  show "dg_SetJson D (render (JObj ((''uid'', JStr (''_:'' @ ''constraint'')) # constraint_members x))) s = (r, s')"
    using assms(1) unfolding dgraphConstraintStore_def constraint_Add_def constraint_payload by simp
qed (use assms(2) constraint_members_flat constraint_members_type in auto)

lemma action_Add_one_type:
  assumes "cs_Add (dgraphActionStore D) x s = (r, s')" "one_type (graph s)"
  shows "one_type (graph s')"
proof (rule set_one_type)
  show "dg_SetJson D (render (JObj ((''uid'', JStr (''_:'' @ ''action'')) # action_members x))) s = (r, s')"
    using assms(1) unfolding dgraphActionStore_def action_Add_def action_payload by simp
qed (use assms(2) action_members_flat action_members_type in auto)

lemma constraint_Remove_one_type:
  assumes "cs_RemoveByNamespaceAndName (dgraphConstraintStore D) ns nm s = (r, s')" "ns \<noteq> []" "nm \<noteq> []" "one_type (graph s)"
  shows "one_type (graph s') \<and> held_actions (graph s') = held_actions (graph s)"
proof -
  obtain uid err s1 where f: "findConstraintUIDByNamespaceAndName D ns nm s = ((uid, err), s1)" by (metis surj_pair)
  have g: "graph s1 = graph s" using constraint_reads_keep(3)[of ns nm s] f by simp
  show ?thesis
  proof (cases "err = None \<and> uid \<noteq> []")
    case True
    then have f': "findConstraintUIDByNamespaceAndName D ns nm s = ((uid, None), s1)" using f by simp
    obtain n where n: "n \<in> set (graph s)" "uid = fst n" "has_type ''Constraint'' n"
      using find_constraint_cases[OF f' assms(2,3)] True by auto
    have "dg_DeleteJson D (delete_payload (fst n)) s1 = (r, s')"
      using assms(1) f' True n(2) by (simp add: dgraphConstraintStore_def constraint_RemoveByNamespaceAndName_def)
    from deleted_node[OF this, of "''Constraint''" "''Action''" action_of] n g assms(4) show ?thesis
      by (simp add: held_actions_def)
  next
    case False
    then have "s' = s1" using assms(1) f
      by (auto simp: dgraphConstraintStore_def constraint_RemoveByNamespaceAndName_def split: option.splits)
    then show ?thesis using g assms(4) by simp
  qed
qed

lemma action_Remove_one_type:
  assumes "cs_RemoveByNamespaceAndName (dgraphActionStore D) ns nm s = (r, s')" "ns \<noteq> []" "nm \<noteq> []" "one_type (graph s)"
  shows "one_type (graph s') \<and> held_constraints (graph s') = held_constraints (graph s)"
proof -
  obtain uid err s1 where f: "findActionUIDByNamespaceAndName D ns nm s = ((uid, err), s1)" by (metis surj_pair)
  have g: "graph s1 = graph s" using action_reads_keep(3)[of ns nm s] f by simp
  show ?thesis
  proof (cases "err = None \<and> uid \<noteq> []")
    case True
    then have f': "findActionUIDByNamespaceAndName D ns nm s = ((uid, None), s1)" using f by simp
    obtain n where n: "n \<in> set (graph s)" "uid = fst n" "has_type ''Action'' n"
      using find_action_cases[OF f' assms(2,3)] True by auto
    have "dg_DeleteJson D (delete_payload (fst n)) s1 = (r, s')"
      using assms(1) f' True n(2) by (simp add: dgraphActionStore_def action_RemoveByNamespaceAndName_def)
    from deleted_node[OF this, of "''Action''" "''Constraint''" constraint_of] n g assms(4) show ?thesis
      by (simp add: held_constraints_def)
  next
    case False
    then have "s' = s1" using assms(1) f
      by (auto simp: dgraphActionStore_def action_RemoveByNamespaceAndName_def split: option.splits)
    then show ?thesis using g assms(4) by simp
  qed
qed

section \<open>The handlers refine the registry\<close>

text \<open>One request: it is matched by a step of the registry, and the type invariant is kept.\<close>

definition simulated :: "registry \<Rightarrow> config_call \<Rightarrow> 's \<Rightarrow> bool" where
  "simulated g call s' \<longleftrightarrow> (\<exists>g'. registry_step g call g' \<and> represents (graph s') g') \<and> one_type (graph s')"

lemma simulated_unchanged:
  "graph s' = graph s \<Longrightarrow> represents (graph s) g \<Longrightarrow> one_type (graph s) \<Longrightarrow> registry_step g call g \<Longrightarrow> simulated g call s'"
  by (auto simp: simulated_def)

lemma AddConstraint_simulated:
  assumes "AddConstraint (dgraph_server D) req s = (r, s')" "represents (graph s) g" "one_type (graph s)"
  shows "simulated g (AddConstraintCall req r) s'"
  using assms(1)
proof (cases rule: AddConstraint_cases)
  case refused
  then have "graph s' = graph s" using constraint_read_keeps(1) by auto
  then show ?thesis using assms(2,3) refused(1) by (intro simulated_unchanged registry_step.add_constraint_refused)
next
  case (tried c s1 e)
  have g1: "graph s1 = graph s" using tried(4) constraint_read_keeps(1) by simp
  have tr: "tracks constraint_nsname (held_constraints (graph s)) (rg_constraints g)"
    "tracks action_nsname (held_actions (graph s)) (rg_actions g)" using assms(2) by (simp_all add: represents_def)
  have "\<forall>x\<in>#held_constraints (graph s). constraint_nsname x \<noteq> constraint_nsname c"
    using constraints.Exist_ok[OF tried(4)[simplified] tried(2,3)] by (auto simp: held_constraints_def constraint_nsname_def)
  then have free: "rg_constraints g (constraint_nsname c) = None" using tracks_None[OF tr(1)] by blast
  have ty: "one_type (graph s')" using constraint_Add_one_type[OF tried(5)[simplified]] assms(3) g1 by simp
  have act: "held_actions (graph s') = held_actions (graph s)"
    using constraintAdd_other_kind[OF tried(5)[simplified]] g1 by (simp add: held_actions_def)
  have name: "constraint_nsname (stored_constraint c) = constraint_nsname c" by (rule constraints.nsname_stored)
  from constraints.Add_cases[OF tried(5)[simplified]] tried(2,3)
  consider "held_constraints (graph s') = add_mset (stored_constraint c) (held_constraints (graph s))"
    | "e \<noteq> None" "held_constraints (graph s') = held_constraints (graph s)"
    by (auto simp: held_constraints_def constraint_nsname_def g1)
  then show ?thesis
  proof cases
    case 1
    then have "represents (graph s') (g\<lparr>rg_constraints := (rg_constraints g)(constraint_nsname c \<mapsto> stored_constraint c)\<rparr>)"
      using tracks_add[OF tr(1), of "stored_constraint c"] free tr(2) act by (simp add: represents_def name)
    then show ?thesis using registry_step.add_constraint[OF tried(1) free] tried(6) ty by (auto simp: simulated_def)
  next
    case 2
    then have "represents (graph s') g" using tr act by (simp add: represents_def)
    then show ?thesis using registry_step.add_constraint_unsure[OF tried(1) free] tried(6) ty 2(1) by (auto simp: simulated_def)
  qed
qed

lemma AddAction_simulated:
  assumes "AddAction (dgraph_server D) req s = (r, s')" "represents (graph s) g" "one_type (graph s)"
  shows "simulated g (AddActionCall req r) s'"
  using assms(1)
proof (cases rule: AddAction_cases)
  case refused
  then have "graph s' = graph s" using action_read_keeps(1) by auto
  then show ?thesis using assms(2,3) refused(1) by (intro simulated_unchanged registry_step.add_action_refused)
next
  case (tried c s1 e)
  have g1: "graph s1 = graph s" using tried(4) action_read_keeps(1) by simp
  have tr: "tracks action_nsname (held_actions (graph s)) (rg_actions g)"
    "tracks constraint_nsname (held_constraints (graph s)) (rg_constraints g)" using assms(2) by (simp_all add: represents_def)
  have "\<forall>x\<in>#held_actions (graph s). action_nsname x \<noteq> action_nsname c"
    using actions.Exist_ok[OF tried(4)[simplified] tried(2,3)] by (auto simp: held_actions_def action_nsname_def)
  then have free: "rg_actions g (action_nsname c) = None" using tracks_None[OF tr(1)] by blast
  have ty: "one_type (graph s')" using action_Add_one_type[OF tried(5)[simplified]] assms(3) g1 by simp
  have con: "held_constraints (graph s') = held_constraints (graph s)"
    using actionAdd_other_kind[OF tried(5)[simplified]] g1 by (simp add: held_constraints_def)
  have name: "action_nsname (stored_action c) = action_nsname c" by (rule actions.nsname_stored)
  from actions.Add_cases[OF tried(5)[simplified]] tried(2,3)
  consider "held_actions (graph s') = add_mset (stored_action c) (held_actions (graph s))"
    | "e \<noteq> None" "held_actions (graph s') = held_actions (graph s)"
    by (auto simp: held_actions_def action_nsname_def g1)
  then show ?thesis
  proof cases
    case 1
    then have "represents (graph s') (g\<lparr>rg_actions := (rg_actions g)(action_nsname c \<mapsto> stored_action c)\<rparr>)"
      using tracks_add[OF tr(1), of "stored_action c"] free tr(2) con by (simp add: represents_def name)
    then show ?thesis using registry_step.add_action[OF tried(1) free] tried(6) ty by (auto simp: simulated_def)
  next
    case 2
    then have "represents (graph s') g" using tr con by (simp add: represents_def)
    then show ?thesis using registry_step.add_action_unsure[OF tried(1) free] tried(6) ty 2(1) by (auto simp: simulated_def)
  qed
qed

lemma RemoveConstraint_simulated:
  assumes "RemoveConstraint (dgraph_server D) req s = (r, s')" "represents (graph s) g" "one_type (graph s)"
  shows "simulated g (RemoveConstraintCall req r) s'"
  using assms(1)
proof (cases rule: RemoveConstraint_cases)
  case refused
  then have "graph s' = graph s" using constraint_read_keeps(1) by auto
  then show ?thesis using assms(2,3) refused(1) by (intro simulated_unchanged registry_step.remove_constraint_refused)
next
  case (tried s1 e)
  have g1: "graph s1 = graph s" using tried(3) constraint_read_keeps(1) by simp
  have tr: "tracks constraint_nsname (held_constraints (graph s)) (rg_constraints g)"
    "tracks action_nsname (held_actions (graph s)) (rg_actions g)" using assms(2) by (simp_all add: represents_def)
  have ex: "\<exists>x\<in>#held_constraints (graph s). constraint_nsname x = (rcr_Namespace req, rcr_Name req)"
    using constraints.Exist_ok[OF tried(3)[simplified] tried(1,2)] by (simp add: held_constraints_def)
  then have taken: "rg_constraints g (rcr_Namespace req, rcr_Name req) \<noteq> None" using tracks_None[OF tr(1)] by blast
  have ty: "one_type (graph s')" "held_actions (graph s') = held_actions (graph s)"
    using constraint_Remove_one_type[OF tried(4)[simplified] tried(1,2)] assms(3) g1 by simp_all
  from constraints.Remove_cases[OF tried(4)[simplified] tried(1,2)] ex
  consider x where "x \<in># held_constraints (graph s)" "constraint_nsname x = (rcr_Namespace req, rcr_Name req)"
      "held_constraints (graph s') = held_constraints (graph s) - {#x#}"
    | "e \<noteq> None" "held_constraints (graph s') = held_constraints (graph s)"
    unfolding g1 held_constraints_def[symmetric] by blast
  then show ?thesis
  proof cases
    case 1
    then have "represents (graph s') (g\<lparr>rg_constraints := (rg_constraints g)((rcr_Namespace req, rcr_Name req) := None)\<rparr>)"
      using tracks_remove[OF tr(1), of x] tr(2) ty(2) by (simp add: represents_def)
    moreover have "r = (Some \<lparr>rcp_Success = True\<rparr>, None) \<or> snd r \<noteq> None" using tried(5,6) by blast
    ultimately show ?thesis using registry_step.remove_constraint[where req = req, OF taken] ty(1) unfolding simulated_def by blast
  next
    case 2
    then have "represents (graph s') g" "snd r \<noteq> None" using tr ty(2) tried(6) by (simp_all add: represents_def)
    then show ?thesis using registry_step.remove_constraint_refused ty(1) unfolding simulated_def by blast
  qed
qed

lemma RemoveAction_simulated:
  assumes "RemoveAction (dgraph_server D) req s = (r, s')" "represents (graph s) g" "one_type (graph s)"
  shows "simulated g (RemoveActionCall req r) s'"
  using assms(1)
proof (cases rule: RemoveAction_cases)
  case refused
  then have "graph s' = graph s" using action_read_keeps(1) by auto
  then show ?thesis using assms(2,3) refused(1) by (intro simulated_unchanged registry_step.remove_action_refused)
next
  case (tried s1 e)
  have g1: "graph s1 = graph s" using tried(3) action_read_keeps(1) by simp
  have tr: "tracks action_nsname (held_actions (graph s)) (rg_actions g)"
    "tracks constraint_nsname (held_constraints (graph s)) (rg_constraints g)" using assms(2) by (simp_all add: represents_def)
  have ex: "\<exists>x\<in>#held_actions (graph s). action_nsname x = (rar_Namespace req, rar_Name req)"
    using actions.Exist_ok[OF tried(3)[simplified] tried(1,2)] by (simp add: held_actions_def)
  then have taken: "rg_actions g (rar_Namespace req, rar_Name req) \<noteq> None" using tracks_None[OF tr(1)] by blast
  have ty: "one_type (graph s')" "held_constraints (graph s') = held_constraints (graph s)"
    using action_Remove_one_type[OF tried(4)[simplified] tried(1,2)] assms(3) g1 by simp_all
  from actions.Remove_cases[OF tried(4)[simplified] tried(1,2)] ex
  consider x where "x \<in># held_actions (graph s)" "action_nsname x = (rar_Namespace req, rar_Name req)"
      "held_actions (graph s') = held_actions (graph s) - {#x#}"
    | "e \<noteq> None" "held_actions (graph s') = held_actions (graph s)"
    unfolding g1 held_actions_def[symmetric] by blast
  then show ?thesis
  proof cases
    case 1
    then have "represents (graph s') (g\<lparr>rg_actions := (rg_actions g)((rar_Namespace req, rar_Name req) := None)\<rparr>)"
      using tracks_remove[OF tr(1), of x] tr(2) ty(2) by (simp add: represents_def)
    moreover have "r = (Some \<lparr>rap_Success = True\<rparr>, None) \<or> snd r \<noteq> None" using tried(5,6) by blast
    ultimately show ?thesis using registry_step.remove_action[where req = req, OF taken] ty(1) unfolding simulated_def by blast
  next
    case 2
    then have "represents (graph s') g" "snd r \<noteq> None" using tr ty(2) tried(6) by (simp_all add: represents_def)
    then show ?thesis using registry_step.remove_action_refused ty(1) unfolding simulated_def by blast
  qed
qed

lemma server_call_simulated:
  assumes "server_call S (dgraph_server D) s call s'" "represents (graph s) g" "one_type (graph s)"
  shows "simulated g call s'"
  using assms(1)
proof (cases rule: server_call.cases)
  case (3 req r)
  then have "graph s' = graph s" "snd r = None"
    using GetConstraints_state[OF 3(2)] constraint_read_keeps(2,3) by (auto simp: GetConstraints_def Let_def split: prod.splits if_splits)
  then show ?thesis using assms(2,3) 3(1) by (auto intro: simulated_unchanged registry_step.get_constraints)
next
  case (6 req r)
  then have "graph s' = graph s" "snd r = None"
    using GetActions_state[OF 6(2)] action_read_keeps(2,3) by (auto simp: GetActions_def Let_def split: prod.splits if_splits)
  then show ?thesis using assms(2,3) 6(1) by (auto intro: simulated_unchanged registry_step.get_actions)
qed (use assms(2,3) AddConstraint_simulated RemoveConstraint_simulated AddAction_simulated RemoveAction_simulated in auto)

lemma server_calls_simulated:
  assumes "server_calls S (dgraph_server D) s tr s'" "represents (graph s) g" "one_type (graph s)"
  shows "\<exists>g'. registry_steps g tr g' \<and> represents (graph s') g' \<and> one_type (graph s')"
  using assms
proof (induction rule: server_calls.induct)
  case (no_call s)
  then show ?case by (blast intro: registry_steps.no_step)
next
  case (one_more s tr s' call s'')
  then obtain g' where g': "registry_steps g tr g'" "represents (graph s') g'" "one_type (graph s')" by blast
  from server_call_simulated[OF one_more(2) g'(2,3)] show ?case
    using registry_steps.step_more[OF g'(1)] unfolding simulated_def by blast
qed

end


definition empty_registry :: registry where
  "empty_registry = \<lparr>rg_constraints = (\<lambda>_. None), rg_actions = (\<lambda>_. None)\<rparr>"

lemma empty_represented: "represents (clean []) empty_registry \<and> one_type (clean [])"
  by (simp add: represents_def tracks_def empty_registry_def held_constraints_def held_actions_def held_nodes_def one_type_def)

lemma sample_calls:
  "server_calls list_strset (dgraph_server mem_dgraph) [] [AddConstraintCall sample_add (Some \<lparr>acp_Success = True\<rparr>, None)] sample_db"
  using one_more[OF no_call server_call.intros(1)[OF sample_add_ok[unfolded sample_server_def]]] by simp




end
