(* ===== verification/DgraphGraph.thy ===== *)
theory DgraphGraph
  imports Dgraph
begin

text \<open>
  The part of the database that events need: nodes that refer to each other, queries that follow
  these edges, mutations that set a whole tree of objects, and upserts. The laws are the locale
  \<open>graph_db\<close>, which extends \<open>dgraph_db\<close>, and a database in memory interprets it.
\<close>

section \<open>Nodes and edges\<close>

definition attr :: "node list \<Rightarrow> string \<Rightarrow> string \<Rightarrow> json option" where
  "attr g u k = (case map_of g u of None \<Rightarrow> None | Some a \<Rightarrow> map_of a k)"

definition typed :: "string \<Rightarrow> node list \<Rightarrow> string \<Rightarrow> bool" where
  "typed t g u = (case attr g u ''dgraph.type'' of Some (JArr ts) \<Rightarrow> JStr t \<in> set ts | _ \<Rightarrow> False)"

definition blank :: "string \<Rightarrow> bool" where
  "blank u = (take 2 u = ''_:'')"

definition edge_to :: "string \<Rightarrow> json" where
  "edge_to u = JObj [(''uid'', JStr u)]"

fun edge :: "json \<Rightarrow> string option" where
  "edge (JObj [(k, JStr u)]) = (if k = ''uid'' then Some u else None)"
| "edge _ = None"

lemma edge_edge_to [simp]: "edge (edge_to u) = Some u"
  by (simp add: edge_to_def)

section \<open>Queries\<close>

text \<open>The object of a nested block, by what is taken of the node an edge leads to.\<close>

definition follow :: "node list \<Rightarrow> (node \<Rightarrow> (string \<times> json) list) \<Rightarrow> json \<Rightarrow> json list" where
  "follow g P r = (case edge r of None \<Rightarrow> [] | Some u \<Rightarrow>
     (case map_of g u of None \<Rightarrow> [] | Some a \<Rightarrow> [JObj (P (u, a))]))"

definition sub_field :: "node list \<Rightarrow> (node \<Rightarrow> (string \<times> json) list) \<Rightarrow> string \<Rightarrow> node \<Rightarrow> (string \<times> json) list" where
  "sub_field g P f n = (case map_of (snd n) f of
     None \<Rightarrow> []
   | Some (JArr rs) \<Rightarrow> [(f, JArr (concat (map (follow g P) rs)))]
   | Some r \<Rightarrow> map (Pair f) (follow g P r))"

fun gfield :: "node list \<Rightarrow> dql_field \<Rightarrow> node \<Rightarrow> (string \<times> json) list" where
  "gfield g (Fld f) n = project_field n (Fld f)"
| "gfield g (Sub f fs) n = sub_field g (\<lambda>m. concat (map (\<lambda>x. gfield g x m) fs)) f n"

definition gproject :: "node list \<Rightarrow> dql_field list \<Rightarrow> node \<Rightarrow> (string \<times> json) list" where
  "gproject g fs n = concat (map (\<lambda>x. gfield g x n) fs)"

definition graph_answer :: "dql \<Rightarrow> node list \<Rightarrow> json" where
  "graph_answer q g = JObj [(q_block q, JArr (map (\<lambda>n. JObj (gproject g (q_fields q) n)) (matching q g)))]"

lemma gproject_flat: "list_all (\<lambda>f. case f of Fld _ \<Rightarrow> True | Sub _ _ \<Rightarrow> False) fs \<Longrightarrow> gproject g fs n = project fs n"
  by (induction fs) (auto simp: gproject_def project_def split: dql_field.splits)

lemma graph_answer_flat: "flat_query q \<Longrightarrow> graph_answer q g = query_answer q g"
  by (simp add: graph_answer_def query_answer_def flat_query_def gproject_flat)

section \<open>Mutations\<close>

text \<open>
  The nodes of a JSON object, one for each object in it: an object inside of another becomes an edge
  to its node. The function gives the uid that the database uses for the one that is written.
\<close>

definition uid_of :: "(string \<times> json) list \<Rightarrow> string" where
  "uid_of kvs = (case map_of kvs ''uid'' of Some (JStr u) \<Rightarrow> u | _ \<Rightarrow> [])"

fun link :: "(string \<Rightarrow> string) \<Rightarrow> json \<Rightarrow> json" where
  "link \<sigma> (JObj kvs) = edge_to (\<sigma> (uid_of kvs))"
| "link \<sigma> (JArr xs) = JArr (map (link \<sigma>) xs)"
| "link \<sigma> j = j"

fun nodes_of :: "(string \<Rightarrow> string) \<Rightarrow> json \<Rightarrow> node list" where
  "nodes_of \<sigma> (JObj kvs) =
     (\<sigma> (uid_of kvs), map (\<lambda>(k, v). (k, link \<sigma> v)) (filter (\<lambda>(k, v). k \<noteq> ''uid'') kvs)) #
     concat (map (\<lambda>(k, v). nodes_of \<sigma> v) kvs)"
| "nodes_of \<sigma> (JArr xs) = concat (map (nodes_of \<sigma>) xs)"
| "nodes_of \<sigma> j = []"

definition uids :: "json \<Rightarrow> string list" where
  "uids j = map fst (nodes_of (\<lambda>u. u) j)"

text \<open>Objects with the same uid say the same.\<close>

definition coherent :: "json \<Rightarrow> bool" where
  "coherent j = list_all (\<lambda>m. list_all (\<lambda>n. fst m = fst n \<longrightarrow> snd m = snd n) (nodes_of (\<lambda>u. u) j)) (nodes_of (\<lambda>u. u) j)"

text \<open>The database keeps the members of a list as a set and may give them back in another order.\<close>

fun reorder :: "(json list \<Rightarrow> json list) \<Rightarrow> json \<Rightarrow> json" where
  "reorder f (JArr xs) = JArr (f (map (reorder f) xs))"
| "reorder f (JObj kvs) = JObj (map (\<lambda>(k, v). (k, reorder f v)) kvs)"
| "reorder f j = j"

text \<open>Setting an attribute replaces its value, but adds to a list.\<close>

fun join :: "json option \<Rightarrow> json \<Rightarrow> json" where
  "join (Some (JArr ys)) (JArr xs) = JArr (ys @ filter (\<lambda>x. x \<notin> set ys) xs)"
| "join _ v = v"

definition merge_attrs :: "(string \<times> json) list \<Rightarrow> (string \<times> json) list \<Rightarrow> (string \<times> json) list" where
  "merge_attrs old new = map (\<lambda>(k, v). (k, join (map_of old k) v)) new @ filter (\<lambda>(k, v). k \<notin> fst ` set new) old"

definition set_node :: "node \<Rightarrow> node list \<Rightarrow> node list" where
  "set_node n g =
     (if fst n \<in> fst ` set g then map (\<lambda>m. if fst m = fst n then (fst m, merge_attrs (snd m) (snd n)) else m) g
      else n # g)"

definition set_nodes :: "node list \<Rightarrow> node list \<Rightarrow> node list" where
  "set_nodes ns g = fold set_node ns g"

text \<open>The uids that blank nodes get: new ones, different for different names.\<close>

definition assigns :: "(string \<Rightarrow> string) \<Rightarrow> string list \<Rightarrow> node list \<Rightarrow> bool" where
  "assigns \<sigma> us g \<longleftrightarrow> inj_on \<sigma> (set us) \<and>
     (\<forall>u\<in>set us. if blank u then \<sigma> u \<notin> fst ` set g else \<sigma> u = u)"

text \<open>
  The effect of an upsert: the nodes that the query found are changed, and without any a new one is
  made, whose uid the response tells.
\<close>

definition found :: "upsert \<Rightarrow> node list \<Rightarrow> node list" where
  "found up g = filter (filter_holds (FEq (u_pred up) (u_value up))) g"

definition upserted :: "upsert \<Rightarrow> (string \<times> json) list \<Rightarrow> node list \<Rightarrow> node list \<Rightarrow> string option \<Rightarrow> bool" where
  "upserted up kvs g g' new =
     (if found up g = [] then (\<exists>u. new = Some u \<and> u \<noteq> [] \<and> u \<notin> fst ` set g \<and> attr g' = attr (set_node (u, kvs) g))
      else new = None \<and> attr g' = attr (set_nodes (map (\<lambda>n. (fst n, kvs)) (found up g)) g))"

section \<open>Laws of the graph\<close>

locale graph_db = dgraph_db D graph for D :: "'s dgraph" and graph :: "'s \<Rightarrow> node list" +
  assumes graph_query: "dg_Query D q s = (Inr txt, s') \<Longrightarrow> json_parse txt = Some (graph_answer q (graph s))"
    and uids_not_blank: "n \<in> set (graph s) \<Longrightarrow> \<not> blank (fst n)"
    and set_graph: "dg_SetJson D txt s = (r, s') \<Longrightarrow> json_parse txt = Some j \<Longrightarrow> coherent j \<Longrightarrow>
        (\<And>u. u \<in> set (uids j) \<Longrightarrow> blank u \<or> u \<in> fst ` set (graph s)) \<Longrightarrow>
        r \<noteq> None \<and> graph s' = graph s \<or>
        (\<exists>\<sigma> f. (\<forall>xs. mset (f xs) = mset xs) \<and> assigns \<sigma> (uids j) (graph s) \<and>
           attr (graph s') = attr (set_nodes (nodes_of \<sigma> (reorder f j)) (graph s)))"
    and do_graph: "dg_Do D up s = ((resp, err), s') \<Longrightarrow>
        json_parse (u_SetJson up) = Some (JObj ((''uid'', JStr var) # kvs)) \<Longrightarrow>
        list_all (\<lambda>(k, v). flat_value v) kvs \<Longrightarrow>
        err \<noteq> None \<and> resp = None \<and> (graph s' = graph s \<or> (\<exists>new. upserted up kvs (graph s) (graph s') new)) \<or>
        err = None \<and> (\<exists>r. resp = Some r \<and> upserted up kvs (graph s) (graph s') (map_get (r_Uids r) var) \<and>
          (u_returns up \<longrightarrow> json_parse (r_Json r) = Some (JObj [(''pod'', JArr (map (edge_to \<circ> fst) (found up (graph s))))])))"

section \<open>Reading nodes\<close>

lemma attr_node: "distinct (map fst g) \<Longrightarrow> n \<in> set g \<Longrightarrow> attr g (fst n) k = map_of (snd n) k"
  by (simp add: attr_def map_of_is_SomeI[of g "fst n" "snd n"])

lemma attr_SomeD: "attr g u k = Some v \<Longrightarrow> u \<in> fst ` set g"
  by (auto simp: attr_def dest: map_of_SomeD split: option.splits intro!: image_eqI[rotated])

lemma attr_new: "u \<notin> fst ` set g \<Longrightarrow> attr g u k = None"
  using attr_SomeD by (cases "attr g u k") fastforce+

lemma typed_node: "distinct (map fst g) \<Longrightarrow> n \<in> set g \<Longrightarrow> typed t g (fst n) = has_type t n"
  by (simp add: typed_def has_type_def attr_node)

lemma map_of_merge:
  "map_of (merge_attrs old new) k =
     (case map_of new k of None \<Rightarrow> map_of old k | Some v \<Rightarrow> Some (join (map_of old k) v))"
proof -
  have new: "map_of (map (\<lambda>(k, v). (k, join (map_of old k) v)) new) k = map_option (join (map_of old k)) (map_of new k)"
    by (induction new) auto
  have "map_of (filter (\<lambda>(k, v). P k) old) k = (if P k then map_of old k else None)" for P
    by (induction old) auto
  note old = this[of "\<lambda>k. k \<notin> fst ` set new"]
  show ?thesis unfolding merge_attrs_def map_of_append map_add_def new old
    using map_of_eq_None_iff[of new k] by (auto split: option.splits)
qed

lemma map_of_update_node:
  "map_of (map (\<lambda>m. if fst m = w then (fst m, F (snd m)) else m) g) u =
     (if u = w then map_option F (map_of g u) else map_of g u)"
  by (induction g) auto

lemma attr_set_node:
  "attr (set_node n g) u k =
     (if u = fst n then (case map_of (snd n) k of None \<Rightarrow> attr g u k | Some v \<Rightarrow> Some (join (attr g u k) v))
      else attr g u k)"
proof (cases "fst n \<in> fst ` set g")
  case True
  then obtain a where a: "map_of g (fst n) = Some a" using map_of_eq_None_iff[of g "fst n"] by fastforce
  show ?thesis using True a map_of_update_node[of "fst n" "\<lambda>x. merge_attrs x (snd n)" g u]
    by (auto simp: set_node_def attr_def map_of_merge split: option.splits)
next
  case False
  then have "map_of g (fst n) = None" by (simp add: map_of_eq_None_iff)
  with False show ?thesis by (cases n) (auto simp: set_node_def attr_def split: option.splits)
qed

lemma keys_set_node: "fst ` set (set_node n g) = insert (fst n) (fst ` set g)"
proof -
  have "fst ` set (map (\<lambda>m. if fst m = w then (fst m, F m) else m) g) = fst ` set g" for w and F :: "node \<Rightarrow> (string \<times> json) list"
    by (induction g) auto
  then show ?thesis by (auto simp: set_node_def)
qed

lemma attr_set_nodes_other: "u \<notin> fst ` set ns \<Longrightarrow> attr (set_nodes ns g) u = attr g u"
  unfolding set_nodes_def by (induction ns arbitrary: g) (auto simp: attr_set_node fun_eq_iff)

text \<open>Several objects with the same members, written to the nodes of a set.\<close>

definition written :: "string set \<Rightarrow> (string \<times> json) list \<Rightarrow> node list \<Rightarrow> string \<Rightarrow> string \<Rightarrow> json option" where
  "written us kvs g u k = (case map_of kvs k of
     Some v \<Rightarrow> if u \<in> us then Some (join (attr g u k) v) else attr g u k
   | None \<Rightarrow> attr g u k)"

lemma join_join [simp]: "join (Some (join x v)) v = join x v"
proof (cases v)
  case (JArr xs)
  then show ?thesis by (cases x; cases "the x") auto
qed auto

text \<open>Nodes that are set more than once, to the same, are as if set once.\<close>

lemma attr_set_nodes:
  assumes "\<And>n. n \<in> set ns \<Longrightarrow> fst n = u \<Longrightarrow> snd n = a" "u \<in> fst ` set ns"
  shows "attr (set_nodes ns g) u k = (case map_of a k of None \<Rightarrow> attr g u k | Some v \<Rightarrow> Some (join (attr g u k) v))"
  using assms
proof (induction ns arbitrary: g)
  case (Cons n ns)
  have step: "attr (set_nodes (n # ns) g) u k = attr (set_nodes ns (set_node n g)) u k" by (simp add: set_nodes_def)
  show ?case
  proof (cases "u \<in> fst ` set ns")
    case True
    then have "attr (set_nodes ns (set_node n g)) u k =
        (case map_of a k of None \<Rightarrow> attr (set_node n g) u k | Some v \<Rightarrow> Some (join (attr (set_node n g) u k) v))"
      using Cons.prems by (intro Cons.IH) auto
    moreover have "fst n = u \<Longrightarrow> snd n = a" using Cons.prems(1)[of n] by simp
    ultimately show ?thesis unfolding step by (auto simp: attr_set_node split: option.splits)
  next
    case False
    then have "fst n = u" "snd n = a" using Cons.prems(2) Cons.prems(1)[of n] by auto
    then show ?thesis unfolding step using attr_set_nodes_other[OF False, of "set_node n g"] by (simp add: attr_set_node)
  qed
qed simp

lemma attr_set_same: "attr (set_nodes (map (\<lambda>w. (w, kvs)) ws) g) = written (set ws) kvs g"
proof (intro ext)
  fix u k
  show "attr (set_nodes (map (\<lambda>w. (w, kvs)) ws) g) u k = written (set ws) kvs g u k"
  proof (cases "u \<in> set ws")
    case True
    then have "attr (set_nodes (map (\<lambda>w. (w, kvs)) ws) g) u k =
        (case map_of kvs k of None \<Rightarrow> attr g u k | Some v \<Rightarrow> Some (join (attr g u k) v))"
      by (intro attr_set_nodes) (auto simp: image_image)
    with True show ?thesis by (simp add: written_def split: option.splits)
  next
    case False
    then have "u \<notin> fst ` set (map (\<lambda>w. (w, kvs)) ws)" by auto
    from attr_set_nodes_other[OF this] False show ?thesis by (simp add: written_def split: option.splits)
  qed
qed

text \<open>
  What an upsert does, in terms of the nodes it writes to: of the nodes that exist these are the ones
  that have the value, and there is at least one.
\<close>

lemma upserted_written:
  assumes "upserted up kvs g h new" "distinct (map fst g)"
  obtains us where "attr h = written us kvs g"
    "\<And>u. u \<in> fst ` set g \<Longrightarrow> u \<in> us \<longleftrightarrow> attr g u (u_pred up) = Some (JStr (u_value up))"
    "new = None \<Longrightarrow> found up g \<noteq> [] \<and> us = fst ` set (found up g)"
    "\<And>u. new = Some u \<Longrightarrow> found up g = [] \<and> us = {u} \<and> u \<noteq> [] \<and> u \<notin> fst ` set g"
proof (cases "found up g = []")
  case True
  then obtain u where u: "new = Some u" "u \<noteq> []" "u \<notin> fst ` set g" "attr h = attr (set_node (u, kvs) g)"
    using assms(1) by (auto simp: upserted_def)
  have "attr h = written {u} kvs g" using u(4) attr_set_same[of kvs "[u]" g] by (simp add: set_nodes_def)
  moreover have mem: "w \<in> {u} \<longleftrightarrow> attr g w (u_pred up) = Some (JStr (u_value up))" if "w \<in> fst ` set g" for w
    using True that u(3) attr_node[OF assms(2)] by (auto simp: found_def filter_empty_conv)
  moreover have "w = u" if "new = Some w" for w using that u(1) by simp
  ultimately show thesis
    by (intro that[of "{u}"]) (use True u in \<open>(fact mem | blast | simp)+\<close>)
next
  case False
  then have h: "new = None" "attr h = attr (set_nodes (map (\<lambda>n. (fst n, kvs)) (found up g)) g)"
    using assms(1) by (auto simp: upserted_def)
  have "attr h = written (fst ` set (found up g)) kvs g"
    using h(2) attr_set_same[of kvs "map fst (found up g)" g] by (simp add: comp_def)
  moreover have mem: "w \<in> fst ` set (found up g) \<longleftrightarrow> attr g w (u_pred up) = Some (JStr (u_value up))" if "w \<in> fst ` set g" for w
  proof -
    obtain a where a: "(w, a) \<in> set g" using \<open>w \<in> fst ` set g\<close> by auto
    have "b = a" if "(w, b) \<in> set (found up g)" for b
      using eq_key_imp_eq_value[OF assms(2) a, of b] that by (simp add: found_def)
    then have "w \<in> fst ` set (found up g) \<longleftrightarrow> (w, a) \<in> set (found up g)"
      by (metis (no_types, lifting) fst_conv image_iff prod.collapse)
    then show ?thesis using a attr_node[OF assms(2) a] by (simp add: found_def)
  qed
  ultimately show thesis
    by (intro that[of "fst ` set (found up g)"]) (use False h(1) in \<open>(fact mem | simp)+\<close>)
qed

text \<open>A field of an answer comes from the one field of the query with this name.\<close>

fun field_name :: "dql_field \<Rightarrow> string" where
  "field_name (Fld f) = f"
| "field_name (Sub f fs) = f"

lemma gfield_keys: "fst ` set (gfield g x n) \<subseteq> {field_name x}"
proof (cases x)
  case (Sub f fs)
  have "fst ` set (sub_field g P f n) \<subseteq> {f}" for P
    by (cases "map_of (snd n) f"; cases "the (map_of (snd n) f)") (auto simp: sub_field_def)
  with Sub show ?thesis by simp
qed (auto split: option.splits)

lemma member_gproject:
  assumes "x \<in> set fs" "\<And>y. y \<in> set fs \<Longrightarrow> field_name y = field_name x \<Longrightarrow> y = x"
  shows "member (gproject g fs n) (field_name x) = member (gfield g x n) (field_name x)"
proof -
  have "member (gproject g fs n) (field_name x) =
      (if x \<in> set fs then member (gfield g x n) (field_name x) else JNull)"
    using assms(2)
  proof (induction fs)
    case (Cons y fs)
    let ?f = "field_name x"
    have eq: "member (gproject g (y # fs) n) ?f =
        (if ?f \<in> fst ` set (gproject g fs n) then member (gproject g fs n) ?f else member (gfield g y n) ?f)"
      by (simp add: gproject_def member_append)
    have IH: "member (gproject g fs n) ?f = (if x \<in> set fs then member (gfield g x n) ?f else JNull)"
      using Cons by simp
    have none: "x \<notin> set fs \<Longrightarrow> ?f \<notin> fst ` set (gproject g fs n)"
      using Cons.prems gfield_keys[of g _ n] by (fastforce simp: gproject_def)
    have other: "y \<noteq> x \<Longrightarrow> member (gfield g y n) ?f = JNull"
      using Cons.prems[of y] gfield_keys[of g y n] by (intro member_absent) auto
    have absent: "?f \<notin> fst ` set (gproject g fs n) \<Longrightarrow> member (gproject g fs n) ?f = JNull"
      by (rule member_absent)
    show ?case using eq IH none other absent by (cases "y = x"; cases "x \<in> set fs") auto
  qed (simp add: gproject_def member_def)
  with assms(1) show ?thesis by simp
qed

lemma member_gproject_fld:
  assumes "Fld f \<in> set fs" "\<And>y. y \<in> set fs \<Longrightarrow> field_name y = f \<Longrightarrow> y = Fld f" "f \<noteq> ''uid''" "map_of g u = Some a"
  shows "member (gproject g fs (u, a)) f = (case attr g u f of None \<Rightarrow> JNull | Some v \<Rightarrow> v)"
proof -
  have "member (gproject g fs (u, a)) f = member (gfield g (Fld f) (u, a)) f"
    by (rule member_gproject[of "Fld f", unfolded field_name.simps]) (fact assms)+
  then show ?thesis using assms(3,4) by (simp add: field_value_def attr_def member_def split: option.splits)
qed

lemma member_gproject_uid:
  assumes "Fld ''uid'' \<in> set fs" "\<And>y. y \<in> set fs \<Longrightarrow> field_name y = ''uid'' \<Longrightarrow> y = Fld ''uid''"
  shows "member (gproject g fs (u, a)) ''uid'' = JStr u"
proof -
  have "member (gproject g fs (u, a)) ''uid'' = member (gfield g (Fld ''uid'') (u, a)) ''uid''"
    by (rule member_gproject[of "Fld ''uid''", unfolded field_name.simps]) (fact assms)+
  then show ?thesis by (simp add: field_value_def member_def)
qed

lemma member_gproject_sub:
  assumes "Sub f sub \<in> set fs" "\<And>y. y \<in> set fs \<Longrightarrow> field_name y = f \<Longrightarrow> y = Sub f sub"
  shows "member (gproject g fs (u, a)) f = member (sub_field g (gproject g sub) f (u, a)) f"
proof -
  have "member (gproject g fs (u, a)) f = member (gfield g (Sub f sub) (u, a)) f"
    by (rule member_gproject[of "Sub f sub", unfolded field_name.simps]) (fact assms)+
  then show ?thesis by (simp add: gproject_def[abs_def])
qed

end
