(* ===== verification/EventGraph.thy ===== *)
theory EventGraph
  imports DgraphGraph DgraphEventStore
begin

text \<open>
  Events in the graph. The event that a node and the nodes behind its edges stand for
  (\<open>graph_event\<close>), the invariant of the graph (\<open>sound_graph\<close>), what reading a node gives, and how the
  mutations that \<^verbatim>\<open>dgraph_event_store.go\<close> sends change the events.
\<close>

section \<open>The events of a graph\<close>

definition astr :: "node list \<Rightarrow> string \<Rightarrow> string \<Rightarrow> string" where
  "astr g u k = (case attr g u k of Some (JStr s) \<Rightarrow> s | _ \<Rightarrow> [])"

definition atime :: "time_codec \<Rightarrow> node list \<Rightarrow> string \<Rightarrow> string \<Rightarrow> Timestamp option" where
  "atime T g u k = (case attr g u k of Some (JStr s) \<Rightarrow> tc_parse T s | _ \<Rightarrow> None)"

definition atypes :: "node list \<Rightarrow> string \<Rightarrow> string list" where
  "atypes g u = (case attr g u ''dgraph.type'' of Some j \<Rightarrow> (case read_types j of Some ts \<Rightarrow> ts | None \<Rightarrow> []) | None \<Rightarrow> [])"

definition links :: "node list \<Rightarrow> string \<Rightarrow> string list" where
  "links g u = (case attr g u ''targets'' of Some (JArr rs) \<Rightarrow> List.map_filter edge rs | _ \<Rightarrow> [])"

definition node_pod :: "node list \<Rightarrow> string \<Rightarrow> pod_node" where
  "node_pod g v = \<lparr>dp_UID = v, dp_DType = [], dp_Namespace = astr g v ''pod_namespace'', dp_Name = astr g v ''pod_name'',
     dp_PodUID = astr g v ''pod_uid'', dp_Labels = astr g v ''pod_labels''\<rparr>"

definition node_target :: "node list \<Rightarrow> string \<Rightarrow> target_node" where
  "node_target g t = \<lparr>dt_UID = t, dt_DType = [], dt_ViolatedProcesses = astr g t ''target_violated_processes'',
     dt_ViolatedFiles = astr g t ''target_violated_files'', dt_FalcoAlert = astr g t ''target_falco_alert'',
     dt_Pod = map_option (node_pod g) (Option.bind (attr g t ''pod'') edge),
     dt_DetectionDataType = [], dt_DetectionData = []\<rparr>"

definition node_event :: "time_codec \<Rightarrow> node list \<Rightarrow> string \<Rightarrow> event_node" where
  "node_event T g u = \<lparr>dev_UID = u, dev_DType = atypes g u, dev_Type = astr g u ''event_type'',
     dev_EventUID = astr g u ''event_uid'', dev_ClientTimestamp = atime T g u ''event_client_timestamp'',
     dev_ServerTimestamp = atime T g u ''event_server_timestamp'', dev_AlertSentAt = atime T g u ''event_alert_sent_at'',
     dev_Targets = map (node_target g) (links g u)\<rparr>"

definition graph_event :: "time_codec \<Rightarrow> node list \<Rightarrow> string \<Rightarrow> Event" where
  "graph_event T g u = toPbEvent (node_event T g u)"

definition events :: "time_codec \<Rightarrow> node list \<Rightarrow> Event multiset" where
  "events T g = image_mset (graph_event T g) (mset (map fst (filter (has_type ''Event'') g)))"

text \<open>
  The invariant: no pod has the empty text as its uid, edges lead to nodes, and the times of a node
  are texts that can be read.
\<close>

definition sound_graph :: "time_codec \<Rightarrow> node list \<Rightarrow> bool" where
  "sound_graph T g \<longleftrightarrow>
     (\<forall>u. attr g u ''pod_uid'' \<noteq> Some (JStr [])) \<and>
     (\<forall>u r. attr g u ''pod'' = Some r \<longrightarrow> (\<exists>v. r = edge_to v \<and> attr g v ''dgraph.type'' \<noteq> None)) \<and>
     (\<forall>u r. attr g u ''targets'' = Some r \<longrightarrow>
        (\<exists>vs. r = JArr (map edge_to vs) \<and> (\<forall>v\<in>set vs. attr g v ''dgraph.type'' \<noteq> None))) \<and>
     (\<forall>u. \<forall>k\<in>{''event_client_timestamp'', ''event_server_timestamp'', ''event_alert_sent_at''}. \<forall>r.
        attr g u k = Some r \<longrightarrow> (\<exists>s t. r = JStr s \<and> tc_parse T s = Some t))"

lemma sound_graphD:
  assumes "sound_graph T g"
  shows "attr g u ''pod_uid'' \<noteq> Some (JStr [])"
    "attr g u ''pod'' = Some r \<Longrightarrow> \<exists>v. r = edge_to v \<and> attr g v ''dgraph.type'' \<noteq> None"
    "attr g u ''targets'' = Some r \<Longrightarrow> \<exists>vs. r = JArr (map edge_to vs) \<and> (\<forall>v\<in>set vs. attr g v ''dgraph.type'' \<noteq> None)"
    "k \<in> {''event_client_timestamp'', ''event_server_timestamp'', ''event_alert_sent_at''} \<Longrightarrow>
       attr g u k = Some r \<Longrightarrow> \<exists>s t. r = JStr s \<and> tc_parse T s = Some t"
  using assms unfolding sound_graph_def by blast+

lemma map_filter_edge [simp]: "List.map_filter edge (map edge_to vs) = vs"
  by (induction vs) (simp_all add: List.map_filter_simps)

text \<open>Whether a graph is sound, and what its events are, is up to the attributes of its nodes.\<close>

lemma sound_graph_cong: "attr g = attr h \<Longrightarrow> sound_graph T g = sound_graph T h"
  by (simp add: sound_graph_def)

lemma node_target_cong:
  assumes "\<And>k. attr h t k = attr g t k" "\<And>v. Option.bind (attr g t ''pod'') edge = Some v \<Longrightarrow> node_pod h v = node_pod g v"
  shows "node_target h t = node_target g t"
  using assms(2) by (cases "Option.bind (attr g t ''pod'') edge") (simp_all add: node_target_def astr_def assms(1))

lemma node_event_cong: "attr h = attr g \<Longrightarrow> node_event T h = node_event T g"
  by (simp add: node_event_def[abs_def] node_target_def[abs_def] node_pod_def[abs_def] astr_def atime_def atypes_def links_def)

lemma events_set:
  assumes "distinct (map fst g)"
  shows "events T g = image_mset (graph_event T g) (mset_set {u. typed ''Event'' g u})"
proof -
  have "u \<in> fst ` set (filter (has_type ''Event'') g) \<longleftrightarrow> typed ''Event'' g u" for u
  proof
    assume "typed ''Event'' g u"
    then have "u \<in> fst ` set g" by (auto simp: typed_def split: option.splits dest: attr_SomeD)
    then obtain n where "n \<in> set g" "u = fst n" by auto
    with \<open>typed ''Event'' g u\<close> show "u \<in> fst ` set (filter (has_type ''Event'') g)"
      using typed_node[OF assms] by auto
  qed (use typed_node[OF assms] in auto)
  then have "{u. typed ''Event'' g u} = set (map fst (filter (has_type ''Event'') g))" by auto
  moreover have "distinct (map fst (filter (has_type ''Event'') g))"
    using assms by (simp add: distinct_map_filter)
  ultimately show ?thesis by (simp only: events_def mset_set_set)
qed

lemma events_cong:
  assumes "distinct (map fst g)" "distinct (map fst h)" "attr h = attr g"
  shows "events T h = events T g"
  by (simp add: events_set assms(1,2) graph_event_def[abs_def] node_event_cong[OF assms(3)])
    (simp add: typed_def assms(3))

section \<open>Reading a node\<close>

lemma gproject_absent: "k \<notin> field_name ` set fs \<Longrightarrow> member (gproject g fs n) k = JNull"
  using gfield_keys[of g _ n] by (intro member_absent) (fastforce simp: gproject_def)

lemma attr_typed:
  assumes "\<And>n. n \<in> set g \<Longrightarrow> node_typed (snd n)" "attr g u k = Some v" "map_of schema k = Some ''string''"
  shows "v = JStr (astr g u k)"
proof -
  obtain a where a: "map_of g u = Some a" "map_of a k = Some v"
    using assms(2) by (auto simp: attr_def split: option.splits)
  have "scalar_ok ''string'' v"
    using typed_value[of "(u, a)" k v] assms(1)[OF map_of_SomeD[OF a(1)]] a(2) assms(3) by simp
  then show ?thesis using assms(2) by (cases v) (auto simp: astr_def)
qed

definition string_graph :: "node list \<Rightarrow> bool" where
  "string_graph g \<longleftrightarrow> (\<forall>n\<in>set g. node_typed (snd n))"

lemma read_str_gproject:
  assumes "string_graph g" "map_of g u = Some a" "map_of schema k = Some ''string''" "Fld k \<in> set fs"
    "\<And>y. y \<in> set fs \<Longrightarrow> field_name y = k \<Longrightarrow> y = Fld k"
  shows "read_str (member (gproject g fs (u, a)) k) = Some (astr g u k)"
proof -
  have k: "k \<noteq> ''uid''" using assms(3) by (auto simp: schema_def)
  have eq: "member (gproject g fs (u, a)) k = (case attr g u k of None \<Rightarrow> JNull | Some v \<Rightarrow> v)"
    by (rule member_gproject_fld[OF assms(4) _ k assms(2)]) (fact assms(5))
  show ?thesis
  proof (cases "attr g u k")
    case (Some v)
    moreover have "v = JStr (astr g u k)"
      using attr_typed[of g u k v] assms(1,3) Some by (simp add: string_graph_def)
    ultimately show ?thesis using eq by simp
  qed (simp add: eq astr_def)
qed

lemma read_time_gproject:
  assumes "sound_graph T g" "map_of g u = Some a" "Fld k \<in> set fs"
    "\<And>y. y \<in> set fs \<Longrightarrow> field_name y = k \<Longrightarrow> y = Fld k"
    "k \<in> {''event_client_timestamp'', ''event_server_timestamp'', ''event_alert_sent_at''}"
  shows "read_time T (member (gproject g fs (u, a)) k) = Some (atime T g u k)"
proof -
  have k: "k \<noteq> ''uid''" using assms(5) by auto
  have eq: "member (gproject g fs (u, a)) k = (case attr g u k of None \<Rightarrow> JNull | Some v \<Rightarrow> v)"
    by (rule member_gproject_fld[OF assms(3) _ k assms(2)]) (fact assms(4))
  show ?thesis
  proof (cases "attr g u k")
    case (Some v)
    then show ?thesis using sound_graphD(4)[OF assms(1,5) Some] eq by (auto simp: atime_def)
  qed (simp add: eq atime_def)
qed

lemma read_uid_gproject:
  assumes "Fld ''uid'' \<in> set fs" "\<And>y. y \<in> set fs \<Longrightarrow> field_name y = ''uid'' \<Longrightarrow> y = Fld ''uid''"
  shows "read_str (member (gproject g fs (u, a)) ''uid'') = Some u"
proof -
  have "member (gproject g fs (u, a)) ''uid'' = JStr u"
    by (rule member_gproject_uid[OF assms(1)]) (fact assms(2))
  then show ?thesis by simp
qed

definition podFields :: "dql_field list" where
  "podFields = [Fld ''uid'', Fld ''pod_uid'', Fld ''pod_namespace'', Fld ''pod_name'', Fld ''pod_labels'']"

definition targetFields :: "dql_field list" where
  "targetFields = [Fld ''uid'', Fld ''target_violated_processes'', Fld ''target_violated_files'',
     Fld ''target_falco_alert'', Sub ''pod'' podFields, Fld ''target_detection_data_type'', Fld ''target_detection_data'']"

lemma eventFields_alt:
  "eventFields = [Fld ''uid'', Fld ''dgraph.type'', Fld ''event_type'', Fld ''event_uid'',
     Fld ''event_client_timestamp'', Fld ''event_server_timestamp'', Fld ''event_alert_sent_at'',
     Sub ''targets'' targetFields]"
  by (simp add: eventFields_def targetFields_def podFields_def)

lemma unmarshal_pod:
  assumes "string_graph g" "map_of g v = Some a"
  shows "unmarshal_pod_node (JObj (gproject g podFields (v, a))) = Some (node_pod g v)"
proof -
  note s = read_str_gproject[OF assms]
  have "read_str (member (gproject g podFields (v, a)) ''pod_namespace'') = Some (astr g v ''pod_namespace'')"
    "read_str (member (gproject g podFields (v, a)) ''pod_name'') = Some (astr g v ''pod_name'')"
    "read_str (member (gproject g podFields (v, a)) ''pod_uid'') = Some (astr g v ''pod_uid'')"
    "read_str (member (gproject g podFields (v, a)) ''pod_labels'') = Some (astr g v ''pod_labels'')"
    by (rule s; auto simp: schema_def podFields_def)+
  moreover have "read_str (member (gproject g podFields (v, a)) ''uid'') = Some v"
    by (rule read_uid_gproject) (auto simp: podFields_def)
  moreover have "read_types (member (gproject g podFields (v, a)) ''dgraph.type'') = Some []"
    using gproject_absent[of "''dgraph.type''" podFields g "(v, a)"] by (simp add: podFields_def read_types_def)
  ultimately show ?thesis by (simp add: unmarshal_pod_node_def node_pod_def)
qed

lemma follow_edge:
  assumes "attr g v ''dgraph.type'' \<noteq> None"
  obtains a where "map_of g v = Some a" "follow g P (edge_to v) = [JObj (P (v, a))]"
  using assms by (auto simp: attr_def follow_def split: option.splits)

lemma unmarshal_target:
  assumes "string_graph g" "sound_graph T g" "map_of g t = Some a"
  shows "unmarshal_target_node (JObj (gproject g targetFields (t, a))) = Some (node_target g t)"
proof -
  let ?m = "member (gproject g targetFields (t, a))"
  note s = read_str_gproject[OF assms(1,3)]
  have strs: "read_str (?m ''target_violated_processes'') = Some (astr g t ''target_violated_processes'')"
    "read_str (?m ''target_violated_files'') = Some (astr g t ''target_violated_files'')"
    "read_str (?m ''target_falco_alert'') = Some (astr g t ''target_falco_alert'')"
    by (rule s; auto simp: schema_def targetFields_def)+
  have uid: "read_str (?m ''uid'') = Some t"
    by (rule read_uid_gproject) (auto simp: targetFields_def)
  have none: "?m ''dgraph.type'' = JNull" "?m ''tarian_detection_data_type'' = JNull" "?m ''tarian_detection_data'' = JNull"
    by (rule gproject_absent, simp add: targetFields_def)+
  have "?m ''pod'' = member (sub_field g (gproject g podFields) ''pod'' (t, a)) ''pod''"
    by (rule member_gproject_sub) (auto simp: targetFields_def)
  then have "read_pointer unmarshal_pod_node (?m ''pod'') = Some (map_option (node_pod g) (Option.bind (attr g t ''pod'') edge))"
  proof (cases "attr g t ''pod''")
    case (Some r)
    then obtain v where v: "r = edge_to v" "attr g v ''dgraph.type'' \<noteq> None" using sound_graphD(2)[OF assms(2)] by blast
    obtain b where b: "map_of g v = Some b" "follow g (gproject g podFields) (edge_to v) = [JObj (gproject g podFields (v, b))]"
      using follow_edge[OF v(2)] by blast
    have "map_of a ''pod'' = Some (edge_to v)" using Some v(1) assms(3) by (simp add: attr_def)
    then have "sub_field g (gproject g podFields) ''pod'' (t, a) = [(''pod'', JObj (gproject g podFields (v, b)))]"
      using b(2) by (simp add: sub_field_def edge_to_def)
    then show ?thesis using \<open>?m ''pod'' = _\<close> Some v(1) unmarshal_pod[OF assms(1) b(1)] by simp
  next
    case None
    then show ?thesis using \<open>?m ''pod'' = _\<close> assms(3) by (simp add: attr_def sub_field_def member_def)
  qed
  then show ?thesis by (simp add: unmarshal_target_node_def strs uid none read_types_def node_target_def)
qed

lemma unmarshal_event:
  assumes "string_graph g" "sound_graph T g" "map_of g u = Some a"
  shows "unmarshal_event_node T (JObj (gproject g eventFields (u, a))) = Some (node_event T g u)"
proof -
  let ?m = "member (gproject g eventFields (u, a))"
  have strs: "read_str (?m ''event_type'') = Some (astr g u ''event_type'')"
    "read_str (?m ''event_uid'') = Some (astr g u ''event_uid'')"
    by (rule read_str_gproject[OF assms(1,3)]; auto simp: schema_def eventFields_alt)+
  have times: "read_time T (?m ''event_client_timestamp'') = Some (atime T g u ''event_client_timestamp'')"
    "read_time T (?m ''event_server_timestamp'') = Some (atime T g u ''event_server_timestamp'')"
    "read_time T (?m ''event_alert_sent_at'') = Some (atime T g u ''event_alert_sent_at'')"
    by (rule read_time_gproject[OF assms(2,3)]; auto simp: eventFields_alt)+
  have uid: "read_str (?m ''uid'') = Some u"
    by (rule read_uid_gproject) (auto simp: eventFields_alt)
  have "?m ''dgraph.type'' = (case attr g u ''dgraph.type'' of None \<Rightarrow> JNull | Some v \<Rightarrow> v)"
    by (rule member_gproject_fld) (auto simp: eventFields_alt assms(3))
  moreover have "\<exists>ts. read_types v = Some ts" if "attr g u ''dgraph.type'' = Some v" for v
  proof -
    have "(u, a) \<in> set g" "map_of a ''dgraph.type'' = Some v"
      using that assms(3) by (auto simp: attr_def dest: map_of_SomeD)
    then have "\<exists>ts. read_slice read_str (member (project [Fld ''dgraph.type''] (u, a)) ''dgraph.type'') = Some ts"
      using assms(1) by (intro read_strings_project) (auto simp: string_graph_def)
    with \<open>map_of a ''dgraph.type'' = Some v\<close> show ?thesis
      by (auto simp: read_types_def project_def field_value_def)
  qed
  ultimately have types: "read_types (?m ''dgraph.type'') = Some (atypes g u)"
    by (cases "attr g u ''dgraph.type''") (auto simp: read_types_def atypes_def)
  have sub: "?m ''targets'' = member (sub_field g (gproject g targetFields) ''targets'' (u, a)) ''targets''"
    by (rule member_gproject_sub) (auto simp: eventFields_alt)
  have "map_option elems (read_slice unmarshal_target_node (?m ''targets'')) = Some (map (node_target g) (links g u))"
  proof (cases "attr g u ''targets''")
    case (Some r)
    then obtain vs where vs: "r = JArr (map edge_to vs)" "\<forall>v\<in>set vs. attr g v ''dgraph.type'' \<noteq> None"
      using sound_graphD(3)[OF assms(2)] by blast
    have ts: "those (map unmarshal_target_node (concat (map (follow g (gproject g targetFields)) (map edge_to vs)))) =
        Some (map (node_target g) vs)"
      using vs(2)
    proof (induction vs)
      case (Cons v vs)
      obtain b where b: "map_of g v = Some b"
        "follow g (gproject g targetFields) (edge_to v) = [JObj (gproject g targetFields (v, b))]"
        using follow_edge[of g v "gproject g targetFields"] Cons.prems by auto
      show ?case using Cons unmarshal_target[OF assms(1,2) b(1)] b(2) by simp
    qed simp
    have "map_of a ''targets'' = Some r" using Some assms(3) by (simp add: attr_def)
    then show ?thesis using sub vs(1) Some ts by (simp add: sub_field_def links_def)
  next
    case None
    then show ?thesis using sub assms(3) by (simp add: attr_def sub_field_def member_def links_def)
  qed
  then obtain tg where "read_slice unmarshal_target_node (?m ''targets'') = Some tg" "elems tg = map (node_target g) (links g u)"
    by auto
  then show ?thesis by (simp add: unmarshal_event_node_def strs times uid types node_event_def)
qed

section \<open>Queries of events\<close>

definition unsent :: "Event \<Rightarrow> bool" where
  "unsent e \<longleftrightarrow> e_Type e \<noteq> EventTypeDetection \<and> e_AlertSentAt e = None"

lemma graph_event_fields [simp]:
  "e_Type (graph_event T g u) = astr g u ''event_type''"
  "e_Uid (graph_event T g u) = astr g u ''event_uid''"
  "e_AlertSentAt (graph_event T g u) = atime T g u ''event_alert_sent_at''"
  "e_Targets (graph_event T g u) = Some (map (toPbTarget \<circ> node_target g) (links g u))"
  by (simp_all add: graph_event_def toPbEvent_def node_event_def)

lemma attr_string:
  assumes "string_graph g" "map_of schema k = Some ''string''" "x \<noteq> []"
  shows "attr g u k = Some (JStr x) \<longleftrightarrow> astr g u k = x"
  using attr_typed[of g u k] assms by (cases "attr g u k") (auto simp: string_graph_def astr_def)

lemma atime_None:
  assumes "sound_graph T g" "k \<in> {''event_client_timestamp'', ''event_server_timestamp'', ''event_alert_sent_at''}"
  shows "atime T g u k = None \<longleftrightarrow> attr g u k = None"
  using sound_graphD(4)[OF assms, of u] by (cases "attr g u k") (auto simp: atime_def)

lemma events_filter:
  assumes "\<And>n. n \<in> set g \<Longrightarrow> P n \<longleftrightarrow> Q (graph_event T g (fst n))"
  shows "mset (map (\<lambda>n. graph_event T g (fst n)) (filter (\<lambda>n. has_type ''Event'' n \<and> P n) g)) = filter_mset Q (events T g)"
proof -
  have "mset (map (\<lambda>n. f (fst n)) (filter (\<lambda>n. has_type ''Event'' n \<and> P n) h)) =
      filter_mset Q (image_mset f (mset (map fst (filter (has_type ''Event'') h))))"
    if "\<And>n. n \<in> set h \<Longrightarrow> P n \<longleftrightarrow> Q (f (fst n))" for h and f :: "string \<Rightarrow> Event"
    using that by (induction h) auto
  from this[of g "graph_event T g"] show ?thesis using assms by (simp add: events_def)
qed

context graph_db
begin

lemma db_string_graph: "string_graph (graph s)"
  using nodes_typed by (auto simp: string_graph_def)

lemma query_events:
  assumes "query_list D (unmarshal_event_node T) q s = (r, s')" "sound_graph T (graph s)"
    "q_fields q = eventFields" "q_first q = None" "q_type q = ''Event''"
    "\<And>n. n \<in> set (graph s) \<Longrightarrow> filter_holds (q_filter q) n \<longleftrightarrow> Q (graph_event T (graph s) (fst n))"
  shows "(\<exists>t. dg_Query D q s = (Inl t, s') \<and> r = Inl t) \<or>
    (\<exists>xs. r = Inr xs \<and> mset (map toPbEvent xs) = filter_mset Q (events T (graph s)))"
proof (cases "dg_Query D q s")
  case (Pair x s1)
  show ?thesis
  proof (cases x)
    case (Inr tx)
    let ?g = "graph s" and ?ms = "matching q (graph s)"
    have "unmarshal_event_node T (JObj (gproject ?g eventFields n)) = Some (node_event T ?g (fst n))" if "n \<in> set ?g" for n
      using unmarshal_event[OF db_string_graph assms(2), of "fst n" "snd n"] map_of_is_SomeI[OF uids_distinct, of "fst n" "snd n"] that
      by simp
    then have eq: "map (\<lambda>n. unmarshal_event_node T (JObj (gproject ?g eventFields n))) ?ms =
        map (\<lambda>n. Some (node_event T ?g (fst n))) ?ms"
      using assms(4) by (auto simp: matching_def)
    have "those (map (\<lambda>n. Some (f n)) ms) = Some (map f ms)" for f :: "node \<Rightarrow> event_node" and ms
      by (induction ms) auto
    note those = this[of "\<lambda>n. node_event T ?g (fst n)" ?ms, folded eq]
    have "unmarshal_list (q_block q) (unmarshal_event_node T) tx = Some (map (\<lambda>n. node_event T ?g (fst n)) ?ms)"
      using graph_query[OF Pair[unfolded Inr]] assms(3) those
      by (simp add: unmarshal_list_def graph_answer_def comp_def del: map_eq_conv)
    then have r: "r = Inr (map (\<lambda>n. node_event T ?g (fst n)) ?ms)"
      using assms(1) Pair Inr by (simp add: query_list_def)
    have "mset (map (\<lambda>n. graph_event T ?g (fst n)) ?ms) = filter_mset Q (events T ?g)"
      using events_filter[of ?g "filter_holds (q_filter q)" Q T] assms(4-6) by (simp add: matching_def)
    with r show ?thesis by (simp add: graph_event_def comp_def multiset.map_comp)
  qed (use assms(1) Pair in \<open>auto simp: query_list_def\<close>)
qed

lemma type_filter:
  "filter_holds (FEq ''event_type'' EventTypeDetection) n \<longleftrightarrow>
     e_Type (graph_event T (graph s) (fst n)) = EventTypeDetection" if "n \<in> set (graph s)"
proof -
  have "map_of (snd n) ''event_type'' = attr (graph s) (fst n) ''event_type''"
    using attr_node[OF uids_distinct that] by simp
  moreover have "map_of schema ''event_type'' = Some ''string''" "EventTypeDetection \<noteq> []"
    by (simp_all add: schema_def EventTypeDetection_def)
  ultimately show ?thesis using attr_string[OF db_string_graph] by simp
qed

lemma find_unsent:
  assumes "event_FindWhereAlertNotSent D T s = ((xs, err), s')" "sound_graph T (graph s)"
  shows "graph s' = graph s \<and> (err = None \<longrightarrow> xs \<noteq> None \<and> mset (elems xs) = filter_mset unsent (events T (graph s))) \<and>
    (err \<noteq> None \<longrightarrow> xs = None)"
proof -
  let ?q = "\<lparr>q_block = ''events'', q_type = ''Event'', q_first = None,
    q_filter = FAnd (FNot (FEq ''event_type'' EventTypeDetection)) (FNot (FHas ''event_alert_sent_at'')),
    q_fields = eventFields\<rparr>"
  obtain r s1 where r: "query_list D (unmarshal_event_node T) ?q s = (r, s1)" by fastforce
  have "filter_holds (q_filter ?q) n \<longleftrightarrow> unsent (graph_event T (graph s) (fst n))" if "n \<in> set (graph s)" for n
    using type_filter[OF that, of T] atime_None[OF assms(2), of "''event_alert_sent_at''" "fst n"]
      attr_node[OF uids_distinct that, of "''event_alert_sent_at''"]
    by (simp add: unsent_def)
  then have "(\<exists>t. dg_Query D ?q s = (Inl t, s1) \<and> r = Inl t) \<or>
      (\<exists>xs. r = Inr xs \<and> mset (map toPbEvent xs) = filter_mset unsent (events T (graph s)))"
    by (intro query_events[OF r assms(2)]) auto
  then show ?thesis using assms(1) r query_list_keeps[OF r]
    by (auto simp: event_FindWhereAlertNotSent_def toPbEvents_def)
qed

lemma get_all:
  assumes "event_GetAll D T limit s = ((xs, err), s')" "sound_graph T (graph s)"
  shows "graph s' = graph s \<and> (err = None \<longrightarrow>
    mset (elems xs) = filter_mset (\<lambda>e. e_Type e \<noteq> EventTypeDetection) (events T (graph s)))"
proof -
  let ?q = "\<lparr>q_block = ''events'', q_type = ''Event'', q_first = None,
    q_filter = FNot (FEq ''event_type'' EventTypeDetection), q_fields = eventFields\<rparr>"
  obtain r s1 where r: "query_list D (unmarshal_event_node T) ?q s = (r, s1)" by fastforce
  have "filter_holds (q_filter ?q) n \<longleftrightarrow> e_Type (graph_event T (graph s) (fst n)) \<noteq> EventTypeDetection"
    if "n \<in> set (graph s)" for n
    using type_filter[OF that, of T] by simp
  then have "(\<exists>t. dg_Query D ?q s = (Inl t, s1) \<and> r = Inl t) \<or>
      (\<exists>xs. r = Inr xs \<and> mset (map toPbEvent xs) = filter_mset (\<lambda>e. e_Type e \<noteq> EventTypeDetection) (events T (graph s)))"
    by (intro query_events[OF r assms(2)]) auto
  then show ?thesis using assms(1) r query_list_keeps[OF r]
    by (auto simp: event_GetAll_def toPbEvents_def)
qed

end

section \<open>Marking an event\<close>

definition mark :: "Timestamp \<Rightarrow> string \<Rightarrow> Event \<Rightarrow> Event" where
  "mark now uid e = (if e_Uid e = uid then e\<lparr>e_AlertSentAt := Some now\<rparr> else e)"

text \<open>A change that leaves the types of nodes as they are changes the events one by one.\<close>

lemma events_change:
  assumes "distinct (map fst g)" "distinct (map fst h)" "\<And>u. typed ''Event'' h u = typed ''Event'' g u"
    "\<And>u. typed ''Event'' g u \<Longrightarrow> graph_event T h u = F (graph_event T g u)"
  shows "events T h = image_mset F (events T g)"
proof -
  have "image_mset (graph_event T h) (mset_set {u. typed ''Event'' g u}) =
      image_mset (\<lambda>u. F (graph_event T g u)) (mset_set {u. typed ''Event'' g u})"
    using assms(4) by (intro image_mset_cong) (metis elem_mset_set empty_iff infinite_set_mset_mset_set mem_Collect_eq)
  then show ?thesis by (simp add: events_set assms(1-3) multiset.map_comp comp_def)
qed

lemma typed_in_graph: "typed t g u \<Longrightarrow> u \<in> fst ` set g"
  by (auto simp: typed_def split: option.splits dest: attr_SomeD)

lemma sound_graph_mono:
  assumes "sound_graph T g" "\<And>u k. k \<in> {''pod'', ''targets''} \<Longrightarrow> attr h u k = attr g u k"
    "\<And>u. attr g u ''dgraph.type'' \<noteq> None \<Longrightarrow> attr h u ''dgraph.type'' \<noteq> None"
    "\<And>u. attr h u ''pod_uid'' \<noteq> Some (JStr [])"
    "\<And>u k r. k \<in> {''event_client_timestamp'', ''event_server_timestamp'', ''event_alert_sent_at''} \<Longrightarrow>
       attr h u k = Some r \<Longrightarrow> attr g u k = Some r \<or> (\<exists>s t. r = JStr s \<and> tc_parse T s = Some t)"
  shows "sound_graph T h"
proof -
  have "\<exists>v. r = edge_to v \<and> attr h v ''dgraph.type'' \<noteq> None" if "attr h u ''pod'' = Some r" for u r
    using sound_graphD(2)[OF assms(1), of u r] that assms(2)[of "''pod''" u] assms(3) by auto
  moreover have "\<exists>vs. r = JArr (map edge_to vs) \<and> (\<forall>v\<in>set vs. attr h v ''dgraph.type'' \<noteq> None)"
    if "attr h u ''targets'' = Some r" for u r
    using sound_graphD(3)[OF assms(1), of u r] that assms(2)[of "''targets''" u] assms(3) by fastforce
  moreover have "\<exists>s t. r = JStr s \<and> tc_parse T s = Some t"
    if "k \<in> {''event_client_timestamp'', ''event_server_timestamp'', ''event_alert_sent_at''}" "attr h u k = Some r" for u k r
    using assms(5)[OF that] sound_graphD(4)[OF assms(1) that(1), of u r] by blast
  ultimately show ?thesis using assms(4) unfolding sound_graph_def by blast
qed

definition alert_members :: "time_codec \<Rightarrow> Timestamp \<Rightarrow> (string \<times> json) list" where
  "alert_members T now = [(''event_alert_sent_at'', JStr (tc_format T now))]"

definition alert_upsert :: "time_codec \<Rightarrow> Timestamp \<Rightarrow> string \<Rightarrow> upsert" where
  "alert_upsert T now uid = \<lparr>u_pred = ''event_uid'', u_value = uid, u_returns = False,
     u_SetJson = render (JObj ((''uid'', JStr ''uid(evt)'') # alert_members T now))\<rparr>"

lemma UpdateAlertSent_Do:
  "event_UpdateAlertSent D T now uid s = (case dg_Do D (alert_upsert T now uid) s of ((resp, err), s') \<Rightarrow> (err, s'))"
  by (simp add: event_UpdateAlertSent_def alert_upsert_def alert_members_def marshal_event_node_def omit_defs omit_types_def
      omit_time_def Let_def case_prod_unfold)

lemma upserted_mark:
  assumes "upserted (alert_upsert T now uid) (alert_members T now) g h new" "distinct (map fst g)" "distinct (map fst h)"
    "string_graph g" "sound_graph T g" "uid \<noteq> []" "tc_parse T (tc_format T now) = Some now"
  shows "sound_graph T h \<and> events T h = image_mset (mark now uid) (events T g)"
proof -
  let ?t = "''event_alert_sent_at''"
  obtain us where us: "attr h = written us (alert_members T now) g"
    "\<And>u. u \<in> fst ` set g \<Longrightarrow> u \<in> us \<longleftrightarrow> attr g u ''event_uid'' = Some (JStr uid)"
    by (rule upserted_written[OF assms(1,2)]) (simp add: alert_upsert_def)
  have other: "attr h u k = attr g u k" if "k \<noteq> ?t" for u k
    using that by (simp add: us(1) written_def alert_members_def)
  have sent: "attr h u ?t = (if u \<in> us then Some (JStr (tc_format T now)) else attr g u ?t)" for u
    by (simp add: us(1) written_def alert_members_def)
  have sound: "sound_graph T h"
  proof (rule sound_graph_mono[OF assms(5)])
    fix u k r
    assume "k \<in> {''event_client_timestamp'', ''event_server_timestamp'', ''event_alert_sent_at''}" "attr h u k = Some r"
    then show "attr g u k = Some r \<or> (\<exists>s t. r = JStr s \<and> tc_parse T s = Some t)"
      using sent[of u] assms(7) other[of k u] by (cases "k = ?t") (auto split: if_splits)
  qed (auto simp: other sound_graphD(1)[OF assms(5)])
  have same: "astr h u k = astr g u k" if "k \<noteq> ?t" for u k by (simp add: astr_def other that)
  have time: "atime T h u k = atime T g u k" if "k \<noteq> ?t" for u k by (simp add: atime_def other that)
  have target: "node_target h = node_target g"
    by (simp add: node_target_def[abs_def] node_pod_def[abs_def] same other)
  have links: "links h u = links g u" for u by (simp add: links_def other)
  have ev: "graph_event T h u = mark now uid (graph_event T g u)" if "typed ''Event'' g u" for u
  proof -
    have "u \<in> us \<longleftrightarrow> e_Uid (graph_event T g u) = uid"
      using us(2)[OF typed_in_graph[OF that]] attr_string[OF assms(4) _ assms(6), of "''event_uid''" u] by (simp add: schema_def)
    then have "atime T h u ?t = (if e_Uid (graph_event T g u) = uid then Some now else atime T g u ?t)"
      using sent[of u] assms(7) by (simp add: atime_def)
    then show ?thesis
      by (simp add: mark_def graph_event_def toPbEvent_def node_event_def same time target links)
  qed
  have "typed ''Event'' h u = typed ''Event'' g u" for u by (simp add: typed_def other)
  from sound events_change[OF assms(2,3) this ev] show ?thesis by simp
qed

context graph_db
begin

lemma update_alert:
  assumes "event_UpdateAlertSent D T now uid s = (err, s')" "sound_graph T (graph s)" "uid \<noteq> []"
    "tc_parse T (tc_format T now) = Some now"
  shows "sound_graph T (graph s') \<and> (events T (graph s') = image_mset (mark now uid) (events T (graph s)) \<or>
    err \<noteq> None \<and> graph s' = graph s)"
proof -
  obtain resp where resp: "dg_Do D (alert_upsert T now uid) s = ((resp, err), s')"
    using assms(1) by (auto simp: UpdateAlertSent_Do split: prod.splits)
  have parse: "json_parse (u_SetJson (alert_upsert T now uid)) = Some (JObj ((''uid'', JStr ''uid(evt)'') # alert_members T now))"
    unfolding alert_upsert_def upsert.simps by (rule json_parse_render)
  have "err \<noteq> None \<and> graph s' = graph s \<or> (\<exists>new. upserted (alert_upsert T now uid) (alert_members T now) (graph s) (graph s') new)"
    using do_graph[OF resp parse] by (auto simp: alert_members_def)
  then show ?thesis
  proof
    assume "\<exists>new. upserted (alert_upsert T now uid) (alert_members T now) (graph s) (graph s') new"
    then obtain new where "upserted (alert_upsert T now uid) (alert_members T now) (graph s) (graph s') new" ..
    from upserted_mark[OF this uids_distinct uids_distinct db_string_graph assms(2-4)] show ?thesis by simp
  qed (use assms(2) in auto)
qed

end

end
