(* ===== verification/EventPods.thy ===== *)
theory EventPods
  imports EventGraph
begin

text \<open>
  The pods of an event: the upserts that \<^verbatim>\<open>UpsertPod\<close> of \<^verbatim>\<open>dgraph_event_store.go\<close> sends for them, what
  they do to the events of the graph, and the loop over the targets in \<^verbatim>\<open>Add\<close>. A pod with a uid is
  one node that all events share, so the upsert of a pod changes the earlier events of the same pod.
\<close>

section \<open>Pods\<close>

definition pod_from :: "string \<Rightarrow> Pod \<Rightarrow> pod_node" where
  "pod_from u p = \<lparr>dp_UID = u, dp_DType = [''Pod''], dp_Namespace = pod_Namespace p, dp_Name = pod_Name p,
     dp_PodUID = pod_Uid p, dp_Labels = render (marshal_slice marshal_Label (pod_Labels p))\<rparr>"

definition pod_of :: "pod_node \<Rightarrow> Pod" where
  "pod_of n = \<lparr>pod_Uid = dp_PodUID n, pod_Namespace = dp_Namespace n, pod_Name = dp_Name n,
     pod_Labels = unmarshal_or None (read_slice unmarshal_Label) (dp_Labels n)\<rparr>"

definition pod_members :: "Pod \<Rightarrow> (string \<times> json) list" where
  "pod_members p = omit_types [''Pod''] @ omit_str ''pod_namespace'' (pod_Namespace p) @ omit_str ''pod_name'' (pod_Name p) @
     omit_str ''pod_uid'' (pod_Uid p) @ omit_str ''pod_labels'' (render (marshal_slice marshal_Label (pod_Labels p)))"

lemma pod_of_pod_from [simp]: "pod_of (pod_from u p) = p"
  by (simp add: pod_of_def pod_from_def target_roundtrips)

lemma pod_from_simps [simp]: "dp_UID (pod_from u p) = u" "(pod_from u p)\<lparr>dp_UID := v\<rparr> = pod_from v p"
  by (simp_all add: pod_from_def)

lemma marshal_pod_from: "u \<noteq> [] \<Longrightarrow> marshal_pod_node (pod_from u p) = JObj ((''uid'', JStr u) # pod_members p)"
  by (simp add: marshal_pod_node_def pod_from_def pod_members_def omit_str_def)

lemma dgraphTargetFromPb_pod: "dt_Pod (dgraphTargetFromPb i t) = map_option (pod_from (''_:pod'' @ Itoa (int i))) (t_Pod t)"
  by (cases "t_Pod t") (simp_all add: dgraphTargetFromPb_def pod_from_def)

lemma labels_text: "render (marshal_slice f xs) \<noteq> []"
  by (cases xs) simp_all

lemma map_of_pod_members:
  "map_of (pod_members p) ''dgraph.type'' = Some (JArr [JStr ''Pod''])"
  "map_of (pod_members p) ''pod_namespace'' = (if pod_Namespace p = [] then None else Some (JStr (pod_Namespace p)))"
  "map_of (pod_members p) ''pod_name'' = (if pod_Name p = [] then None else Some (JStr (pod_Name p)))"
  "map_of (pod_members p) ''pod_uid'' = (if pod_Uid p = [] then None else Some (JStr (pod_Uid p)))"
  "map_of (pod_members p) ''pod_labels'' = Some (JStr (render (marshal_slice marshal_Label (pod_Labels p))))"
  "k \<notin> {''dgraph.type'', ''pod_namespace'', ''pod_name'', ''pod_uid'', ''pod_labels''} \<Longrightarrow> map_of (pod_members p) k = None"
  by (auto simp: pod_members_def omit_types_def omit_str_def labels_text)

text \<open>What the attributes of a node say of a pod when its object was written to it.\<close>

lemma node_pod_written:
  assumes "attr h = written us (pod_members p) g" "v \<in> us"
    "pod_Uid p \<noteq> [] \<and> pod_Namespace p \<noteq> [] \<and> pod_Name p \<noteq> [] \<or> (\<forall>k. attr g v k = None)"
  shows "pod_of (node_pod h v) = p"
proof -
  have "astr h v ''pod_namespace'' = pod_Namespace p" "astr h v ''pod_name'' = pod_Name p" "astr h v ''pod_uid'' = pod_Uid p"
    using assms(3) by (auto simp: astr_def assms(1,2) written_def map_of_pod_members)
  moreover have "astr h v ''pod_labels'' = render (marshal_slice marshal_Label (pod_Labels p))"
    by (simp add: astr_def assms(1,2) written_def map_of_pod_members)
  ultimately show ?thesis by (simp add: node_pod_def pod_of_def target_roundtrips)
qed

definition carries :: "node list \<Rightarrow> string \<Rightarrow> (string \<times> json) list \<Rightarrow> bool" where
  "carries g v kvs \<longleftrightarrow> (\<forall>k x. map_of kvs k = Some x \<longrightarrow> (\<exists>y. attr g v k = Some y \<and> join (Some y) x = y))"

definition stands :: "node list \<Rightarrow> string \<Rightarrow> Pod \<Rightarrow> bool" where
  "stands g v p \<longleftrightarrow> pod_of (node_pod g v) = p \<and> carries g v (pod_members p)"

lemma stands_typed: "stands g v p \<Longrightarrow> attr g v ''dgraph.type'' \<noteq> None"
  using map_of_pod_members(1)[of p] by (auto simp: stands_def carries_def)

lemma stands_in_graph: "stands g v p \<Longrightarrow> v \<in> fst ` set g"
  using stands_typed attr_SomeD by fastforce

lemma stands_cong: "(\<And>k. attr h v k = attr g v k) \<Longrightarrow> stands h v p = stands g v p"
  by (simp add: stands_def carries_def node_pod_def astr_def)

section \<open>Upserting a pod\<close>

definition proper_pod :: "Pod \<Rightarrow> bool" where
  "proper_pod p \<longleftrightarrow> (pod_Uid p \<noteq> [] \<longrightarrow> pod_Namespace p \<noteq> [] \<and> pod_Name p \<noteq> [])"

definition refresh_pod :: "Pod \<Rightarrow> Pod \<Rightarrow> Pod" where
  "refresh_pod p q = (if pod_Uid p \<noteq> [] \<and> pod_Uid q = pod_Uid p then p else q)"

definition refresh_target :: "Pod \<Rightarrow> Target \<Rightarrow> Target" where
  "refresh_target p t = t\<lparr>t_Pod := map_option (refresh_pod p) (t_Pod t)\<rparr>"

definition refresh :: "Pod \<Rightarrow> Event \<Rightarrow> Event" where
  "refresh p e = e\<lparr>e_Targets := map_option (map (refresh_target p)) (e_Targets e)\<rparr>"

definition pod_upsert :: "Pod \<Rightarrow> upsert" where
  "pod_upsert p = \<lparr>u_pred = ''pod_uid'', u_value = pod_Uid p, u_returns = True,
     u_SetJson = render (JObj ((''uid'', JStr ''uid(p)'') # pod_members p))\<rparr>"

lemma toPbTarget_pod: "toPbTarget t = (toPbTarget (t\<lparr>dt_Pod := None\<rparr>))\<lparr>t_Pod := map_option pod_of (dt_Pod t)\<rparr>"
  by (cases "dt_Pod t") (simp_all add: toPbTarget_def zero_Target_def pod_of_def Let_def)

lemma toPbTarget_refresh:
  assumes "\<And>k. k \<in> {''target_violated_processes'', ''target_violated_files'', ''target_falco_alert'', ''pod''} \<Longrightarrow>
      attr h t k = attr g t k"
    "\<And>v. Option.bind (attr g t ''pod'') edge = Some v \<Longrightarrow> pod_of (node_pod h v) = refresh_pod p (pod_of (node_pod g v))"
  shows "toPbTarget (node_target h t) = refresh_target p (toPbTarget (node_target g t))"
proof -
  have "(node_target h t)\<lparr>dt_Pod := None\<rparr> = (node_target g t)\<lparr>dt_Pod := None\<rparr>"
    by (simp add: node_target_def astr_def assms(1))
  moreover have "map_option pod_of (dt_Pod (node_target h t)) = map_option (refresh_pod p \<circ> pod_of) (dt_Pod (node_target g t))"
    using assms(2) by (cases "Option.bind (attr g t ''pod'') edge") (simp_all add: node_target_def assms(1))
  ultimately show ?thesis
    by (simp add: toPbTarget_pod[of "node_target h t"] toPbTarget_pod[of "node_target g t"] refresh_target_def option.map_comp)
qed

lemma typed_join:
  assumes "attr h u ''dgraph.type'' = Some (join (attr g u ''dgraph.type'') (JArr [JStr a]))" "a \<noteq> t"
  shows "typed t h u = typed t g u"
proof (cases "attr g u ''dgraph.type''")
  case (Some j)
  with assms show ?thesis by (cases j) (auto simp: typed_def)
qed (use assms in \<open>auto simp: typed_def\<close>)

lemma upserted_pod:
  assumes "upserted (pod_upsert p) (pod_members p) g h new" "distinct (map fst g)" "distinct (map fst h)"
    "string_graph g" "sound_graph T g" "proper_pod p"
  obtains us where "attr h = written us (pod_members p) g"
    "\<And>v. v \<in> fst ` set g \<Longrightarrow> v \<in> us \<longleftrightarrow> pod_Uid p \<noteq> [] \<and> astr g v ''pod_uid'' = pod_Uid p"
    "\<And>v. v \<in> us \<Longrightarrow> pod_of (node_pod h v) = p"
    "new = None \<Longrightarrow> found (pod_upsert p) g \<noteq> [] \<and> us = fst ` set (found (pod_upsert p) g)"
    "\<And>v. new = Some v \<Longrightarrow> us = {v} \<and> v \<noteq> []"
proof (rule upserted_written[OF assms(1,2)])
  fix us
  assume us: "attr h = written us (pod_members p) g"
    "\<And>u. u \<in> fst ` set g \<Longrightarrow> (u \<in> us) = (attr g u (u_pred (pod_upsert p)) = Some (JStr (u_value (pod_upsert p))))"
    "new = None \<Longrightarrow> found (pod_upsert p) g \<noteq> [] \<and> us = fst ` set (found (pod_upsert p) g)"
    "\<And>u. new = Some u \<Longrightarrow> found (pod_upsert p) g = [] \<and> us = {u} \<and> u \<noteq> [] \<and> u \<notin> fst ` set g"
  have mem: "v \<in> us \<longleftrightarrow> pod_Uid p \<noteq> [] \<and> astr g v ''pod_uid'' = pod_Uid p" if "v \<in> fst ` set g" for v
    using us(2)[OF that] sound_graphD(1)[OF assms(5), of v] attr_string[OF assms(4), of "''pod_uid''" "pod_Uid p" v]
    by (cases "pod_Uid p = []") (simp_all add: pod_upsert_def schema_def)
  have pod: "pod_of (node_pod h v) = p" if "v \<in> us" for v
  proof (rule node_pod_written[OF us(1) that])
    show "pod_Uid p \<noteq> [] \<and> pod_Namespace p \<noteq> [] \<and> pod_Name p \<noteq> [] \<or> (\<forall>k. attr g v k = None)"
      using mem[of v] that attr_new[of v g] assms(6) by (cases "v \<in> fst ` set g") (auto simp: proper_pod_def)
  qed
  show thesis
    by (rule that[of us]) (use us(1,3,4) mem pod in blast)+
qed

lemma upserted_pod_events:
  assumes "attr h = written us (pod_members p) g" "distinct (map fst g)" "distinct (map fst h)" "sound_graph T g"
    "\<And>v. v \<in> fst ` set g \<Longrightarrow> v \<in> us \<longleftrightarrow> pod_Uid p \<noteq> [] \<and> astr g v ''pod_uid'' = pod_Uid p"
    "\<And>v. v \<in> us \<Longrightarrow> pod_of (node_pod h v) = p"
  shows "sound_graph T h \<and> events T h = image_mset (refresh p) (events T g)"
proof -
  have other: "attr h u k = attr g u k" if "k \<notin> {''dgraph.type'', ''pod_namespace'', ''pod_name'', ''pod_uid'', ''pod_labels''}" for u k
    using map_of_pod_members(6)[OF that] by (simp add: assms(1) written_def)
  have type: "attr h u ''dgraph.type'' = (if u \<in> us then Some (join (attr g u ''dgraph.type'') (JArr [JStr ''Pod'']))
      else attr g u ''dgraph.type'')" for u
    by (simp add: assms(1) written_def map_of_pod_members)
  have sound: "sound_graph T h"
  proof (rule sound_graph_mono[OF assms(4)])
    fix u
    show "attr h u ''pod_uid'' \<noteq> Some (JStr [])"
      using sound_graphD(1)[OF assms(4), of u] by (auto simp: assms(1) written_def map_of_pod_members)
  qed (auto simp: other type)
  have pod: "pod_of (node_pod h v) = refresh_pod p (pod_of (node_pod g v))" if "attr g v ''dgraph.type'' \<noteq> None" for v
  proof (cases "v \<in> us")
    case True
    have "v \<in> fst ` set g" using that attr_SomeD by fastforce
    then show ?thesis using True assms(5,6) by (simp add: refresh_pod_def pod_of_def node_pod_def)
  next
    case False
    have "v \<in> fst ` set g" using that attr_SomeD by fastforce
    moreover have "attr h v k = attr g v k" for k using False by (simp add: assms(1) written_def split: option.splits)
    then have "astr h v k = astr g v k" for k by (simp add: astr_def)
    ultimately show ?thesis using False assms(5)[of v] by (auto simp: refresh_pod_def pod_of_def node_pod_def)
  qed
  have target: "toPbTarget (node_target h t) = refresh_target p (toPbTarget (node_target g t))" for t
  proof (rule toPbTarget_refresh)
    fix v
    assume "Option.bind (attr g t ''pod'') edge = Some v"
    then have "attr g v ''dgraph.type'' \<noteq> None" using sound_graphD(2)[OF assms(4), of t] by (cases "attr g t ''pod''") auto
    then show "pod_of (node_pod h v) = refresh_pod p (pod_of (node_pod g v))" by (rule pod)
  qed (auto simp: other)
  have ev: "graph_event T h u = refresh p (graph_event T g u)" for u
    by (simp add: graph_event_def toPbEvent_def node_event_def refresh_def astr_def atime_def links_def other target NewEvent_def)
  have "typed ''Event'' h u = typed ''Event'' g u" for u
    using typed_join[of h u g "''Pod''" "''Event''"] type[of u] by (cases "u \<in> us") (auto simp: typed_def)
  from sound events_change[OF assms(2,3) this ev] show ?thesis by simp
qed

lemma written_stands:
  assumes "attr h = written us (pod_members p) g" "v \<in> us" "pod_of (node_pod h v) = p"
  shows "stands h v p"
  unfolding stands_def carries_def using assms by (auto simp: written_def)

lemma written_keeps_stands:
  assumes "attr h = written us (pod_members p) g" "stands g v q" "\<And>v. v \<in> us \<Longrightarrow> pod_of (node_pod h v) = p"
    "\<And>v. v \<in> fst ` set g \<Longrightarrow> v \<in> us \<longleftrightarrow> pod_Uid p \<noteq> [] \<and> astr g v ''pod_uid'' = pod_Uid p"
    "pod_Uid p \<noteq> [] \<Longrightarrow> pod_Uid p = pod_Uid q \<Longrightarrow> p = q"
  shows "stands h v q"
proof (cases "v \<in> us")
  case True
  have "astr g v ''pod_uid'' = pod_Uid q" using assms(2) by (auto simp: stands_def pod_of_def node_pod_def)
  then have "pod_Uid p \<noteq> []" "pod_Uid p = pod_Uid q" using True assms(4)[OF stands_in_graph[OF assms(2)]] by simp_all
  from assms(5)[OF this] show ?thesis using written_stands[OF assms(1) True assms(3)[OF True]] by (rule subst)
next
  case False
  then have "attr h v k = attr g v k" for k by (simp add: assms(1) written_def split: option.splits)
  with assms(2) show ?thesis using stands_cong[of h v g q] by simp
qed

text \<open>The effect of an upsert on the events and on the nodes that already stand for a pod.\<close>

definition pod_effect :: "time_codec \<Rightarrow> Pod \<Rightarrow> node list \<Rightarrow> node list \<Rightarrow> bool" where
  "pod_effect T p g h \<longleftrightarrow> sound_graph T h \<and> events T h = image_mset (refresh p) (events T g) \<and>
     (\<forall>v q. stands g v q \<longrightarrow> (pod_Uid p \<noteq> [] \<longrightarrow> pod_Uid p = pod_Uid q \<longrightarrow> p = q) \<longrightarrow> stands h v q)"

lemma upserted_effect:
  assumes "upserted (pod_upsert p) (pod_members p) g h new" "distinct (map fst g)" "distinct (map fst h)"
    "string_graph g" "sound_graph T g" "proper_pod p"
  shows "pod_effect T p g h" "new = None \<Longrightarrow> \<exists>n ns. found (pod_upsert p) g = n # ns \<and> stands h (fst n) p"
    "new = Some v \<Longrightarrow> v \<noteq> [] \<and> stands h v p"
proof -
  obtain us where us: "attr h = written us (pod_members p) g"
    "\<And>v. v \<in> fst ` set g \<Longrightarrow> v \<in> us \<longleftrightarrow> pod_Uid p \<noteq> [] \<and> astr g v ''pod_uid'' = pod_Uid p"
    "\<And>v. v \<in> us \<Longrightarrow> pod_of (node_pod h v) = p"
    "new = None \<Longrightarrow> found (pod_upsert p) g \<noteq> [] \<and> us = fst ` set (found (pod_upsert p) g)"
    "\<And>v. new = Some v \<Longrightarrow> us = {v} \<and> v \<noteq> []"
    using upserted_pod[OF assms] by blast
  note stands = written_stands[OF us(1) _ us(3)]
  show "pod_effect T p g h"
    unfolding pod_effect_def
    using upserted_pod_events[OF us(1) assms(2,3,5) us(2,3)] written_keeps_stands[OF us(1) _ us(3,2)] by blast
  show "\<exists>n ns. found (pod_upsert p) g = n # ns \<and> stands h (fst n) p" if "new = None"
    using us(4)[OF that] stands by (cases "found (pod_upsert p) g") auto
  show "v \<noteq> [] \<and> stands h v p" if "new = Some v"
    using us(5)[OF that] stands by auto
qed

context graph_db
begin

lemma UpsertPod_cases:
  assumes "UpsertPod D (pod_from u p) s = (r, s')" "sound_graph T (graph s)" "proper_pod p"
  shows "r = None \<and> graph s' = graph s \<or>
    pod_effect T p (graph s) (graph s') \<and> (r = None \<or> (\<exists>v. r = Some (pod_from v p, None) \<and> v \<noteq> [] \<and> stands (graph s') v p))"
proof -
  obtain resp err s1 where resp1: "dg_Do D (pod_upsert p) s = ((resp, err), s1)" by (metis prod.collapse)
  have run1: "UpsertPod D (pod_from u p) s = (case resp of None \<Rightarrow> (None, s1) | Some resp \<Rightarrow>
     (case map_get (r_Uids resp) ''uid(p)'' of
        Some podUID \<Rightarrow> (Some (if podUID \<noteq> [] then pod_from podUID p else pod_from ''uid(p)'' p, err), s1)
      | None \<Rightarrow> (case unmarshal_list ''pod'' (\<lambda>j. Option.bind (read_members j) (\<lambda>m. read_str (member m ''uid''))) (r_Json resp) of
            None \<Rightarrow> (Some (pod_from ''uid(p)'' p, Some unmarshal_error), s1)
          | Some ids \<Rightarrow>
              (let podUID = (case ids of [] \<Rightarrow> [] | u # _ \<Rightarrow> u)
               in (Some (if podUID \<noteq> [] then pod_from podUID p else pod_from ''uid(p)'' p, None), s1)))))"
  proof -
    have "dp_PodUID (pod_from ''uid(p)'' p) = pod_Uid p" by (simp add: pod_from_def)
    then show ?thesis using resp1
      by (simp add: UpsertPod_def marshal_pod_from pod_upsert_def Let_def del: render.simps split: option.splits)
  qed
  have "s1 = s'" using run1 assms(1) by (auto simp: Let_def split: option.splits)
  note resp = resp1[unfolded this] and run = run1[unfolded this]
  have parse: "json_parse (u_SetJson (pod_upsert p)) = Some (JObj ((''uid'', JStr ''uid(p)'') # pod_members p))"
    unfolding pod_upsert_def upsert.simps by (rule json_parse_render)
  have flat: "list_all (\<lambda>(k, v). flat_value v) (pod_members p)"
    by (simp add: pod_members_def omit_types_def omit_str_def)
  note effect = upserted_effect[OF _ uids_distinct uids_distinct db_string_graph assms(2,3)]
  consider (fail) "resp = None" "graph s' = graph s"
    | (lost) new where "resp = None" "upserted (pod_upsert p) (pod_members p) (graph s) (graph s') new"
    | (ok) x where "err = None" "resp = Some x"
        "upserted (pod_upsert p) (pod_members p) (graph s) (graph s') (map_get (r_Uids x) ''uid(p)'')"
        "json_parse (r_Json x) = Some (JObj [(''pod'', JArr (map (edge_to \<circ> fst) (found (pod_upsert p) (graph s))))])"
    using do_graph[OF resp parse flat] by (auto simp: pod_upsert_def)
  then show ?thesis
  proof cases
    case (lost new)
    then show ?thesis using run assms(1) effect(1)[OF lost(2)] by simp
  next
    case (ok x)
    show ?thesis
    proof (cases "map_get (r_Uids x) ''uid(p)''")
      case None
      then obtain n ns where n: "found (pod_upsert p) (graph s) = n # ns" "stands (graph s') (fst n) p"
        using effect(2)[OF ok(3)] by blast
      have "n \<in> set (found (pod_upsert p) (graph s))" using n(1) by simp
      then have ne: "fst n \<noteq> []" using uids_plain[of n s] by (simp add: found_def plain_uid_def)
      have "those (map (\<lambda>j. Option.bind (read_members j) (\<lambda>m. read_str (member m ''uid''))) (map (edge_to \<circ> fst) ms)) =
          Some (map fst ms)" for ms :: "node list"
        by (induction ms) (simp_all add: edge_to_def)
      from this[of "n # ns"] have "unmarshal_list ''pod'' (\<lambda>j. Option.bind (read_members j) (\<lambda>m. read_str (member m ''uid''))) (r_Json x) =
          Some (map fst (n # ns))"
        unfolding unmarshal_list_def ok(4) n(1) by simp
      then show ?thesis using run assms(1) effect(1)[OF ok(3)] n(2) ne None ok(2) by simp blast
    next
      case (Some v)
      then show ?thesis using run assms(1) effect(1)[OF ok(3)] effect(3)[OF ok(3) Some] ok(1,2) by simp blast
    qed
  qed (use run assms(1) in simp)
qed

end

section \<open>The pods of an event\<close>

definition pods_of :: "Target list \<Rightarrow> Pod list" where
  "pods_of ts = List.map_filter t_Pod ts"

definition agree :: "Pod list \<Rightarrow> bool" where
  "agree ps \<longleftrightarrow> (\<forall>p\<in>set ps. \<forall>q\<in>set ps. pod_Uid p \<noteq> [] \<longrightarrow> pod_Uid p = pod_Uid q \<longrightarrow> p = q)"

text \<open>A target node whose pod got its uid.\<close>

fun placed :: "(nat \<times> Target) \<times> string \<Rightarrow> target_node" where
  "placed ((i, t), v) = (dgraphTargetFromPb i t)\<lparr>dt_Pod := map_option (pod_from v) (t_Pod t)\<rparr>"

definition all_placed :: "node list \<Rightarrow> ((nat \<times> Target) \<times> string) list \<Rightarrow> bool" where
  "all_placed g zs \<longleftrightarrow> (\<forall>z\<in>set zs. \<forall>p. t_Pod (snd (fst z)) = Some p \<longrightarrow> snd z \<noteq> [] \<and> stands g (snd z) p)"

lemma pods_of_simps [simp]:
  "pods_of [] = []" "pods_of (t # ts) = (case t_Pod t of None \<Rightarrow> pods_of ts | Some p \<Rightarrow> p # pods_of ts)"
  by (simp_all add: pods_of_def List.map_filter_simps split: option.split)

lemma agree_Cons: "agree (p # ps) \<Longrightarrow> agree ps"
  by (auto simp: agree_def)

lemma agreeD: "agree ps \<Longrightarrow> p \<in> set ps \<Longrightarrow> q \<in> set ps \<Longrightarrow> pod_Uid p \<noteq> [] \<Longrightarrow> pod_Uid p = pod_Uid q \<Longrightarrow> p = q"
  by (auto simp: agree_def)

lemma pod_effect_stands:
  "pod_effect T p g h \<Longrightarrow> stands g v q \<Longrightarrow> agree ps \<Longrightarrow> p \<in> set ps \<Longrightarrow> q \<in> set ps \<Longrightarrow> stands h v q"
  using agreeD unfolding pod_effect_def by blast

text \<open>Several upserts, one after the other.\<close>

definition pods_effect :: "time_codec \<Rightarrow> Pod list \<Rightarrow> node list \<Rightarrow> node list \<Rightarrow> bool" where
  "pods_effect T ps g h \<longleftrightarrow> sound_graph T h \<and> events T h = image_mset (fold refresh ps) (events T g) \<and>
     (\<forall>v q qs. stands g v q \<longrightarrow> agree qs \<longrightarrow> set ps \<subseteq> set qs \<longrightarrow> q \<in> set qs \<longrightarrow> stands h v q)"

lemma pods_effect_Nil: "sound_graph T g \<Longrightarrow> pods_effect T [] g g"
  by (simp add: pods_effect_def)

lemma pods_effect_Cons: "pod_effect T p g h \<Longrightarrow> pods_effect T ps h k \<Longrightarrow> pods_effect T (p # ps) g k"
proof -
  assume p: "pod_effect T p g h" and ps: "pods_effect T ps h k"
  have "events T k = image_mset (fold refresh (p # ps)) (events T g)"
    using p ps by (simp add: pod_effect_def pods_effect_def multiset.map_comp comp_def)
  moreover have "stands k v q" if "stands g v q" "agree qs" "set (p # ps) \<subseteq> set qs" "q \<in> set qs" for v q qs
    using ps that pod_effect_stands[OF p that(1,2) _ that(4)] by (auto simp: pods_effect_def)
  ultimately show ?thesis using ps by (auto simp: pods_effect_def)
qed

text \<open>
  How the loop over the targets ends: every pod has a node that stands for it, or the process is gone
  after some of the upserts.
\<close>

definition upserts :: "time_codec \<Rightarrow> (nat \<times> Target) list \<Rightarrow> node list \<Rightarrow> (go_error + target_node list) option \<Rightarrow> node list \<Rightarrow> bool" where
  "upserts T its g r h \<longleftrightarrow>
     (\<exists>zs. r = Some (Inr (map placed zs)) \<and> map fst zs = its \<and> all_placed h zs \<and> pods_effect T (pods_of (map snd its)) g h) \<or>
     (r = None \<and> (\<exists>n. pods_effect T (take n (pods_of (map snd its))) g h))"

lemma upserts_cases:
  assumes "upserts T its g r h"
  obtains (upd) zs where "r = Some (Inr (map placed zs))" "map fst zs = its" "all_placed h zs"
      "pods_effect T (pods_of (map snd its)) g h"
  | (crash) n where "r = None" "pods_effect T (take n (pods_of (map snd its))) g h"
  using assms unfolding upserts_def by blast

lemma upserts_skip:
  assumes "upserts T its g r h" "t_Pod t = None"
  shows "upserts T ((i, t) # its) g (case r of Some (Inr ts) \<Rightarrow> Some (Inr (dgraphTargetFromPb i t # ts)) | _ \<Rightarrow> r) h"
  using assms(1)
proof (cases rule: upserts_cases)
  case (upd zs)
  have "(dgraphTargetFromPb i t)\<lparr>dt_Pod := None\<rparr> = dgraphTargetFromPb i t"
    using dgraphTargetFromPb_pod[of i t] assms(2) by simp
  then have "map placed (((i, t), []) # zs) = dgraphTargetFromPb i t # map placed zs" using assms(2) by simp
  moreover have "map fst (((i, t), []) # zs) = (i, t) # its" "all_placed h (((i, t), []) # zs)"
    using upd(2,3) assms(2) by (simp_all add: all_placed_def)
  moreover have "pods_of (map snd ((i, t) # its)) = pods_of (map snd its)" using assms(2) by simp
  ultimately show ?thesis using upd(1,4) unfolding upserts_def by (metis option.case(2) sum.case(2))
qed (use assms(2) in \<open>auto simp: upserts_def\<close>)

lemma upserts_fail:
  assumes "h = g \<or> pod_effect T p g h" "t_Pod t = Some p" "sound_graph T g"
  shows "upserts T ((i, t) # its) g None h"
proof -
  have "pods_effect T (take 0 (pods_of (map snd ((i, t) # its)))) g g" using pods_effect_Nil[OF assms(3)] by simp
  moreover have "pods_effect T (take 1 (pods_of (map snd ((i, t) # its)))) g h" if "pod_effect T p g h"
    using that pods_effect_Cons[OF that pods_effect_Nil] assms(2) by (simp add: pod_effect_def)
  ultimately show ?thesis using assms(1) unfolding upserts_def by blast
qed

lemma upserts_step:
  assumes "upserts T its h r k" "pod_effect T p g h" "stands h v p" "v \<noteq> []" "t_Pod t = Some p"
    "agree (p # pods_of (map snd its))"
  shows "upserts T ((i, t) # its) g
    (case r of Some (Inr ts) \<Rightarrow> Some (Inr ((dgraphTargetFromPb i t)\<lparr>dt_Pod := Some (pod_from v p)\<rparr> # ts)) | _ \<Rightarrow> r) k"
  using assms(1)
proof (cases rule: upserts_cases)
  case (upd zs)
  have "stands k v p"
    using upd(4) assms(3,6) unfolding pods_effect_def by (meson list.set_intros(1) set_subset_Cons)
  then have "all_placed k (((i, t), v) # zs)" using upd(3) assms(4,5) by (simp add: all_placed_def)
  moreover have "map placed (((i, t), v) # zs) = (dgraphTargetFromPb i t)\<lparr>dt_Pod := Some (pod_from v p)\<rparr> # map placed zs"
    "map fst (((i, t), v) # zs) = (i, t) # its" using upd(2) assms(5) by simp_all
  moreover have "pods_effect T (pods_of (map snd ((i, t) # its))) g k"
    using pods_effect_Cons[OF assms(2) upd(4)] assms(5) by simp
  ultimately show ?thesis using upd(1) unfolding upserts_def by (metis option.case(2) sum.case(2))
next
  case (crash n)
  then have "pods_effect T (take (Suc n) (pods_of (map snd ((i, t) # its)))) g k"
    using pods_effect_Cons[OF assms(2) crash(2)] assms(5) by simp
  then show ?thesis using crash(1) unfolding upserts_def by auto
qed

context graph_db
begin

lemma upsert_targets_cases:
  assumes "upsert_targets D (map (\<lambda>(i, t). dgraphTargetFromPb i t) its) s = (r, s')" "sound_graph T (graph s)"
    "agree (pods_of (map snd its))" "\<And>p. p \<in> set (pods_of (map snd its)) \<Longrightarrow> proper_pod p"
  shows "upserts T its (graph s) r (graph s')"
  using assms
proof (induction its arbitrary: s r)
  case (Cons it its)
  obtain i t where it: "it = (i, t)" by fastforce
  let ?rest = "map (\<lambda>(i, t). dgraphTargetFromPb i t) its"
  have rest: "agree (pods_of (map snd its))" "\<And>q. q \<in> set (pods_of (map snd its)) \<Longrightarrow> proper_pod q"
    using Cons.prems(3,4) agree_Cons by (auto simp: it split: option.splits)
  show ?case
  proof (cases "t_Pod t")
    case None
    obtain r1 s1 where r1: "upsert_targets D ?rest s = (r1, s1)" by fastforce
    have "s1 = s'" "r = (case r1 of Some (Inr ts) \<Rightarrow> Some (Inr (dgraphTargetFromPb i t # ts)) | _ \<Rightarrow> r1)"
      using Cons.prems(1) r1 it None by (auto simp: dgraphTargetFromPb_pod split: option.splits sum.splits)
    then show ?thesis
      using upserts_skip[OF Cons.IH[OF r1[unfolded \<open>s1 = s'\<close>] Cons.prems(2) rest] None, of i] it by simp
  next
    case (Some p)
    let ?u = "''_:pod'' @ Itoa (int i)"
    have pod: "dt_Pod (dgraphTargetFromPb i t) = Some (pod_from ?u p)" by (simp add: dgraphTargetFromPb_pod Some)
    obtain rp s1 where rp: "UpsertPod D (pod_from ?u p) s = (rp, s1)" by fastforce
    have proper: "proper_pod p" using Cons.prems(4) by (simp add: it Some)
    consider (fail) "rp = None" "graph s1 = graph s \<or> pod_effect T p (graph s) (graph s1)"
      | (upd) v where "rp = Some (pod_from v p, None)" "v \<noteq> []" "stands (graph s1) v p" "pod_effect T p (graph s) (graph s1)"
      using UpsertPod_cases[OF rp Cons.prems(2) proper] by blast
    then show ?thesis
    proof cases
      case fail
      then have "r = None" "s' = s1" using Cons.prems(1) it pod rp by simp_all
      then show ?thesis using upserts_fail[OF fail(2) Some Cons.prems(2), of i its] it by simp
    next
      case (upd v)
      obtain r1 s2 where r1: "upsert_targets D ?rest s1 = (r1, s2)" by fastforce
      have "s2 = s'" "r = (case r1 of Some (Inr ts) \<Rightarrow> Some (Inr ((dgraphTargetFromPb i t)\<lparr>dt_Pod := Some (pod_from v p)\<rparr> # ts)) | _ \<Rightarrow> r1)"
        using Cons.prems(1) r1 it pod rp upd(1) by (auto split: option.splits sum.splits)
      moreover have "sound_graph T (graph s1)" using upd(4) by (simp add: pod_effect_def)
      moreover have "agree (p # pods_of (map snd its))" using Cons.prems(3) by (simp add: it Some)
      ultimately show ?thesis
        using upserts_step[OF Cons.IH[OF r1[unfolded \<open>s2 = s'\<close>] _ rest] upd(4,3,2) Some, of i] it by simp
    qed
  qed
qed (auto simp: upserts_def all_placed_def intro: pods_effect_Nil)

end

end
