(* ===== verification/EventInsert.thy ===== *)
theory EventInsert
  imports EventPods
begin

text \<open>
  The mutation that writes an event: the nodes of its JSON object, one for the event and one for each
  target with its edge to a pod, and the events that the graph holds afterwards. The last part puts
  it behind the upserts of the pods, as \<^verbatim>\<open>Add\<close> of \<^verbatim>\<open>dgraph_event_store.go\<close> does.
\<close>

section \<open>The nodes of an event\<close>

declare placed.simps [simp del]

text \<open>Members that hold no object, and that the database cannot reorder.\<close>

fun unordered :: "json \<Rightarrow> bool" where
  "unordered (JStr _) = True"
| "unordered (JArr [JStr _]) = True"
| "unordered _ = False"

definition flats :: "(string \<times> json) list \<Rightarrow> bool" where
  "flats kvs = list_all (\<lambda>(k, v). k \<noteq> ''uid'' \<and> unordered v) kvs"

lemma flats_simps [simp]:
  "flats []" "flats (xs @ ys) \<longleftrightarrow> flats xs \<and> flats ys"
  "flats (omit_types [t])" "k \<noteq> ''uid'' \<Longrightarrow> flats (omit_str k v)" "k \<noteq> ''uid'' \<Longrightarrow> flats (omit_time T k w)"
  by (auto simp: flats_def omit_types_def omit_str_def omit_time_def omit_pstr_def split: option.splits)

lemma flat_cases:
  assumes "flats kvs" "(k, v) \<in> set kvs"
  obtains x where "v = JStr x" | x where "v = JArr [JStr x]"
  using assms by (cases v rule: unordered.cases) (auto simp: flats_def list_all_iff)

lemma flats_link: "flats kvs \<Longrightarrow> map (\<lambda>(k, v). (k, link \<sigma> v)) kvs = kvs"
  by (rule map_idI) (auto elim: flat_cases)

lemma flats_nodes: "flats kvs \<Longrightarrow> concat (map (\<lambda>(k, v). nodes_of \<sigma> v) kvs) = []"
  by (auto simp: concat_eq_Nil_conv elim: flat_cases)

lemma flats_uid: "flats kvs \<Longrightarrow> filter (\<lambda>(k, v). k \<noteq> ''uid'') kvs = kvs"
  by (auto simp: flats_def list_all_iff filter_id_conv)

definition permutes_lists :: "(json list \<Rightarrow> json list) \<Rightarrow> bool" where
  "permutes_lists f \<longleftrightarrow> (\<forall>xs. mset (f xs) = mset xs)"

lemma permutes_single: "permutes_lists f \<Longrightarrow> f [x] = [x]"
  unfolding permutes_lists_def by (metis mset_single_iff_right mset_zero_iff mset.simps)

lemma flats_reorder: "flats kvs \<Longrightarrow> permutes_lists f \<Longrightarrow> map (\<lambda>(k, v). (k, reorder f v)) kvs = kvs"
  by (rule map_idI) (auto simp: permutes_single elim: flat_cases)

definition target_uid :: "nat \<Rightarrow> string" where
  "target_uid i = ''_:target'' @ Itoa (int i)"

definition target_head :: "Target \<Rightarrow> (string \<times> json) list" where
  "target_head t = (let n = dgraphTargetFromPb 0 t in omit_types [''Target''] @
     omit_str ''target_violated_processes'' (dt_ViolatedProcesses n) @
     omit_str ''target_violated_files'' (dt_ViolatedFiles n) @ omit_str ''target_falco_alert'' (dt_FalcoAlert n))"

definition target_tail :: "Target \<Rightarrow> (string \<times> json) list" where
  "target_tail t = omit_str ''tarian_detection_data_type'' (t_DetectionDataType t) @
     omit_str ''tarian_detection_data'' (t_DetectionData t)"

definition pod_member :: "(Pod \<Rightarrow> json) \<Rightarrow> Target \<Rightarrow> (string \<times> json) list" where
  "pod_member f t = (case t_Pod t of None \<Rightarrow> [] | Some p \<Rightarrow> [(''pod'', f p)])"

definition target_attrs :: "Target \<Rightarrow> string \<Rightarrow> (string \<times> json) list" where
  "target_attrs t v = target_head t @ pod_member (\<lambda>_. edge_to v) t @ target_tail t"

definition pod_nodes :: "Target \<Rightarrow> string \<Rightarrow> node list" where
  "pod_nodes t v = (case t_Pod t of None \<Rightarrow> [] | Some p \<Rightarrow> [(v, pod_members p)])"

lemma target_flats [simp]: "flats (target_head t)" "flats (target_tail t)" "flats (pod_members p)"
  by (simp_all add: target_head_def target_tail_def pod_members_def Let_def)

fun has_place :: "(nat \<times> Target) \<times> string \<Rightarrow> bool" where
  "has_place ((i, t), v) = (t_Pod t \<noteq> None \<longrightarrow> v \<noteq> [])"

text \<open>The object of a target, whose pod has a uid.\<close>

lemma marshal_placed:
  assumes "has_place ((i, t), v)"
  shows "marshal_target_node (placed ((i, t), v)) = JObj ((''uid'', JStr (target_uid i)) # target_head t @
     pod_member (\<lambda>p. JObj ((''uid'', JStr v) # pod_members p)) t @ target_tail t)"
  using assms by (cases "t_Pod t")
    (simp_all add: marshal_target_node_def dgraphTargetFromPb_def target_head_def target_tail_def target_uid_def
      pod_member_def marshal_pod_from Let_def placed.simps, simp_all add: omit_str_def)

lemma nodes_of_members:
  assumes "\<And>v. (''uid'', v) \<notin> set kvs"
  shows "nodes_of \<sigma> (JObj ((''uid'', JStr u) # kvs)) =
     (\<sigma> u, map (\<lambda>(k, v). (k, link \<sigma> v)) kvs) # concat (map (\<lambda>(k, v). nodes_of \<sigma> v) kvs)"
proof -
  have "filter (\<lambda>(k, v). k \<noteq> ''uid'') kvs = kvs" using assms by (auto simp: filter_id_conv)
  then show ?thesis by (simp add: uid_of_def)
qed

lemma flats_no_uid: "flats kvs \<Longrightarrow> (''uid'', v) \<notin> set kvs"
  by (auto simp: flats_def list_all_iff)

fun target_nodes :: "(string \<Rightarrow> string) \<Rightarrow> (nat \<times> Target) \<times> string \<Rightarrow> node list" where
  "target_nodes \<sigma> ((i, t), v) = (\<sigma> (target_uid i), target_attrs t (\<sigma> v)) # pod_nodes t (\<sigma> v)"

lemma nodes_of_placed: "has_place z \<Longrightarrow> nodes_of \<sigma> (marshal_target_node (placed z)) = target_nodes \<sigma> z"
proof (induction z rule: has_place.induct)
  case (1 i t v)
  let ?obj = "\<lambda>p. JObj ((''uid'', JStr v) # pod_members p)"
  let ?kvs = "target_head t @ pod_member ?obj t @ target_tail t"
  have "nodes_of \<sigma> (?obj p) = [(\<sigma> v, pod_members p)]" for p
    by (subst nodes_of_members) (simp_all add: flats_no_uid flats_link flats_nodes)
  then have "concat (map (\<lambda>(k, v). nodes_of \<sigma> v) ?kvs) = pod_nodes t (\<sigma> v)"
    by (cases "t_Pod t") (simp_all add: flats_nodes pod_member_def pod_nodes_def del: nodes_of.simps)
  moreover have "map (\<lambda>(k, v). (k, link \<sigma> v)) ?kvs = target_attrs t (\<sigma> v)"
    by (cases "t_Pod t") (simp_all add: flats_link pod_member_def target_attrs_def uid_of_def)
  moreover have "(''uid'', x) \<notin> set ?kvs" for x
    by (cases "t_Pod t") (simp_all add: flats_no_uid pod_member_def)
  ultimately show ?case using nodes_of_members[of ?kvs \<sigma> "target_uid i"] unfolding marshal_placed[OF 1] by (simp del: nodes_of.simps)
qed

lemma reorder_placed:
  assumes "has_place z" "permutes_lists f"
  shows "reorder f (marshal_target_node (placed z)) = marshal_target_node (placed z)"
proof (cases z rule: has_place.cases)
  case (1 i t v)
  have "reorder f (JObj ((''uid'', JStr v) # pod_members p)) = JObj ((''uid'', JStr v) # pod_members p)" for p
    by (simp add: flats_reorder assms(2))
  then show ?thesis unfolding 1 marshal_placed[OF assms(1)[unfolded 1]]
    by (cases "t_Pod t") (simp_all add: assms(2) flats_reorder pod_member_def)
qed

definition event_attrs :: "time_codec \<Rightarrow> Event \<Rightarrow> (string \<times> json) list" where
  "event_attrs T e = omit_types [''Event''] @ omit_str ''event_type'' (e_Type e) @ omit_str ''event_uid'' (e_Uid e) @
     omit_time T ''event_client_timestamp'' (e_ClientTimestamp e) @
     omit_time T ''event_server_timestamp'' (e_ServerTimestamp e) @ omit_time T ''event_alert_sent_at'' (e_AlertSentAt e)"

definition event_json :: "time_codec \<Rightarrow> Event \<Rightarrow> ((nat \<times> Target) \<times> string) list \<Rightarrow> json" where
  "event_json T e zs = marshal_event_node T ((dgraphEventFromPb e)\<lparr>dev_Targets := map placed zs\<rparr>)"

definition target_edges :: "(string \<Rightarrow> string) \<Rightarrow> ((nat \<times> Target) \<times> string) list \<Rightarrow> (string \<times> json) list" where
  "target_edges \<sigma> zs = (if zs = [] then [] else [(''targets'', JArr (map (\<lambda>z. edge_to (\<sigma> (target_uid (fst (fst z))))) zs))])"

definition event_members :: "time_codec \<Rightarrow> Event \<Rightarrow> (string \<Rightarrow> string) \<Rightarrow> ((nat \<times> Target) \<times> string) list \<Rightarrow> (string \<times> json) list" where
  "event_members T e \<sigma> zs = event_attrs T e @ target_edges \<sigma> zs"

lemma event_flats [simp]: "flats (event_attrs T e)"
  by (simp add: event_attrs_def)

lemma event_json_members: "event_json T e zs = JObj ((''uid'', JStr ''_:event'') # event_attrs T e @
    omit_list ''targets'' marshal_target_node (Some (map placed zs)))"
  by (simp add: event_json_def marshal_event_node_def dgraphEventFromPb_def event_attrs_def) (simp add: omit_str_def)

lemma nodes_of_event:
  assumes "\<And>z. z \<in> set zs \<Longrightarrow> has_place z"
  shows "nodes_of \<sigma> (event_json T e zs) =
     (\<sigma> ''_:event'', event_members T e \<sigma> zs) # concat (map (target_nodes \<sigma>) zs)"
proof -
  let ?kvs = "event_attrs T e @ omit_list ''targets'' marshal_target_node (Some (map placed zs))"
  have "map (\<lambda>z. nodes_of \<sigma> (marshal_target_node (placed z))) zs = map (target_nodes \<sigma>) zs"
    using assms nodes_of_placed by auto
  then have "concat (map (\<lambda>(k, v). nodes_of \<sigma> v) ?kvs) = concat (map (target_nodes \<sigma>) zs)"
    by (simp add: flats_nodes omit_list_def comp_def del: map_eq_conv)
  moreover have "link \<sigma> (marshal_target_node (placed z)) = edge_to (\<sigma> (target_uid (fst (fst z))))" if "z \<in> set zs" for z
  proof (cases z rule: has_place.cases)
    case (1 i t v)
    show ?thesis unfolding 1 marshal_placed[OF assms[OF that, unfolded 1]] by (simp add: uid_of_def)
  qed
  then have "map (\<lambda>(k, v). (k, link \<sigma> v)) ?kvs = event_members T e \<sigma> zs"
    by (simp add: flats_link omit_list_def target_edges_def event_members_def)
  moreover have "(''uid'', x) \<notin> set ?kvs" for x by (simp add: flats_no_uid omit_list_def)
  ultimately show ?thesis unfolding event_json_members using nodes_of_members[of ?kvs \<sigma>] by (simp del: nodes_of.simps)
qed

text \<open>In another order, the object is that of the event with its targets in another order.\<close>

lemma mset_map_perm: "mset ys = mset (map h xs) \<Longrightarrow> \<exists>xs'. mset xs' = mset xs \<and> ys = map h xs'"
proof (induction ys arbitrary: xs)
  case (Cons y ys)
  then have "y \<in># image_mset h (mset xs)" by (metis list.set_intros(1) mset_map set_mset_mset)
  then obtain x where x: "x \<in> set xs" "y = h x" by auto
  then obtain zs where zs: "mset xs = mset (x # zs)" by (metis ex_mset mset.simps(2) multi_member_split set_mset_mset)
  have "mset (y # ys) = image_mset h (mset (x # zs))" using Cons.prems by (simp only: zs[symmetric] mset_map)
  then have "mset ys = mset (map h zs)" using x(2) by simp
  from Cons.IH[OF this] obtain xs' where "mset xs' = mset zs" "ys = map h xs'" by blast
  then show ?case using x(2) zs by (intro exI[of _ "x # xs'"]) simp
qed simp

lemma reorder_event:
  assumes "\<And>z. z \<in> set zs \<Longrightarrow> has_place z" "permutes_lists f"
  obtains zs' where "mset zs' = mset zs" "reorder f (event_json T e zs) = event_json T e zs'"
proof -
  let ?h = "\<lambda>z. marshal_target_node (placed z)"
  have "mset (f (map ?h zs)) = mset (map ?h zs)" using assms(2) by (simp add: permutes_lists_def)
  then obtain zs' where zs': "mset zs' = mset zs" "f (map ?h zs) = map ?h zs'" using mset_map_perm by blast
  have "map (reorder f \<circ> ?h) zs = map ?h zs" using assms reorder_placed by auto
  then have "reorder f (event_json T e zs) = event_json T e zs'"
    using zs' mset_zero_iff[of zs] mset_zero_iff[of zs']
    by (cases "zs = []") (auto simp: event_json_members omit_list_def flats_reorder assms(2) comp_def simp del: map_eq_conv)
  with zs'(1) show thesis by (rule that)
qed

section \<open>The graph after the write\<close>

text \<open>The uids that the new nodes get, for targets whose pods stand in the graph.\<close>

definition new_uids :: "(string \<Rightarrow> string) \<Rightarrow> ((nat \<times> Target) \<times> string) list \<Rightarrow> node list \<Rightarrow> bool" where
  "new_uids \<sigma> zs g \<longleftrightarrow> \<sigma> ''_:event'' \<notin> fst ` set g \<and> all_placed g zs \<and>
     (\<forall>z\<in>set zs. \<sigma> (target_uid (fst (fst z))) \<notin> fst ` set g \<and> \<sigma> (target_uid (fst (fst z))) \<noteq> \<sigma> ''_:event'' \<and>
        (t_Pod (snd (fst z)) \<noteq> None \<longrightarrow> \<sigma> (snd z) = snd z) \<and>
        (\<forall>z'\<in>set zs. \<sigma> (target_uid (fst (fst z))) = \<sigma> (target_uid (fst (fst z'))) \<longrightarrow> z = z'))"

lemma new_uidsD:
  assumes "new_uids \<sigma> zs g"
  shows "\<sigma> ''_:event'' \<notin> fst ` set g" "all_placed g zs"
    "((i, t), v) \<in> set zs \<Longrightarrow> \<sigma> (target_uid i) \<notin> fst ` set g"
    "((i, t), v) \<in> set zs \<Longrightarrow> \<sigma> (target_uid i) \<noteq> \<sigma> ''_:event''"
    "((i, t), v) \<in> set zs \<Longrightarrow> t_Pod t = Some p \<Longrightarrow> \<sigma> v = v"
    "((i, t), v) \<in> set zs \<Longrightarrow> t_Pod t = Some p \<Longrightarrow> stands g v p"
    "((i, t), v) \<in> set zs \<Longrightarrow> ((i', t'), v') \<in> set zs \<Longrightarrow> \<sigma> (target_uid i) = \<sigma> (target_uid i') \<Longrightarrow>
       ((i, t), v) = ((i', t'), v')"
proof -
  note d = assms[unfolded new_uids_def all_placed_def]
  show "\<sigma> ''_:event'' \<notin> fst ` set g" "all_placed g zs" using assms unfolding new_uids_def by blast+
  assume z: "((i, t), v) \<in> set zs"
  from d z show "\<sigma> (target_uid i) \<notin> fst ` set g" "\<sigma> (target_uid i) \<noteq> \<sigma> ''_:event''" by (metis fst_conv)+
  from d z show "t_Pod t = Some p \<Longrightarrow> \<sigma> v = v" "t_Pod t = Some p \<Longrightarrow> stands g v p"
    by (metis fst_conv snd_conv option.distinct(1))+
  from d z show "((i', t'), v') \<in> set zs \<Longrightarrow> \<sigma> (target_uid i) = \<sigma> (target_uid i') \<Longrightarrow> ((i, t), v) = ((i', t'), v')"
    by (metis fst_conv)
qed

definition event_nodes :: "time_codec \<Rightarrow> (string \<Rightarrow> string) \<Rightarrow> Event \<Rightarrow> ((nat \<times> Target) \<times> string) list \<Rightarrow> node list" where
  "event_nodes T \<sigma> e zs = (\<sigma> ''_:event'', event_members T e \<sigma> zs) # concat (map (target_nodes \<sigma>) zs)"

lemma event_nodes_cases:
  assumes "n \<in> set (event_nodes T \<sigma> e zs)" "new_uids \<sigma> zs g"
  obtains (event) "n = (\<sigma> ''_:event'', event_members T e \<sigma> zs)"
  | (target) i t v where "((i, t), v) \<in> set zs" "n = (\<sigma> (target_uid i), target_attrs t v)"
  | (pod) i t v p where "((i, t), v) \<in> set zs" "t_Pod t = Some p" "n = (v, pod_members p)" "stands g v p"
proof (cases "n = (\<sigma> ''_:event'', event_members T e \<sigma> zs)")
  case False
  then obtain i t v where z: "((i, t), v) \<in> set zs" "n \<in> set (target_nodes \<sigma> ((i, t), v))"
    using assms(1) by (auto simp: event_nodes_def)
  note v = new_uidsD(5)[OF assms(2) z(1)] and st = new_uidsD(6)[OF assms(2) z(1)]
  show thesis
  proof (cases "t_Pod t")
    case None
    then show thesis using target[OF z(1)] z(2) by (simp add: target_attrs_def pod_member_def pod_nodes_def)
  next
    case (Some p)
    then have "n = (\<sigma> (target_uid i), target_attrs t v) \<or> n = (v, pod_members p)"
      using z(2) v by (simp add: pod_nodes_def)
    then show thesis using target[OF z(1)] pod[OF z(1) Some _ st[OF Some]] by blast
  qed
qed (rule event)

text \<open>Existing nodes keep their attributes, the new ones have those of their objects.\<close>

lemma attr_old:
  assumes "new_uids \<sigma> zs g" "w \<in> fst ` set g"
  shows "attr (set_nodes (event_nodes T \<sigma> e zs) g) w k = attr g w k"
proof (cases "w \<in> fst ` set (event_nodes T \<sigma> e zs)")
  case True
  then obtain n where n: "n \<in> set (event_nodes T \<sigma> e zs)" "fst n = w" by auto
  have only: "\<exists>p. m = (w, pod_members p) \<and> stands g w p" if "m \<in> set (event_nodes T \<sigma> e zs)" "fst m = w" for m
    using that(1) assms(1)
  proof (cases rule: event_nodes_cases)
    case (target i t v)
    then show ?thesis using that(2) assms(2) new_uidsD(3)[OF assms(1) target(1)] by simp
  qed (use that(2) assms(2) new_uidsD(1)[OF assms(1)] in auto)
  obtain p where p: "n = (w, pod_members p)" "stands g w p" using only[OF n] by blast
  have "snd m = pod_members p" if "m \<in> set (event_nodes T \<sigma> e zs)" "fst m = w" for m
    using only[OF that] p(2) by (auto simp: stands_def)
  then have "attr (set_nodes (event_nodes T \<sigma> e zs) g) w k =
      (case map_of (pod_members p) k of None \<Rightarrow> attr g w k | Some v \<Rightarrow> Some (join (attr g w k) v))"
    using True by (intro attr_set_nodes) auto
  moreover have "Some (join (attr g w k) x) = attr g w k" if "map_of (pod_members p) k = Some x" for x
    using p(2) that unfolding stands_def carries_def by fastforce
  ultimately show ?thesis by (cases "map_of (pod_members p) k") simp_all
qed (simp add: attr_set_nodes_other)

lemma attr_new_node:
  assumes "n \<in> set ns" "\<And>m. m \<in> set ns \<Longrightarrow> fst m = fst n \<Longrightarrow> m = n" "fst n \<notin> fst ` set g"
  shows "attr (set_nodes ns g) (fst n) k = map_of (snd n) k"
proof -
  have "attr (set_nodes ns g) (fst n) k =
      (case map_of (snd n) k of None \<Rightarrow> attr g (fst n) k | Some v \<Rightarrow> Some (join (attr g (fst n) k) v))"
    using assms(1,2) by (intro attr_set_nodes) auto
  then show ?thesis by (simp add: attr_new[OF assms(3)] split: option.splits)
qed

lemma attr_event:
  assumes "new_uids \<sigma> zs g"
  shows "attr (set_nodes (event_nodes T \<sigma> e zs) g) (\<sigma> ''_:event'') k = map_of (event_members T e \<sigma> zs) k"
proof -
  let ?n = "(\<sigma> ''_:event'', event_members T e \<sigma> zs)"
  have only: "m = ?n" if "m \<in> set (event_nodes T \<sigma> e zs)" "fst m = \<sigma> ''_:event''" for m
    using that(1) assms
  proof (cases rule: event_nodes_cases)
    case (target i t v)
    then show ?thesis using that(2) new_uidsD(4)[OF assms target(1)] by simp
  next
    case (pod i t v p)
    then show ?thesis using that(2) new_uidsD(1)[OF assms] stands_in_graph[OF pod(4)] by simp
  qed
  have mem: "?n \<in> set (event_nodes T \<sigma> e zs)" by (simp add: event_nodes_def)
  show ?thesis by (rule attr_new_node[OF mem, unfolded fst_conv snd_conv]) (fact only new_uidsD(1)[OF assms])+
qed

lemma attr_target:
  assumes "new_uids \<sigma> zs g" "((i, t), v) \<in> set zs"
  shows "attr (set_nodes (event_nodes T \<sigma> e zs) g) (\<sigma> (target_uid i)) k = map_of (target_attrs t v) k"
proof -
  let ?n = "(\<sigma> (target_uid i), target_attrs t v)"
  note new = new_uidsD(3,4,7)[OF assms]
  have v: "t_Pod t = None \<or> \<sigma> v = v" using new_uidsD(5)[OF assms] by (cases "t_Pod t") auto
  have only: "m = ?n" if "m \<in> set (event_nodes T \<sigma> e zs)" "fst m = \<sigma> (target_uid i)" for m
    using that(1) assms(1)
  proof (cases rule: event_nodes_cases)
    case (target i' t' v')
    have "((i, t), v) = ((i', t'), v')" by (rule new(3)[OF target(1)]) (use that(2) target(2) in simp)
    with target(2) show ?thesis by simp
  next
    case (pod i t v p)
    then show ?thesis using that(2) new(1) stands_in_graph by fastforce
  qed (use new(2) that(2) in auto)
  have mem: "?n \<in> set (event_nodes T \<sigma> e zs)"
  proof -
    have "?n \<in> set (target_nodes \<sigma> ((i, t), v))" using v by (elim disjE) (simp_all add: target_attrs_def pod_member_def)
    then show ?thesis using assms(2) unfolding event_nodes_def by (auto intro!: bexI[of _ "((i, t), v)"])
  qed
  show ?thesis by (rule attr_new_node[OF mem, unfolded fst_conv snd_conv]) (fact only new(1))+
qed

lemma attr_rest:
  assumes "new_uids \<sigma> zs g" "w \<notin> fst ` set g" "w \<noteq> \<sigma> ''_:event''" "\<And>z. z \<in> set zs \<Longrightarrow> w \<noteq> \<sigma> (target_uid (fst (fst z)))"
  shows "attr (set_nodes (event_nodes T \<sigma> e zs) g) w k = None"
proof -
  have "fst m \<noteq> w" if "m \<in> set (event_nodes T \<sigma> e zs)" for m
    using that assms(1)
  proof (cases rule: event_nodes_cases)
    case (target i t v)
    then show ?thesis using assms(4)[of "((i, t), v)"] by auto
  next
    case (pod i t v p)
    then show ?thesis using assms(2) stands_in_graph by auto
  qed (use assms(3) in auto)
  then have "w \<notin> fst ` set (event_nodes T \<sigma> e zs)" by auto
  then show ?thesis by (simp add: attr_set_nodes_other attr_new[OF assms(2)])
qed

section \<open>The event that was written\<close>

definition keeps_time :: "time_codec \<Rightarrow> Timestamp option \<Rightarrow> bool" where
  "keeps_time T t = (case t of None \<Rightarrow> True | Some x \<Rightarrow> tc_parse T (tc_format T x) = Some x)"

text \<open>
  The events that the store can keep: times that can be read back, Falco alerts without repeated
  fields, a name and a namespace for every pod that has a uid, and no two versions of a pod.
\<close>

definition storable :: "time_codec \<Rightarrow> Event \<Rightarrow> bool" where
  "storable T e \<longleftrightarrow> keeps_time T (e_ClientTimestamp e) \<and> keeps_time T (e_ServerTimestamp e) \<and> keeps_time T (e_AlertSentAt e) \<and>
     list_all proper_alert (elems (e_Targets e)) \<and> list_all proper_pod (pods_of (elems (e_Targets e))) \<and>
     agree (pods_of (elems (e_Targets e)))"

lemma map_of_omits:
  "map_of (omit_str k v @ kvs) j = (if j = k \<and> v \<noteq> [] then Some (JStr v) else map_of kvs j)"
  "map_of (omit_str k v) j = (if j = k \<and> v \<noteq> [] then Some (JStr v) else None)"
  "map_of (omit_types [ty] @ kvs) j = (if j = ''dgraph.type'' then Some (JArr [JStr ty]) else map_of kvs j)"
  "map_of (omit_time T k w @ kvs) j = (if j = k \<and> w \<noteq> None then map_option (\<lambda>t. JStr (tc_format T t)) w else map_of kvs j)"
  "map_of (pod_member f t @ kvs) j = (if j = ''pod'' \<and> t_Pod t \<noteq> None then map_option f (t_Pod t) else map_of kvs j)"
  by (cases w; cases "t_Pod t"; simp add: omit_str_def omit_types_def omit_time_def omit_pstr_def pod_member_def)+

lemma target_index:
  "dt_ViolatedProcesses (dgraphTargetFromPb i t) = dt_ViolatedProcesses (dgraphTargetFromPb 0 t)"
  "dt_ViolatedFiles (dgraphTargetFromPb i t) = dt_ViolatedFiles (dgraphTargetFromPb 0 t)"
  "dt_FalcoAlert (dgraphTargetFromPb i t) = dt_FalcoAlert (dgraphTargetFromPb 0 t)"
  by (simp_all add: dgraphTargetFromPb_def)

lemma map_of_target_attrs:
  "map_of (target_attrs t v) ''dgraph.type'' = Some (JArr [JStr ''Target''])"
  "map_of (target_attrs t v) ''pod'' = map_option (\<lambda>_. edge_to v) (t_Pod t)"
  "map_of (target_attrs t v) ''target_violated_processes'' =
     (let x = dt_ViolatedProcesses (dgraphTargetFromPb i t) in if x = [] then None else Some (JStr x))"
  "map_of (target_attrs t v) ''target_violated_files'' =
     (let x = dt_ViolatedFiles (dgraphTargetFromPb i t) in if x = [] then None else Some (JStr x))"
  "map_of (target_attrs t v) ''target_falco_alert'' =
     (let x = dt_FalcoAlert (dgraphTargetFromPb i t) in if x = [] then None else Some (JStr x))"
  "k \<in> {''pod_uid'', ''targets'', ''event_client_timestamp'', ''event_server_timestamp'', ''event_alert_sent_at''} \<Longrightarrow>
     map_of (target_attrs t v) k = None"
  unfolding target_attrs_def target_head_def target_tail_def Let_def append_assoc target_index[of i]
  by (auto simp: map_of_omits simp del: map_of_append)

lemma map_of_event_attrs:
  "map_of (event_members T e \<sigma> zs) ''dgraph.type'' = Some (JArr [JStr ''Event''])"
  "map_of (event_members T e \<sigma> zs) ''event_type'' = (if e_Type e = [] then None else Some (JStr (e_Type e)))"
  "map_of (event_members T e \<sigma> zs) ''event_uid'' = (if e_Uid e = [] then None else Some (JStr (e_Uid e)))"
  "map_of (event_members T e \<sigma> zs) ''event_client_timestamp'' = map_option (\<lambda>t. JStr (tc_format T t)) (e_ClientTimestamp e)"
  "map_of (event_members T e \<sigma> zs) ''event_server_timestamp'' = map_option (\<lambda>t. JStr (tc_format T t)) (e_ServerTimestamp e)"
  "map_of (event_members T e \<sigma> zs) ''event_alert_sent_at'' = map_option (\<lambda>t. JStr (tc_format T t)) (e_AlertSentAt e)"
  "map_of (event_members T e \<sigma> zs) ''targets'' =
     (if zs = [] then None else Some (JArr (map edge_to (map (\<lambda>z. \<sigma> (target_uid (fst (fst z)))) zs))))"
  "map_of (event_members T e \<sigma> zs) ''pod'' = None" "map_of (event_members T e \<sigma> zs) ''pod_uid'' = None"
  unfolding event_members_def event_attrs_def append_assoc
  by (auto simp: map_of_omits target_edges_def simp del: map_of_append)

lemma toPbTarget_eq:
  assumes "dt_ViolatedProcesses a = dt_ViolatedProcesses b" "dt_ViolatedFiles a = dt_ViolatedFiles b"
    "dt_FalcoAlert a = dt_FalcoAlert b" "map_option pod_of (dt_Pod a) = map_option pod_of (dt_Pod b)"
  shows "toPbTarget a = toPbTarget b"
proof -
  have "toPbTarget (a\<lparr>dt_Pod := None\<rparr>) = toPbTarget (b\<lparr>dt_Pod := None\<rparr>)"
    using assms(1-3) by (simp add: toPbTarget_def zero_Target_def Let_def)
  then show ?thesis using assms(4) by (simp add: toPbTarget_pod[of a] toPbTarget_pod[of b])
qed

lemma written_target:
  assumes "new_uids \<sigma> zs g" "((i, t), v) \<in> set zs" "proper_alert t"
  shows "toPbTarget (node_target (set_nodes (event_nodes T \<sigma> e zs) g) (\<sigma> (target_uid i))) = stored_target t"
proof -
  let ?h = "set_nodes (event_nodes T \<sigma> e zs) g" and ?w = "\<sigma> (target_uid i)"
  note attr = attr_target[OF assms(1,2), of T e]
  have "astr ?h ?w ''target_violated_processes'' = dt_ViolatedProcesses (dgraphTargetFromPb i t)"
    "astr ?h ?w ''target_violated_files'' = dt_ViolatedFiles (dgraphTargetFromPb i t)"
    "astr ?h ?w ''target_falco_alert'' = dt_FalcoAlert (dgraphTargetFromPb i t)"
    by (simp_all add: astr_def attr map_of_target_attrs(3-5)[where i = i] Let_def)
  moreover have "pod_of (node_pod ?h v) = p" if "t_Pod t = Some p" for p
  proof -
    note st = new_uidsD(6)[OF assms(1,2) that]
    have "attr ?h v k = attr g v k" for k by (rule attr_old[OF assms(1) stands_in_graph[OF st]])
    then have "stands ?h v p = stands g v p" by (rule stands_cong)
    with st show ?thesis by (simp add: stands_def)
  qed
  then have "map_option pod_of (dt_Pod (node_target ?h ?w)) = map_option pod_of (dt_Pod (dgraphTargetFromPb i t))"
    by (cases "t_Pod t") (simp_all add: node_target_def attr map_of_target_attrs dgraphTargetFromPb_pod)
  ultimately have "toPbTarget (node_target ?h ?w) = toPbTarget (dgraphTargetFromPb i t)"
    by (intro toPbTarget_eq) (simp_all add: node_target_def)
  then show ?thesis by (simp add: target_roundtrip[OF assms(3)])
qed

lemma written_event:
  assumes "new_uids \<sigma> zs g" "keeps_time T (e_ClientTimestamp e)" "keeps_time T (e_ServerTimestamp e)"
    "keeps_time T (e_AlertSentAt e)" "\<And>z. z \<in> set zs \<Longrightarrow> proper_alert (snd (fst z))"
  shows "graph_event T (set_nodes (event_nodes T \<sigma> e zs) g) (\<sigma> ''_:event'') =
    stored_event (e\<lparr>e_Targets := Some (map (snd \<circ> fst) zs)\<rparr>)"
proof -
  let ?h = "set_nodes (event_nodes T \<sigma> e zs) g" and ?u = "\<sigma> ''_:event''"
  note attr = attr_event[OF assms(1), of T e]
  have strs: "astr ?h ?u ''event_type'' = e_Type e" "astr ?h ?u ''event_uid'' = e_Uid e"
    by (simp_all add: astr_def attr map_of_event_attrs)
  have times: "atime T ?h ?u ''event_client_timestamp'' = e_ClientTimestamp e"
    "atime T ?h ?u ''event_server_timestamp'' = e_ServerTimestamp e" "atime T ?h ?u ''event_alert_sent_at'' = e_AlertSentAt e"
    using assms(2-4) by (auto simp: atime_def attr map_of_event_attrs keeps_time_def split: option.splits)
  have links: "links ?h ?u = map (\<lambda>z. \<sigma> (target_uid (fst (fst z)))) zs"
    by (simp add: links_def attr map_of_event_attrs del: map_map)
  have "toPbTarget (node_target ?h (\<sigma> (target_uid (fst (fst z))))) = stored_target (snd (fst z))" if "z \<in> set zs" for z
    using written_target[OF assms(1), of "fst (fst z)" "snd (fst z)" "snd z"] that assms(5) by simp
  then show ?thesis
    by (simp add: graph_event_def toPbEvent_def node_event_def strs times links stored_event_def NewEvent_def)
qed

lemma old_event:
  assumes "new_uids \<sigma> zs g" "sound_graph T g" "u \<in> fst ` set g"
  shows "graph_event T (set_nodes (event_nodes T \<sigma> e zs) g) u = graph_event T g u"
proof -
  let ?h = "set_nodes (event_nodes T \<sigma> e zs) g"
  have old: "attr ?h w k = attr g w k" if "w \<in> fst ` set g" for w k by (rule attr_old[OF assms(1) that])
  have keys: "w \<in> fst ` set g" if "attr g w ''dgraph.type'' \<noteq> None" for w using that attr_SomeD by fastforce
  have "node_target ?h w = node_target g w" if "w \<in> set (links g u)" for w
  proof -
    have w: "w \<in> fst ` set g"
      using that sound_graphD(3)[OF assms(2), of u] keys by (cases "attr g u ''targets''") (auto simp: links_def)
    show ?thesis
    proof (rule node_target_cong)
      fix v
      assume "Option.bind (attr g w ''pod'') edge = Some v"
      then have "v \<in> fst ` set g" using sound_graphD(2)[OF assms(2), of w] keys by (cases "attr g w ''pod''") auto
      then show "node_pod ?h v = node_pod g v" by (simp add: node_pod_def astr_def old)
    qed (rule old[OF w])
  qed
  moreover have "links ?h u = links g u" by (simp add: links_def old assms(3))
  ultimately show ?thesis
    by (simp add: graph_event_def toPbEvent_def node_event_def astr_def atime_def old assms(3))
qed

lemma attr_written_cases:
  assumes "new_uids \<sigma> zs g"
  obtains (old) "w \<in> fst ` set g" "w \<noteq> \<sigma> ''_:event''" "\<And>k. attr (set_nodes (event_nodes T \<sigma> e zs) g) w k = attr g w k"
  | (event) "w = \<sigma> ''_:event''" "w \<notin> fst ` set g" "\<And>k. attr (set_nodes (event_nodes T \<sigma> e zs) g) w k = map_of (event_members T e \<sigma> zs) k"
  | (target) i t v where "((i, t), v) \<in> set zs" "w \<notin> fst ` set g" "w = \<sigma> (target_uid i)" "w \<noteq> \<sigma> ''_:event''"
      "\<And>k. attr (set_nodes (event_nodes T \<sigma> e zs) g) w k = map_of (target_attrs t v) k"
  | (none) "w \<notin> fst ` set g" "w \<noteq> \<sigma> ''_:event''" "\<And>k. attr (set_nodes (event_nodes T \<sigma> e zs) g) w k = None"
proof (cases "w \<in> fst ` set g")
  case True
  then have "w \<noteq> \<sigma> ''_:event''" using new_uidsD(1)[OF assms] by blast
  with True show thesis using attr_old[OF assms True] by (rule old)
next
  case False
  show thesis
  proof (cases "w = \<sigma> ''_:event''")
    case True
    show thesis by (rule event[OF True False]) (simp add: True attr_event[OF assms])
  next
    case ev: False
    show thesis
    proof (cases "\<exists>z\<in>set zs. w = \<sigma> (target_uid (fst (fst z)))")
      case True
      then obtain i t v where z: "((i, t), v) \<in> set zs" "w = \<sigma> (target_uid i)" by auto
      show thesis by (rule target[OF z(1) False z(2) ev]) (simp add: z(2) attr_target[OF assms z(1)])
    next
      case no: False
      show thesis by (rule none[OF False ev], rule attr_rest[OF assms False ev]) (use no in blast)
    qed
  qed
qed

lemma sound_written:
  assumes "new_uids \<sigma> zs g" "sound_graph T g" "keeps_time T (e_ClientTimestamp e)" "keeps_time T (e_ServerTimestamp e)"
    "keeps_time T (e_AlertSentAt e)"
  shows "sound_graph T (set_nodes (event_nodes T \<sigma> e zs) g)"
proof -
  let ?h = "set_nodes (event_nodes T \<sigma> e zs) g"
  note cases = attr_written_cases[OF assms(1), of _ T e]
  have keep: "attr ?h v ''dgraph.type'' \<noteq> None" if "attr g v ''dgraph.type'' \<noteq> None" for v
  proof -
    obtain j where "attr g v ''dgraph.type'' = Some j" using \<open>attr g v ''dgraph.type'' \<noteq> None\<close> by auto
    with attr_old[OF assms(1) attr_SomeD[OF this]] show ?thesis by simp
  qed
  have "attr ?h u ''pod_uid'' \<noteq> Some (JStr [])" for u
    by (rule cases[of u]) (use sound_graphD(1)[OF assms(2)] in \<open>auto simp: map_of_event_attrs map_of_target_attrs\<close>)
  moreover have "\<exists>v. r = edge_to v \<and> attr ?h v ''dgraph.type'' \<noteq> None" if r: "attr ?h u ''pod'' = Some r" for u r
  proof (rule cases[of u])
    assume "\<And>k. attr ?h u k = attr g u k"
    then show ?thesis using sound_graphD(2)[OF assms(2)] r keep by metis
  next
    fix i t v
    assume z: "((i, t), v) \<in> set zs" "\<And>k. attr ?h u k = map_of (target_attrs t v) k"
    then obtain p where p: "t_Pod t = Some p" "r = edge_to v" using r by (auto simp: map_of_target_attrs)
    from keep[OF stands_typed[OF new_uidsD(6)[OF assms(1) z(1) p(1)]]] p(2) show ?thesis by blast
  qed (use r in \<open>auto simp: map_of_event_attrs\<close>)
  moreover have "\<exists>vs. r = JArr (map edge_to vs) \<and> (\<forall>v\<in>set vs. attr ?h v ''dgraph.type'' \<noteq> None)"
    if r: "attr ?h u ''targets'' = Some r" for u r
  proof (rule cases[of u])
    assume "\<And>k. attr ?h u k = attr g u k"
    then show ?thesis using sound_graphD(3)[OF assms(2)] r keep by metis
  next
    assume "\<And>k. attr ?h u k = map_of (event_members T e \<sigma> zs) k"
    then have "r = JArr (map edge_to (map (\<lambda>z. \<sigma> (target_uid (fst (fst z)))) zs))"
      using r by (simp add: map_of_event_attrs split: if_splits)
    moreover have "attr ?h v ''dgraph.type'' \<noteq> None" if "v \<in> set (map (\<lambda>z. \<sigma> (target_uid (fst (fst z)))) zs)" for v
    proof -
      have "\<exists>i t w. ((i, t), w) \<in> set zs \<and> v = \<sigma> (target_uid i)" using that by auto metis
      then show ?thesis using attr_target[OF assms(1), of _ _ _ T e "''dgraph.type''"] by (auto simp: map_of_target_attrs)
    qed
    ultimately show ?thesis by blast
  qed (use r in \<open>auto simp: map_of_target_attrs\<close>)
  moreover have "\<exists>s t. r = JStr s \<and> tc_parse T s = Some t"
    if k: "k \<in> {''event_client_timestamp'', ''event_server_timestamp'', ''event_alert_sent_at''}" and r: "attr ?h u k = Some r" for u k r
  proof (rule cases[of u])
    assume "\<And>k. attr ?h u k = attr g u k"
    then show ?thesis using sound_graphD(4)[OF assms(2) k] r by simp
  next
    assume "\<And>k. attr ?h u k = map_of (event_members T e \<sigma> zs) k"
    then show ?thesis using r k assms(3-5) by (auto simp: map_of_event_attrs keeps_time_def)
  qed (use r k in \<open>auto simp: map_of_target_attrs\<close>)
  ultimately show ?thesis unfolding sound_graph_def by blast
qed

lemma typed_written:
  assumes "new_uids \<sigma> zs g"
  shows "typed ''Event'' (set_nodes (event_nodes T \<sigma> e zs) g) w \<longleftrightarrow> w = \<sigma> ''_:event'' \<or> typed ''Event'' g w"
  by (rule attr_written_cases[OF assms, of w T e])
    (use typed_in_graph[of "''Event''" g w] in \<open>simp add: typed_def map_of_event_attrs map_of_target_attrs; blast?\<close>)+

lemma events_written:
  assumes "new_uids \<sigma> zs g" "sound_graph T g" "storable T e" "\<And>z. z \<in> set zs \<Longrightarrow> proper_alert (snd (fst z))"
    "attr h = attr (set_nodes (event_nodes T \<sigma> e zs) g)" "distinct (map fst g)" "distinct (map fst h)"
  shows "sound_graph T h \<and> events T h = add_mset (stored_event (e\<lparr>e_Targets := Some (map (snd \<circ> fst) zs)\<rparr>)) (events T g)"
proof -
  let ?h = "set_nodes (event_nodes T \<sigma> e zs) g" and ?u = "\<sigma> ''_:event''"
  note time = assms(3)[unfolded storable_def]
  have typed: "{w. typed ''Event'' h w} = insert ?u {w. typed ''Event'' g w}"
    using typed_written[OF assms(1), of T e] by (auto simp: typed_def assms(5))
  have fin: "finite {w. typed ''Event'' g w}" "?u \<notin> {w. typed ''Event'' g w}"
    using typed_in_graph[of "''Event''" g] new_uidsD(1)[OF assms(1)] by (auto intro: finite_subset[of _ "fst ` set g"])
  have ev: "graph_event T h = graph_event T ?h" by (simp add: graph_event_def[abs_def] node_event_cong[OF assms(5)])
  have new: "graph_event T h ?u = stored_event (e\<lparr>e_Targets := Some (map (snd \<circ> fst) zs)\<rparr>)"
    using written_event[OF assms(1), of T e] time assms(4) by (simp add: ev)
  have old: "image_mset (graph_event T h) (mset_set {w. typed ''Event'' g w}) = events T g"
    unfolding events_set[OF assms(6)]
    by (rule image_mset_cong) (use old_event[OF assms(1,2)] typed_in_graph fin(1) in \<open>auto simp: ev\<close>)
  have "sound_graph T h"
    using sound_written[OF assms(1,2)] time sound_graph_cong[OF assms(5)] by simp
  then show ?thesis unfolding events_set[OF assms(7)] typed mset_set.insert[OF fin] image_mset_add_mset new old by blast
qed

section \<open>Adding an event\<close>

lemma placed_has_place: "all_placed g zs \<Longrightarrow> z \<in> set zs \<Longrightarrow> has_place z"
  by (cases z rule: has_place.cases) (fastforce simp: all_placed_def)

lemma all_placed_perm: "all_placed g zs \<Longrightarrow> set zs' = set zs \<Longrightarrow> all_placed g zs'"
  by (simp add: all_placed_def)

lemma target_uid_inj: "target_uid i = target_uid j \<longleftrightarrow> i = j"
  by (simp add: target_uid_def Itoa_inj)

lemma enumerate_index:
  "map fst zs = enumerate n ts \<Longrightarrow> z \<in> set zs \<Longrightarrow> z' \<in> set zs \<Longrightarrow> fst (fst z) = fst (fst z') \<Longrightarrow> z = z'"
proof -
  assume zs: "map fst zs = enumerate n ts" and "z \<in> set zs" "z' \<in> set zs" "fst (fst z) = fst (fst z')"
  have "distinct (map (fst \<circ> fst) zs)" using arg_cong[OF zs, of "map fst"] by (simp add: comp_def)
  then show ?thesis using \<open>z \<in> set zs\<close> \<open>z' \<in> set zs\<close> \<open>fst (fst z) = fst (fst z')\<close> by (simp add: distinct_map inj_on_def)
qed

context graph_db
begin

lemma new_uids_names:
  assumes "assigns \<sigma> us (graph s)" "all_placed (graph s) zs" "map fst zs = enumerate n ts" "''_:event'' \<in> set us"
    "\<And>z. z \<in> set zs \<Longrightarrow> target_uid (fst (fst z)) \<in> set us"
    "\<And>z. z \<in> set zs \<Longrightarrow> t_Pod (snd (fst z)) \<noteq> None \<Longrightarrow> snd z \<in> set us"
  shows "new_uids \<sigma> zs (graph s)"
proof -
  have inj: "u \<in> set us \<Longrightarrow> v \<in> set us \<Longrightarrow> \<sigma> u = \<sigma> v \<longleftrightarrow> u = v" for u v
    using assms(1) by (auto simp: assigns_def inj_on_def)
  have blank: "u \<in> set us \<Longrightarrow> blank u \<Longrightarrow> \<sigma> u \<notin> fst ` set (graph s)" for u
    using assms(1) by (simp add: assigns_def)
  have pod: "\<sigma> (snd z) = snd z" if "z \<in> set zs" "t_Pod (snd (fst z)) \<noteq> None" for z
  proof -
    have "\<exists>p. stands (graph s) (snd z) p" using assms(2) that by (auto simp: all_placed_def)
    then have "snd z \<in> fst ` set (graph s)" using stands_in_graph by blast
    then have "\<not> blank (snd z)" using uids_not_blank by auto
    then show ?thesis using assms(1,6) that by (simp add: assigns_def)
  qed
  have blanks: "blank ''_:event''" "blank (target_uid i)" "target_uid i \<noteq> ''_:event''" for i
    by (simp_all add: blank_def target_uid_def)
  show ?thesis unfolding new_uids_def
    using assms(2,4,5) inj blank pod blanks enumerate_index[OF assms(3)] target_uid_inj by metis
qed

lemma event_json_names:
  assumes "all_placed (graph s) zs" "map fst zs = enumerate n ts"
  shows "new_uids (\<lambda>u. u) zs (graph s)" "nodes_of (\<lambda>u. u) (event_json T e zs) = event_nodes T (\<lambda>u. u) e zs"
    "coherent (event_json T e zs)" "\<And>u. u \<in> set (uids (event_json T e zs)) \<Longrightarrow> blank u \<or> u \<in> fst ` set (graph s)"
proof -
  have blanks: "blank ''_:event''" "blank (target_uid i)" "target_uid i \<noteq> ''_:event''" for i
    by (simp_all add: blank_def target_uid_def)
  have "''_:event'' \<notin> fst ` set (graph s)" "target_uid i \<notin> fst ` set (graph s)" for i
    using uids_not_blank[of _ s] blanks by force+
  then show new: "new_uids (\<lambda>u. u) zs (graph s)"
    unfolding new_uids_def using assms(1) blanks(3) enumerate_index[OF assms(2)] target_uid_inj by metis
  show nodes: "nodes_of (\<lambda>u. u) (event_json T e zs) = event_nodes T (\<lambda>u. u) e zs"
    unfolding event_nodes_def by (rule nodes_of_event) (rule placed_has_place[OF assms(1)])
  let ?ns = "event_nodes T (\<lambda>u. u) e zs"
  have same: "snd m = snd n" if "m \<in> set ?ns" "n \<in> set ?ns" "fst m = fst n" for m n
  proof (cases "fst m \<in> fst ` set (graph s)")
    case True
    have pod: "\<exists>p. k = (fst m, pod_members p) \<and> stands (graph s) (fst m) p" if "k \<in> set ?ns" "fst k = fst m" for k
      using that(1) new
    proof (cases rule: event_nodes_cases)
      case (target i t v)
      then show ?thesis using that(2) True new_uidsD(3)[OF new target(1)] by simp
    qed (use that(2) True new_uidsD(1)[OF new] in auto)
    show ?thesis using pod[of m] pod[of n] that by (auto simp: stands_def)
  next
    case False
    show ?thesis using that(1) new
    proof (cases rule: event_nodes_cases)
      case event
      show ?thesis using that(2) new
        by (cases rule: event_nodes_cases) (use event that(3) blanks(3) False stands_in_graph in auto)
    next
      case (target i t v)
      show ?thesis using that(2) new
      proof (cases rule: event_nodes_cases)
        case (target i' t' v')
        then show ?thesis using \<open>m = _\<close> that(3) new_uidsD(7)[OF new \<open>((i, t), v) \<in> set zs\<close> target(1)] by simp
      qed (use target that(3) blanks(3) False stands_in_graph in auto)
    qed (use False stands_in_graph in auto)
  qed
  then show "coherent (event_json T e zs)" unfolding coherent_def nodes list_all_iff by blast
  show "blank u \<or> u \<in> fst ` set (graph s)" if "u \<in> set (uids (event_json T e zs))" for u
  proof -
    have "u \<in> fst ` set ?ns" using that nodes by (simp add: uids_def)
    then obtain n where n: "n \<in> set ?ns" "fst n = u" by blast
    from n(1) new show ?thesis
      by (cases rule: event_nodes_cases) (use n(2) blanks stands_in_graph in auto)
  qed
qed

lemma set_event:
  assumes "dg_SetJson D (render (event_json T e zs)) s = (r, s')" "all_placed (graph s) zs"
    "map fst zs = enumerate 0 (elems (e_Targets e))" "sound_graph T (graph s)" "storable T e"
  shows "r \<noteq> None \<and> graph s' = graph s \<or>
    sound_graph T (graph s') \<and> (\<exists>ts. mset ts = mset (elems (e_Targets e)) \<and>
      events T (graph s') = add_mset (stored_event (e\<lparr>e_Targets := Some ts\<rparr>)) (events T (graph s)))"
proof -
  let ?j = "event_json T e zs"
  note j = event_json_names(1)[OF assms(2,3)] event_json_names(2-4)[OF assms(2,3), where T = T and e = e]
  have parse: "json_parse (render ?j) = Some ?j" by (rule json_parse_render)
  have place: "has_place z" if "z \<in> set zs" for z by (rule placed_has_place[OF assms(2) that])
  consider "r \<noteq> None" "graph s' = graph s" | (set) \<sigma> f where "permutes_lists f" "assigns \<sigma> (uids ?j) (graph s)"
      "attr (graph s') = attr (set_nodes (nodes_of \<sigma> (reorder f ?j)) (graph s))"
    using set_graph[OF assms(1) parse j(3,4)] unfolding permutes_lists_def by blast
  then show ?thesis
  proof cases
    case set
    obtain zs' where zs': "mset zs' = mset zs" "reorder f ?j = event_json T e zs'"
      using reorder_event[OF place set(1)] by blast
    have sets: "set zs' = set zs" by (rule mset_eq_setD[OF zs'(1)])
    have "nodes_of \<sigma> (event_json T e zs') = event_nodes T \<sigma> e zs'"
      unfolding event_nodes_def using place sets by (intro nodes_of_event) simp
    then have attr: "attr (graph s') = attr (set_nodes (event_nodes T \<sigma> e zs') (graph s))" using set(3) zs'(2) by simp
    have us: "uids ?j = map fst (event_nodes T (\<lambda>u. u) e zs)" by (simp add: uids_def j(2))
    have pods: "snd z \<in> set (uids ?j)" if "z \<in> set zs" "t_Pod (snd (fst z)) \<noteq> None" for z
      using that by (cases z rule: has_place.cases) (force simp: us event_nodes_def pod_nodes_def)
    have targets: "target_uid (fst (fst z)) \<in> set (uids ?j)" if "z \<in> set zs" for z
      using that by (cases z rule: has_place.cases) (force simp: us event_nodes_def)
    have "''_:event'' \<in> set (uids ?j)" by (simp add: us event_nodes_def)
    from new_uids_names[OF set(2) assms(2,3) this targets pods] have "new_uids \<sigma> zs (graph s)" by blast
    then have new: "new_uids \<sigma> zs' (graph s)" using sets all_placed_perm[OF assms(2) sets] by (simp add: new_uids_def)
    have ts: "map (snd \<circ> fst) zs = elems (e_Targets e)" using arg_cong[OF assms(3), of "map snd"] by simp
    then have "mset (map (snd \<circ> fst) zs') = mset (elems (e_Targets e))" using zs'(1) by (metis mset_map)
    moreover have "proper_alert (snd (fst z))" if "z \<in> set zs'" for z
    proof -
      have "snd (fst z) \<in> set (map (snd \<circ> fst) zs)" using that sets by auto
      then show ?thesis using assms(5) unfolding ts storable_def list_all_iff by blast
    qed
    ultimately show ?thesis
      using events_written[OF new assms(4,5) _ attr uids_distinct uids_distinct] by blast
  qed blast
qed

lemma Add_cases:
  assumes "event_Add D T e s = (r, s')" "sound_graph T (graph s)" "storable T e"
  shows "sound_graph T (graph s') \<and>
    ((\<exists>ts. mset ts = mset (elems (e_Targets e)) \<and> events T (graph s') =
        add_mset (stored_event (e\<lparr>e_Targets := Some ts\<rparr>)) (image_mset (fold refresh (pods_of (elems (e_Targets e)))) (events T (graph s)))) \<or>
     r \<noteq> Some None \<and> (\<exists>n. events T (graph s') = image_mset (fold refresh (take n (pods_of (elems (e_Targets e))))) (events T (graph s))))"
proof -
  let ?its = "enumerate 0 (elems (e_Targets e))" and ?ps = "pods_of (elems (e_Targets e))"
  have its: "pods_of (map snd ?its) = ?ps" by simp
  obtain r1 s1 where r1: "upsert_targets D (map (\<lambda>(i, t). dgraphTargetFromPb i t) ?its) s = (r1, s1)" by fastforce
  have add: "event_Add D T e s = (case r1 of None \<Rightarrow> (None, s1) | Some (Inl err) \<Rightarrow> (Some (Some err), s1)
     | Some (Inr ts) \<Rightarrow> (case dg_SetJson D (render (marshal_event_node T ((dgraphEventFromPb e)\<lparr>dev_Targets := ts\<rparr>))) s1 of
         (err, s2) \<Rightarrow> (Some err, s2)))"
    using r1 by (simp add: event_Add_def dgraphEventFromPb_def Let_def split: option.splits sum.splits)
  have "upserts T ?its (graph s) r1 (graph s1)"
    by (rule upsert_targets_cases[OF r1 assms(2)]) (use assms(3) in \<open>auto simp: storable_def list_all_iff\<close>)
  then show ?thesis
  proof (cases rule: upserts_cases)
    case (upd zs)
    note eff = upd(4)[unfolded its pods_effect_def]
    obtain err s2 where set: "dg_SetJson D (render (event_json T e zs)) s1 = (err, s2)" by fastforce
    have r: "r = Some err" "s' = s2" using add assms(1) upd(1) set by (simp_all add: event_json_def)
    have "sound_graph T (graph s1)" using eff by blast
    from set_event[OF set upd(3,2) this assms(3)] show ?thesis
    proof
      assume "err \<noteq> None \<and> graph s2 = graph s1"
      then have "r \<noteq> Some None" "events T (graph s') = image_mset (fold refresh (take (length ?ps) ?ps)) (events T (graph s))"
        "sound_graph T (graph s')" using r eff by auto
      then show ?thesis by blast
    qed (use r eff in auto)
  next
    case (crash n)
    note eff = crash(2)[unfolded its pods_effect_def]
    have "r = None" "s' = s1" using add assms(1) crash(1) by simp_all
    then show ?thesis using eff by blast
  qed
qed

end

end
