(* ===== verification/GraphMem.thy ===== *)
theory GraphMem
  imports DgraphGraph
begin

text \<open>
  A graph database in memory. It keeps the list of its nodes, answers every query, names blank nodes
  by uids longer than all that it has, and refuses a change after which a node would have a value
  that the schema does not admit. It satisfies the laws of \<open>graph_db\<close>.
\<close>

section \<open>The database\<close>

definition gclean :: "node list \<Rightarrow> node list" where
  "gclean g = filter (\<lambda>n. \<not> blank (fst n)) (clean g)"

definition namer :: "node list \<Rightarrow> string \<Rightarrow> string" where
  "namer g u = (if blank u then fresh_uid g @ drop 2 u else u)"

definition rejected :: go_error where
  "rejected = ExtError ''rejected''"

definition gmem_Query :: "dql \<Rightarrow> (node list, go_error + string) io" where
  "gmem_Query q s = (Inr (render (graph_answer q (gclean s))), s)"

fun rooted :: "json \<Rightarrow> bool" where
  "rooted (JObj ((k, JStr u) # kvs)) = (k = ''uid'' \<and> list_all (\<lambda>(k, v). k \<noteq> ''uid'') kvs)"
| "rooted _ = False"

definition settable :: "json \<Rightarrow> node list \<Rightarrow> bool" where
  "settable j g = (rooted j \<and> coherent j \<and> list_all (\<lambda>u. blank u \<or> u \<in> fst ` set g) (uids j) \<and>
     gclean (set_nodes (nodes_of (namer g) j) g) = set_nodes (nodes_of (namer g) j) g)"

definition gmem_SetJson :: "string \<Rightarrow> (node list, go_error option) io" where
  "gmem_SetJson doc s = (case json_parse doc of
     Some j \<Rightarrow> if settable j (gclean s) then (None, set_nodes (nodes_of (namer (gclean s)) j) (gclean s)) else (Some rejected, s)
   | None \<Rightarrow> (Some rejected, s))"

definition gmem_DeleteJson :: "string \<Rightarrow> (node list, go_error option) io" where
  "gmem_DeleteJson doc s = (case json_parse doc of
     Some (JObj [(k, JStr u)]) \<Rightarrow> (None, filter (\<lambda>n. fst n \<noteq> u) (gclean s))
   | _ \<Rightarrow> (Some rejected, s))"

definition gmem_upsert :: "upsert \<Rightarrow> string \<Rightarrow> (string \<times> json) list \<Rightarrow> node list \<Rightarrow> string gomap \<times> node list" where
  "gmem_upsert up var kvs g =
     (if found up g = [] then ([(var, fresh_uid g)], set_node (fresh_uid g, kvs) g)
      else ([], set_nodes (map (\<lambda>n. (fst n, kvs)) (found up g)) g))"

definition gmem_Do :: "upsert \<Rightarrow> (node list, do_response option \<times> go_error option) io" where
  "gmem_Do up s = (case json_parse (u_SetJson up) of
     Some (JObj ((k, JStr var) # kvs)) \<Rightarrow>
       (let (new, g') = gmem_upsert up var kvs (gclean s) in
        if k = ''uid'' \<and> gclean g' = g'
        then ((Some \<lparr>r_Uids = new, r_Json = render (JObj [(''pod'', JArr (map (edge_to \<circ> fst) (found up (gclean s))))])\<rparr>, None), g')
        else ((None, Some rejected), s))
   | _ \<Rightarrow> ((None, Some rejected), s))"

definition gmem_dgraph :: "node list dgraph" where
  "gmem_dgraph = \<lparr>dg_Query = gmem_Query, dg_SetJson = gmem_SetJson, dg_DeleteJson = gmem_DeleteJson,
     dg_Do = gmem_Do, dg_Alter = (\<lambda>_ s. (None, s))\<rparr>"

section \<open>The laws\<close>

lemma gclean_set: "n \<in> set (gclean g) \<Longrightarrow> plain_uid (fst n) \<and> node_typed (snd n) \<and> \<not> blank (fst n)"
  by (auto simp: gclean_def dest: clean_set)

lemma gclean_distinct: "distinct (map fst (gclean g))"
  using clean_distinct[of g] by (simp add: gclean_def distinct_map_filter)

lemma gclean_id:
  assumes "distinct (map fst g)" "\<And>n. n \<in> set g \<Longrightarrow> plain_uid (fst n) \<and> node_typed (snd n) \<and> \<not> blank (fst n)"
  shows "gclean g = g"
proof -
  have "clean g = g" by (rule clean_id[OF assms(1)]) (use assms(2) in blast)
  then show ?thesis using assms(2) by (simp add: gclean_def filter_id_conv)
qed

lemma gclean_filter [simp]: "gclean (filter P (gclean g)) = filter P (gclean g)"
  by (rule gclean_id) (auto simp: distinct_map_filter gclean_distinct dest: gclean_set)

lemma gclean_gclean [simp]: "gclean (gclean g) = gclean g"
  using gclean_filter[of "\<lambda>_. True" g] by simp

lemma reorder_id: "reorder (\<lambda>xs. xs) j = j"
proof (induction j)
  case (JArr xs)
  then show ?case by (simp add: map_idI)
next
  case (JObj kvs)
  have "map (\<lambda>(k, v). (k, reorder (\<lambda>xs. xs) v)) kvs = kvs"
    by (rule map_idI) (use JObj in \<open>force simp: snds.simps\<close>)
  then show ?case by simp
qed simp_all

lemma namer_new: "blank u \<Longrightarrow> namer g u \<notin> fst ` set g"
proof
  assume "blank u" "namer g u \<in> fst ` set g"
  then obtain n where "n \<in> set g" "fst n = fresh_uid g @ drop 2 u" by (auto simp: namer_def)
  then have "length (fresh_uid g) \<le> sum_list (map (length \<circ> fst) g)"
    using member_le_sum_list[of "length (fst n)" "map (length \<circ> fst) g"] by force
  then show False by (simp add: fresh_uid_def)
qed

lemma namer_names:
  assumes "list_all (\<lambda>u. blank u \<or> u \<in> fst ` set g) us"
  shows "assigns (namer g) us g"
proof -
  have "u = v" if "u \<in> set us" "v \<in> set us" "namer g u = namer g v" for u v
  proof (cases "blank u \<and> blank v")
    case True
    then have "take 2 u = take 2 v" "drop 2 u = drop 2 v" using that(3) by (simp_all add: namer_def blank_def)
    then show ?thesis by (metis append_take_drop_id)
  next
    case False
    then show ?thesis using that assms namer_new[of u g] namer_new[of v g]
      by (cases "blank u"; cases "blank v") (auto simp: list_all_iff namer_def)
  qed
  then show ?thesis using namer_new by (auto simp: assigns_def inj_on_def namer_def)
qed

lemma flat_array: "flat_value (JArr xs) \<Longrightarrow> x \<in> set xs \<Longrightarrow> \<exists>y. x = JStr y"
  by (cases x) (auto simp: list_all_iff dest: bspec)

lemma flat_link: "flat_value v \<Longrightarrow> link \<sigma> v = v"
proof (cases v)
  case (JArr xs)
  assume "flat_value v"
  then have "link \<sigma> x = x" if "x \<in> set xs" for x using flat_array[of xs x] that JArr by auto
  then show ?thesis using JArr by (simp add: map_idI)
qed simp_all

lemma flat_nodes: "flat_value v \<Longrightarrow> nodes_of \<sigma> v = []"
proof (cases v)
  case (JArr xs)
  assume "flat_value v"
  then have "nodes_of \<sigma> x = []" if "x \<in> set xs" for x using flat_array[of xs x] that JArr by auto
  then show ?thesis using JArr by simp
qed simp_all

lemma flat_object:
  assumes "list_all (\<lambda>(k, v). flat_value v) kvs" "list_all (\<lambda>(k, v). k \<noteq> ''uid'') kvs"
  shows "nodes_of \<sigma> (JObj ((''uid'', JStr u) # kvs)) = [(\<sigma> u, kvs)]"
proof -
  have "filter (\<lambda>(k, v). k \<noteq> ''uid'') kvs = kvs" using assms(2) by (auto simp: list_all_iff filter_id_conv)
  moreover have "map (\<lambda>(k, v). (k, link \<sigma> v)) kvs = kvs"
    using assms(1) by (intro map_idI) (auto simp: list_all_iff flat_link)
  moreover have "concat (map (\<lambda>(k, v). nodes_of \<sigma> v) kvs) = []"
    using assms(1) by (auto simp: list_all_iff flat_nodes)
  ultimately show ?thesis by (simp add: uid_of_def)
qed

lemma upsert_fresh: "fresh_uid g \<noteq> []" "\<not> blank (fresh_uid g)"
  by (simp_all add: fresh_uid_def blank_def take_Cons')

lemma gmem_upserted:
  assumes "gmem_upsert up var kvs g = (new, g')"
  shows "upserted up kvs g g' (map_get new var)"
  using assms fresh_uid_fresh[of g] upsert_fresh(1)[of g]
  by (auto simp: gmem_upsert_def upserted_def map_get_def split: if_splits)

lemma gmem_query: "dg_Query gmem_dgraph q s = (Inr doc, s') \<Longrightarrow> json_parse doc = Some (graph_answer q (gclean s))"
  by (auto simp: gmem_dgraph_def gmem_Query_def json_parse_render)

lemma gmem_set_cases:
  assumes "dg_SetJson gmem_dgraph doc s = (r, s')" "json_parse doc = Some j"
  shows "r \<noteq> None \<and> s' = s \<or> r = None \<and> settable j (gclean s) \<and> s' = set_nodes (nodes_of (namer (gclean s)) j) (gclean s) \<and> gclean s' = s'"
  using assms by (auto simp: gmem_dgraph_def gmem_SetJson_def settable_def split: if_splits)

lemma gmem_set_flat:
  assumes "dg_SetJson gmem_dgraph doc s = (r, s')" "json_parse doc = Some (JObj ((''uid'', JStr (''_:'' @ x)) # kvs))"
    "list_all (\<lambda>(k, v). flat_value v) kvs"
  shows "r \<noteq> None \<and> gclean s' = gclean s \<or>
    (\<exists>u. plain_uid u \<and> u \<notin> fst ` set (gclean s) \<and> mset (gclean s') = add_mset (u, kvs) (mset (gclean s)))"
  using gmem_set_cases[OF assms(1,2)]
proof (elim disjE conjE)
  let ?g = "gclean s" and ?u = "namer (gclean s) (''_:'' @ x)"
  assume set: "settable (JObj ((''uid'', JStr (''_:'' @ x)) # kvs)) ?g" "gclean s' = s'"
    "s' = set_nodes (nodes_of (namer ?g) (JObj ((''uid'', JStr (''_:'' @ x)) # kvs))) ?g"
  have keys: "list_all (\<lambda>(k, v). k \<noteq> ''uid'') kvs" using set(1) by (simp add: settable_def)
  have new: "?u \<notin> fst ` set ?g" by (rule namer_new) (simp add: blank_def)
  then have s': "s' = (?u, kvs) # ?g"
    using set(3) unfolding flat_object[OF assms(3) keys] by (simp add: set_nodes_def set_node_def)
  then have "plain_uid ?u" using gclean_set[of "(?u, kvs)" s'] set(2) by simp
  then show ?thesis using new s' set(2) by (intro disjI2 exI[of _ ?u]) simp
qed simp

lemma gmem_set_graph:
  assumes "dg_SetJson gmem_dgraph doc s = (r, s')" "json_parse doc = Some j"
  shows "r \<noteq> None \<and> gclean s' = gclean s \<or>
    (\<exists>\<sigma> f. (\<forall>xs. mset (f xs) = mset xs) \<and> assigns \<sigma> (uids j) (gclean s) \<and>
       attr (gclean s') = attr (set_nodes (nodes_of \<sigma> (reorder f j)) (gclean s)))"
  using gmem_set_cases[OF assms]
proof (elim disjE conjE)
  assume set: "settable j (gclean s)" "gclean s' = s'" "s' = set_nodes (nodes_of (namer (gclean s)) j) (gclean s)"
  have "list_all (\<lambda>u. blank u \<or> u \<in> fst ` set (gclean s)) (uids j)"
    using set(1) by (simp add: settable_def)
  from namer_names[OF this] show ?thesis using set
    by (intro disjI2 exI[of _ "namer (gclean s)"] exI[of _ "\<lambda>xs. xs"]) (simp add: reorder_id)
qed simp

lemma gmem_do:
  assumes "dg_Do gmem_dgraph up s = ((resp, err), s')" "json_parse (u_SetJson up) = Some (JObj ((''uid'', JStr var) # kvs))"
  shows "err \<noteq> None \<and> resp = None \<and> gclean s' = gclean s \<or>
    err = None \<and> (\<exists>x. resp = Some x \<and> upserted up kvs (gclean s) (gclean s') (map_get (r_Uids x) var) \<and>
      json_parse (r_Json x) = Some (JObj [(''pod'', JArr (map (edge_to \<circ> fst) (found up (gclean s))))]))"
proof -
  obtain new g' where new: "gmem_upsert up var kvs (gclean s) = (new, g')" by fastforce
  show ?thesis using assms gmem_upserted[OF new] json_parse_render
    by (cases "gclean g' = g'") (auto simp: gmem_dgraph_def gmem_Do_def new simp del: render.simps)
qed

interpretation gmem: graph_db gmem_dgraph gclean
proof
  fix q doc s s'
  assume "dg_Query gmem_dgraph q s = (Inr doc, s')"
  then show "json_parse doc = Some (graph_answer q (gclean s))" by (rule gmem_query)
  then show "flat_query q \<Longrightarrow> json_parse doc = Some (query_answer q (gclean s))" by (simp add: graph_answer_flat)
next
  fix doc s r s' u
  assume "dg_DeleteJson gmem_dgraph doc s = (r, s')" "json_parse doc = Some (JObj [(''uid'', JStr u)])"
  then show "r \<noteq> None \<and> gclean s' = gclean s \<or> gclean s' = filter (\<lambda>n. fst n \<noteq> u) (gclean s)"
    by (auto simp: gmem_dgraph_def gmem_DeleteJson_def)
next
  fix up s resp err s' var kvs
  assume "dg_Do gmem_dgraph up s = ((resp, err), s')" "json_parse (u_SetJson up) = Some (JObj ((''uid'', JStr var) # kvs))"
  from gmem_do[OF this] show "err \<noteq> None \<and> resp = None \<and> (gclean s' = gclean s \<or> (\<exists>new. upserted up kvs (gclean s) (gclean s') new)) \<or>
      err = None \<and> (\<exists>r. resp = Some r \<and> upserted up kvs (gclean s) (gclean s') (map_get (r_Uids r) var) \<and>
        (u_returns up \<longrightarrow> json_parse (r_Json r) = Some (JObj [(''pod'', JArr (map (edge_to \<circ> fst) (found up (gclean s))))])))"
    by blast
qed (auto simp: gmem_dgraph_def[THEN arg_cong[of _ _ dg_Query]] gmem_Query_def gclean_distinct
    dest: gclean_set gmem_set_flat gmem_set_graph)

end
