(* ===== verification/EventLog.thy ===== *)
theory EventLog
  imports EventInsert GraphMem AlertDispatcher
begin

text \<open>
  What the event store promises (\<^verbatim>\<open>pkg/store\<close>), as the locale \<open>event_log\<close>: a bag of events that \<^verbatim>\<open>Add\<close>
  adds to, \<^verbatim>\<open>FindWhereAlertNotSent\<close> reads and \<^verbatim>\<open>UpdateAlertSent\<close> marks. The rounds of the alert
  dispatcher are proved over the contract, and the Dgraph store implements it. An abstract machine
  over bags of events simulates every sequence of calls of the store.
\<close>

section \<open>The contract\<close>

text \<open>
  An event that is added is stored with its targets in some order, and the pods that it has in common
  with earlier events are brought up to date there. An addition that fails may have done a part of that.
\<close>

definition logged :: "Event \<Rightarrow> Event multiset \<Rightarrow> Event multiset \<Rightarrow> bool" where
  "logged e L L' \<longleftrightarrow> (\<exists>ts. mset ts = mset (elems (e_Targets e)) \<and>
     L' = add_mset (stored_event (e\<lparr>e_Targets := Some ts\<rparr>)) (image_mset (fold refresh (pods_of (elems (e_Targets e)))) L))"

definition touched :: "Event \<Rightarrow> Event multiset \<Rightarrow> Event multiset \<Rightarrow> bool" where
  "touched e L L' \<longleftrightarrow> (\<exists>n. L' = image_mset (fold refresh (take n (pods_of (elems (e_Targets e))))) L)"

locale event_log =
  fixes es :: "'s event_store" and log :: "'s \<Rightarrow> Event multiset" and ok :: "'s \<Rightarrow> bool"
    and can :: "Event \<Rightarrow> bool"
  assumes add_log: "es_Add es e s = (r, s') \<Longrightarrow> ok s \<Longrightarrow> can e \<Longrightarrow>
        ok s' \<and> (logged e (log s) (log s') \<or> r \<noteq> None \<and> touched e (log s) (log s'))"
    and find_log: "es_FindWhereAlertNotSent es s = ((xs, err), s') \<Longrightarrow> ok s \<Longrightarrow>
        ok s' \<and> log s' = log s \<and> (if err = None then mset (elems xs) = filter_mset unsent (log s) else xs = None)"
    and get_all_log: "es_GetAll es limit s = ((xs, err), s') \<Longrightarrow> ok s \<Longrightarrow>
        ok s' \<and> log s' = log s \<and>
        (if err = None then mset (elems xs) = filter_mset (\<lambda>e. e_Type e \<noteq> EventTypeDetection) (log s) else xs = None)"

locale alert_log = event_log es log ok can
  for es :: "'s event_store" and log :: "'s \<Rightarrow> Event multiset" and ok :: "'s \<Rightarrow> bool" and can :: "Event \<Rightarrow> bool" +
  fixes now :: Timestamp
  assumes update_log: "es_UpdateAlertSent es uid s = (r, s') \<Longrightarrow> ok s \<Longrightarrow> uid \<noteq> [] \<Longrightarrow>
        ok s' \<and> (log s' = image_mset (mark now uid) (log s) \<or> r \<noteq> None \<and> log s' = log s)"

text \<open>The events whose alert Alertmanager took, or that have nothing to alert about.\<close>

definition delivered :: "(Timestamp \<Rightarrow> string) \<Rightarrow> (string gomap \<Rightarrow> go_error option) \<Rightarrow> Event \<Rightarrow> bool" where
  "delivered RFC3339 answer e \<longleftrightarrow> alertable e \<and> (case event_alert RFC3339 e of None \<Rightarrow> True | Some ls \<Rightarrow> answer ls = None)"

definition alerts :: "(Timestamp \<Rightarrow> string) \<Rightarrow> Event list \<Rightarrow> string gomap list" where
  "alerts RFC3339 xs = map (\<lambda>e. the (event_alert RFC3339 e)) (filter (\<lambda>e. alertable e \<and> event_alert RFC3339 e \<noteq> None) xs)"

definition mark_all :: "Timestamp \<Rightarrow> string set \<Rightarrow> Event \<Rightarrow> Event" where
  "mark_all now U e = (if e_Uid e \<in> U then e\<lparr>e_AlertSentAt := Some now\<rparr> else e)"

lemma mark_all_simps [simp]:
  "mark_all now {} = (\<lambda>e. e)" "e_Uid (mark_all now U e) = e_Uid e" "mark_all now V (mark_all now U e) = mark_all now (U \<union> V) e"
  "mark now u = mark_all now {u}"
  by (auto simp: mark_all_def mark_def fun_eq_iff)

lemma unsent_mark_all: "unsent (mark_all now U e) \<longleftrightarrow> unsent e \<and> e_Uid e \<notin> U"
  by (simp add: mark_all_def unsent_def)

lemma SendAlert_recorded:
  "SendAlert RFC3339 (recording_post answer) e w =
     (case event_alert RFC3339 e of None \<Rightarrow> (None, w) | Some ls \<Rightarrow> (answer ls, w @ [ls]))"
  by (simp add: SendAlert_first recording_post_def split: option.split)

context alert_log
begin

lemma update_one:
  assumes "ok s" "uid \<noteq> []"
  shows "\<exists>V. V \<subseteq> (if d then {uid} else {}) \<and> ok (if d then snd (es_UpdateAlertSent es uid s) else s) \<and>
    log (if d then snd (es_UpdateAlertSent es uid s) else s) = image_mset (mark_all now V) (log s) \<and>
    (fst (es_UpdateAlertSent es uid s) = None \<longrightarrow> V = (if d then {uid} else {}))"
proof (cases d)
  case True
  obtain r s1 where upd: "es_UpdateAlertSent es uid s = (r, s1)" by fastforce
  note law = update_log[OF upd assms]
  have "ok s1" using law by blast
  consider "log s1 = image_mset (mark_all now {uid}) (log s)" | "r \<noteq> None" "log s1 = log s"
    using law by auto
  then show ?thesis
  proof cases
    case 1
    then show ?thesis using True \<open>ok s1\<close> upd by (intro exI[of _ "{uid}"]) simp
  next
    case 2
    then show ?thesis using True \<open>ok s1\<close> upd by (intro exI[of _ "{}"]) simp
  qed
qed (use assms in simp)

lemma alert_events_log:
  assumes "alert_events RFC3339 (recording_post answer) es xs (s, w) = (s', w')" "ok s" "\<And>e. e \<in> set xs \<Longrightarrow> e_Uid e \<noteq> []"
  shows "ok s' \<and> w' = w @ alerts RFC3339 xs \<and>
    (\<exists>U. U \<subseteq> e_Uid ` set (filter (delivered RFC3339 answer) xs) \<and> log s' = image_mset (mark_all now U) (log s) \<and>
       ((\<forall>uid s. uid \<noteq> [] \<longrightarrow> ok s \<longrightarrow> fst (es_UpdateAlertSent es uid s) = None) \<longrightarrow>
          U = e_Uid ` set (filter (delivered RFC3339 answer) xs)))"
  using assms
proof (induction xs arbitrary: s w)
  case Nil
  then show ?case by (auto simp: alerts_def intro!: exI[of _ "{}"])
next
  case (Cons e xs)
  let ?w = "w @ (if alertable e \<and> event_alert RFC3339 e \<noteq> None then [the (event_alert RFC3339 e)] else [])"
  let ?s = "if delivered RFC3339 answer e then snd (es_UpdateAlertSent es (e_Uid e) s) else s"
  have run: "alert_events RFC3339 (recording_post answer) es xs (?s, ?w) = (s', w')"
    using Cons.prems(1)
    by (cases "event_alert RFC3339 e"; cases "answer (the (event_alert RFC3339 e))")
      (auto simp: SendAlert_recorded delivered_def alertable_def split: if_splits)
  have w: "?w @ alerts RFC3339 xs = w @ alerts RFC3339 (e # xs)" by (simp add: alerts_def)
  have uid: "e_Uid e \<noteq> []" using Cons.prems(3) by simp
  from update_one[OF Cons.prems(2) this, of "delivered RFC3339 answer e"]
  obtain V where V1: "V \<subseteq> (if delivered RFC3339 answer e then {e_Uid e} else {}) \<and> ok ?s \<and> log ?s = image_mset (mark_all now V) (log s) \<and>
      (fst (es_UpdateAlertSent es (e_Uid e) s) = None \<longrightarrow> V = (if delivered RFC3339 answer e then {e_Uid e} else {}))" ..
  have V: "V \<subseteq> (if delivered RFC3339 answer e then {e_Uid e} else {})" "ok ?s"
    "log ?s = image_mset (mark_all now V) (log s)"
    "fst (es_UpdateAlertSent es (e_Uid e) s) = None \<Longrightarrow> V = (if delivered RFC3339 answer e then {e_Uid e} else {})"
    using V1 by blast+
  have rest: "\<And>e. e \<in> set xs \<Longrightarrow> e_Uid e \<noteq> []" using Cons.prems(3) by simp
  obtain U where U: "ok s'" "w' = ?w @ alerts RFC3339 xs" "U \<subseteq> e_Uid ` set (filter (delivered RFC3339 answer) xs)"
    "log s' = image_mset (mark_all now U) (log ?s)"
    "(\<forall>uid s. uid \<noteq> [] \<longrightarrow> ok s \<longrightarrow> fst (es_UpdateAlertSent es uid s) = None) \<Longrightarrow>
        U = e_Uid ` set (filter (delivered RFC3339 answer) xs)"
    using Cons.IH[OF run V(2) rest] by blast
  have "log s' = image_mset (mark_all now (V \<union> U)) (log s)"
    unfolding U(4) V(3) by (simp add: multiset.map_comp comp_def)
  moreover have "V \<union> U \<subseteq> e_Uid ` set (filter (delivered RFC3339 answer) (e # xs))"
    using U(3) V(1) by (auto split: if_splits)
  moreover have "V \<union> U = e_Uid ` set (filter (delivered RFC3339 answer) (e # xs))"
    if "\<forall>uid s. uid \<noteq> [] \<longrightarrow> ok s \<longrightarrow> fst (es_UpdateAlertSent es uid s) = None"
    using U(5)[OF that] V(4) that uid Cons.prems(2) by (auto split: if_splits)
  ultimately show ?case using U(1,2) w by blast
qed

text \<open>A round, in terms of the log.\<close>

lemma round_log:
  assumes "LoopSendAlerts_round RFC3339 (recording_post answer) es (s, w) = (s', w')" "ok s"
    "\<And>e. e \<in># log s \<Longrightarrow> e_Uid e \<noteq> []"
  obtains xs U where "ok s'" "w' = w @ alerts RFC3339 xs" "log s' = image_mset (mark_all now U) (log s)"
    "U \<subseteq> e_Uid ` set (filter (delivered RFC3339 answer) xs)"
    "(\<forall>uid s. uid \<noteq> [] \<longrightarrow> ok s \<longrightarrow> fst (es_UpdateAlertSent es uid s) = None) \<Longrightarrow>
       U = e_Uid ` set (filter (delivered RFC3339 answer) xs)"
    "mset xs = filter_mset unsent (log s) \<or> xs = [] \<and> snd (fst (es_FindWhereAlertNotSent es s)) \<noteq> None"
proof -
  obtain fs err s1 where find: "es_FindWhereAlertNotSent es s = ((fs, err), s1)" by (metis prod.collapse)
  have run: "alert_events RFC3339 (recording_post answer) es (elems fs) (s1, w) = (s', w')"
    using assms(1) by (simp add: LoopSendAlerts_round_def find)
  note law = find_log[OF find assms(2)]
  have found: "mset (elems fs) = filter_mset unsent (log s) \<or> elems fs = [] \<and> snd (fst (es_FindWhereAlertNotSent es s)) \<noteq> None"
    using law find by (auto split: if_splits)
  have uids: "e_Uid e \<noteq> []" if "e \<in> set (elems fs)" for e
  proof -
    have "e \<in># mset (elems fs)" using that by simp
    then show ?thesis using found assms(3) that by fastforce
  qed
  show thesis
    using alert_events_log[OF run _ uids] law found that by metis
qed

end

section \<open>The Dgraph store implements it\<close>

context graph_db
begin

lemma dgraph_event_log:
  "event_log (dgraphEventStore D T now) (\<lambda>s. events T (graph s)) (\<lambda>s. sound_graph T (graph s)) (storable T)"
proof
  fix e s r s'
  assume run: "es_Add (dgraphEventStore D T now) e s = (r, s')" and ok: "sound_graph T (graph s)" "storable T e"
  obtain r1 where r1: "event_Add D T e s = (r1, s')" "r = (case r1 of None \<Rightarrow> Some crashed | Some err \<Rightarrow> err)"
    using run by (auto simp: dgraphEventStore_def split: prod.splits option.splits)
  have "r1 \<noteq> Some None \<Longrightarrow> r \<noteq> None" using r1(2) by (auto split: option.splits)
  then show "sound_graph T (graph s') \<and> (logged e (events T (graph s)) (events T (graph s')) \<or>
      r \<noteq> None \<and> touched e (events T (graph s)) (events T (graph s')))"
    using Add_cases[OF r1(1) ok] unfolding logged_def touched_def by blast
next
  fix s xs err s'
  assume "es_FindWhereAlertNotSent (dgraphEventStore D T now) s = ((xs, err), s')" and ok: "sound_graph T (graph s)"
  then have "event_FindWhereAlertNotSent D T s = ((xs, err), s')" by (simp add: dgraphEventStore_def)
  from find_unsent[OF this ok] ok show "sound_graph T (graph s') \<and> events T (graph s') = events T (graph s) \<and>
      (if err = None then mset (elems xs) = filter_mset unsent (events T (graph s)) else xs = None)" by simp
next
  fix limit s xs err s'
  assume "es_GetAll (dgraphEventStore D T now) limit s = ((xs, err), s')" and ok: "sound_graph T (graph s)"
  then have "event_GetAll D T limit s = ((xs, err), s')" by (simp add: dgraphEventStore_def)
  from get_all[OF this ok] ok this show "sound_graph T (graph s') \<and> events T (graph s') = events T (graph s) \<and>
      (if err = None then mset (elems xs) = filter_mset (\<lambda>e. e_Type e \<noteq> EventTypeDetection) (events T (graph s)) else xs = None)"
    by (auto simp: event_GetAll_def split: prod.splits sum.splits)
qed

lemma dgraph_alert_log:
  assumes "tc_parse T (tc_format T now) = Some now"
  shows "alert_log (dgraphEventStore D T now) (\<lambda>s. events T (graph s)) (\<lambda>s. sound_graph T (graph s)) (storable T) now"
proof (intro alert_log.intro[OF dgraph_event_log] alert_log_axioms.intro)
  fix uid s r s'
  assume "es_UpdateAlertSent (dgraphEventStore D T now) uid s = (r, s')" and ok: "sound_graph T (graph s)" "uid \<noteq> []"
  then have "event_UpdateAlertSent D T now uid s = (r, s')" by (simp add: dgraphEventStore_def)
  from update_alert[OF this ok assms] ok show "sound_graph T (graph s') \<and>
      (events T (graph s') = image_mset (mark now uid) (events T (graph s)) \<or> r \<noteq> None \<and> events T (graph s') = events T (graph s))"
    by auto
qed

end

section \<open>Sequences of calls\<close>

datatype event_call = CallAdd Event | CallFind | CallGetAll "64 word" | CallUpdate Timestamp string

datatype event_reply = ErrReply "go_error option" | EventsReply "Event slice" "go_error option"

text \<open>A call of the store; the time is that of the call.\<close>

fun store_call :: "(Timestamp \<Rightarrow> 's event_store) \<Rightarrow> event_call \<Rightarrow> 's \<Rightarrow> event_reply \<times> 's" where
  "store_call St (CallAdd e) s = (case es_Add (St 0) e s of (r, s') \<Rightarrow> (ErrReply r, s'))"
| "store_call St CallFind s = (case es_FindWhereAlertNotSent (St 0) s of ((xs, err), s') \<Rightarrow> (EventsReply xs err, s'))"
| "store_call St (CallGetAll limit) s = (case es_GetAll (St 0) limit s of ((xs, err), s') \<Rightarrow> (EventsReply xs err, s'))"
| "store_call St (CallUpdate now uid) s = (case es_UpdateAlertSent (St now) uid s of (r, s') \<Rightarrow> (ErrReply r, s'))"

inductive store_run :: "(Timestamp \<Rightarrow> 's event_store) \<Rightarrow> 's \<Rightarrow> (event_call \<times> event_reply) list \<Rightarrow> 's \<Rightarrow> bool" for St where
  store_run_Nil: "store_run St s [] s"
| store_run_Cons: "store_call St c s = (r, s1) \<Longrightarrow> store_run St s1 tr s' \<Longrightarrow> store_run St s ((c, r) # tr) s'"

text \<open>The abstract machine: a bag of events, and what a call may answer and do to it.\<close>

inductive log_step :: "Event multiset \<Rightarrow> event_call \<times> event_reply \<Rightarrow> Event multiset \<Rightarrow> bool" where
  log_added: "logged e L L' \<Longrightarrow> log_step L (CallAdd e, ErrReply r) L'"
| log_add_failed: "touched e L L' \<Longrightarrow> log_step L (CallAdd e, ErrReply (Some err)) L'"
| log_found: "mset (elems xs) = filter_mset unsent L \<Longrightarrow> log_step L (CallFind, EventsReply xs None) L"
| log_find_failed: "log_step L (CallFind, EventsReply None (Some err)) L"
| log_all: "mset (elems xs) = filter_mset (\<lambda>e. e_Type e \<noteq> EventTypeDetection) L \<Longrightarrow>
    log_step L (CallGetAll limit, EventsReply xs None) L"
| log_all_failed: "log_step L (CallGetAll limit, EventsReply None (Some err)) L"
| log_marked: "log_step L (CallUpdate now uid, ErrReply r) (image_mset (mark now uid) L)"
| log_mark_failed: "log_step L (CallUpdate now uid, ErrReply (Some err)) L"

inductive log_run :: "Event multiset \<Rightarrow> (event_call \<times> event_reply) list \<Rightarrow> Event multiset \<Rightarrow> bool" where
  log_run_Nil: "log_run L [] L"
| log_run_Cons: "log_step L c L1 \<Longrightarrow> log_run L1 tr L' \<Longrightarrow> log_run L (c # tr) L'"

inductive_cases log_run_NilE: "log_run L [] L'"
inductive_cases log_run_ConsE: "log_run L (c # tr) L'"
inductive_cases log_AddE: "log_step L (CallAdd e, r) L'"
inductive_cases log_FindE: "log_step L (CallFind, r) L'"

fun admissible :: "time_codec \<Rightarrow> event_call \<Rightarrow> bool" where
  "admissible T (CallAdd e) = storable T e"
| "admissible T (CallUpdate now uid) = (uid \<noteq> [] \<and> keeps_time T (Some now))"
| "admissible T _ = True"

context event_log
begin

lemma call_step:
  assumes "store_call St c s = (r, s')" "St 0 = es" "ok s" "case c of CallAdd e \<Rightarrow> can e | CallUpdate t uid \<Rightarrow> False | _ \<Rightarrow> True"
  shows "ok s' \<and> log_step (log s) (c, r) (log s')"
proof (cases c)
  case (CallAdd e)
  then obtain r1 where "es_Add es e s = (r1, s')" "r = ErrReply r1" using assms(1,2) by (auto split: prod.splits)
  then show ?thesis using add_log[of e s r1 s'] assms(3,4) CallAdd by (auto intro: log_added log_add_failed)
next
  case CallFind
  then obtain xs err where find: "es_FindWhereAlertNotSent es s = ((xs, err), s')" "r = EventsReply xs err"
    using assms(1,2) by (auto split: prod.splits)
  then show ?thesis using find_log[OF find(1) assms(3)] CallFind
    by (cases err) (auto intro: log_found log_find_failed)
next
  case (CallGetAll limit)
  then obtain xs err where get: "es_GetAll es limit s = ((xs, err), s')" "r = EventsReply xs err"
    using assms(1,2) by (auto split: prod.splits)
  then show ?thesis using get_all_log[OF get(1) assms(3)] CallGetAll
    by (cases err) (auto intro: log_all log_all_failed)
qed (use assms(4) in simp)

end

context alert_log
begin

lemma update_step:
  assumes "store_call St (CallUpdate now uid) s = (r, s')" "St now = es" "ok s" "uid \<noteq> []"
  shows "ok s' \<and> log_step (log s) (CallUpdate now uid, r) (log s')"
proof -
  obtain r1 where upd: "es_UpdateAlertSent es uid s = (r1, s')" "r = ErrReply r1" using assms(1,2) by (auto split: prod.splits)
  note law = update_log[OF upd(1) assms(3,4)]
  consider "log s' = image_mset (mark now uid) (log s)" | err where "r1 = Some err" "log s' = log s" using law by auto
  then have "log_step (log s) (CallUpdate now uid, r) (log s')"
  proof cases
    case 1
    show ?thesis unfolding 1 upd(2) by (rule log_marked)
  next
    case 2
    show ?thesis unfolding 2 upd(2) by (rule log_mark_failed)
  qed
  then show ?thesis using law by blast
qed

end

context graph_db
begin

lemma store_call_step:
  assumes "store_call (dgraphEventStore D T) c s = (r, s')" "sound_graph T (graph s)" "admissible T c"
  shows "sound_graph T (graph s') \<and> log_step (events T (graph s)) (c, r) (events T (graph s'))"
proof (cases c)
  case (CallUpdate t uid)
  then have "tc_parse T (tc_format T t) = Some t" "uid \<noteq> []" using assms(3) by (simp_all add: keeps_time_def)
  then show ?thesis
    using alert_log.update_step[OF dgraph_alert_log, of T t "dgraphEventStore D T" uid s r s'] assms(1,2) CallUpdate by simp
qed (use event_log.call_step[OF dgraph_event_log assms(1) refl assms(2)] assms(3) in simp_all)

lemma store_run_refines:
  assumes "store_run (dgraphEventStore D T) s tr s'" "sound_graph T (graph s)" "\<And>c r. (c, r) \<in> set tr \<Longrightarrow> admissible T c"
  shows "sound_graph T (graph s') \<and> log_run (events T (graph s)) tr (events T (graph s'))"
  using assms
proof (induction rule: store_run.induct)
  case (store_run_Cons c s r s1 tr s')
  have "admissible T c" using store_run_Cons.prems(2)[of c r] by simp
  note step = store_call_step[OF store_run_Cons.hyps(1) store_run_Cons.prems(1) this]
  have "sound_graph T (graph s') \<and> log_run (events T (graph s1)) tr (events T (graph s'))"
    using step store_run_Cons.prems(2) by (intro store_run_Cons.IH) auto
  then show ?case using step log_run_Cons by blast
qed (simp add: log_run_Nil)

end

section \<open>The store in memory\<close>

text \<open>Times written as JSON numbers, an event with a pod, and the contract on the database in memory.\<close>

definition json_clock :: time_codec where
  "json_clock = \<lparr>tc_format = (\<lambda>t. render (JNum t)),
     tc_parse = (\<lambda>s. case json_parse s of Some (JNum i) \<Rightarrow> Some i | _ \<Rightarrow> None)\<rparr>"

lemma json_clock_law: "tc_parse json_clock (tc_format json_clock t) = Some t"
  using json_parse_render[of "JNum t"] by (simp add: json_clock_def)

interpretation mem_log: alert_log "dgraphEventStore gmem_dgraph json_clock now" "\<lambda>s. events json_clock (gclean s)"
  "\<lambda>s. sound_graph json_clock (gclean s)" "storable json_clock" now
  for now by (rule gmem.dgraph_alert_log[OF json_clock_law])

lemma sound_empty: "sound_graph T (gclean [])"
  by (simp add: sound_graph_def attr_def gclean_def)

lemma events_empty: "events T (gclean []) = {#}"
  by (simp add: events_def gclean_def)

definition sample_pod :: Pod where
  "sample_pod = \<lparr>pod_Uid = ''p1'', pod_Namespace = ''default'', pod_Name = ''nginx'', pod_Labels = None\<rparr>"

definition pod_violation :: Event where
  "pod_violation = NewEvent\<lparr>e_Type := EventTypeViolation, e_Uid := ''u1'',
     e_Targets := Some [zero_Target\<lparr>t_Pod := Some sample_pod\<rparr>]\<rparr>"

lemma sample_storable: "storable json_clock pod_violation"
  by (simp add: storable_def pod_violation_def NewEvent_def zero_Target_def keeps_time_def proper_alert_def
      sample_pod_def proper_pod_def agree_def)

definition violation_db :: "node list" where
  "violation_db = snd (event_Add gmem_dgraph json_clock pod_violation [])"

lemma sample_added: "event_Add gmem_dgraph json_clock pod_violation [] = (Some None, violation_db)"
proof -
  have "fst (event_Add gmem_dgraph json_clock pod_violation []) = Some None" by code_simp
  then show ?thesis unfolding violation_db_def by (metis prod.collapse)
qed

lemma sample_stored: "stored_event pod_violation = pod_violation"
  by (simp add: pod_violation_def stored_event_def stored_target_def NewEvent_def zero_Target_def)

lemma sample_events: "sound_graph json_clock (gclean violation_db)" "events json_clock (gclean violation_db) = {#pod_violation#}"
proof -
  have ts: "ts = elems (e_Targets pod_violation)" if "mset ts = mset (elems (e_Targets pod_violation))" for ts
    using that by (simp add: pod_violation_def)
  have same: "pod_violation\<lparr>e_Targets := Some (elems (e_Targets pod_violation))\<rparr> = pod_violation"
    by (simp add: pod_violation_def)
  note cases = graph_db.Add_cases[OF gmem.graph_db_axioms sample_added sound_empty sample_storable]
  from cases show "sound_graph json_clock (gclean violation_db)" by blast
  from cases obtain ts where "mset ts = mset (elems (e_Targets pod_violation))"
    "events json_clock (gclean violation_db) = add_mset (stored_event (pod_violation\<lparr>e_Targets := Some ts\<rparr>)) {#}"
    by (auto simp: events_empty)
  with ts[OF this(1)] show "events json_clock (gclean violation_db) = {#pod_violation#}" by (simp add: same sample_stored)
qed

text \<open>In memory, an event can always be marked.\<close>

lemma node_typed_merge:
  assumes "node_typed a" "map_of schema k \<noteq> Some ''bool''" "map_of schema k \<noteq> Some ''int''" "k \<noteq> ''dgraph.type''"
  shows "node_typed (merge_attrs a [(k, JStr x)])"
  using assms by (auto simp: node_typed_def merge_attrs_def list_all_iff split: option.splits)

lemma gclean_set_node:
  assumes "gclean g = g" "plain_uid u" "\<not> blank u" "map_of schema k = Some ''dateTime''"
  shows "gclean (set_node (u, [(k, JStr x)]) g) = set_node (u, [(k, JStr x)]) g"
proof (rule gclean_id)
  have k: "k \<noteq> ''dgraph.type''" using assms(4) by (auto simp: schema_def)
  have d: "distinct (map fst g)" using gclean_distinct[of g] assms(1) by simp
  have "map (fst \<circ> (\<lambda>m. if fst m = u then (fst m, F m) else m)) g = map fst g" for F :: "node \<Rightarrow> (string \<times> json) list"
    by simp
  then show "distinct (map fst (set_node (u, [(k, JStr x)]) g))"
    using d by (simp add: set_node_def del: map_eq_conv comp_apply)
  have g: "m \<in> set g \<Longrightarrow> plain_uid (fst m) \<and> node_typed (snd m) \<and> \<not> blank (fst m)" for m
    using gclean_set[of m g] assms(1) by simp
  have merged: "node_typed a \<Longrightarrow> node_typed (merge_attrs a [(k, JStr x)])" for a
    using node_typed_merge[of a k x] assms(4) k by simp
  have "node_typed [(k, JStr x)]" using merged[of "[]"] by (simp add: merge_attrs_def node_typed_def)
  moreover fix n
  assume "n \<in> set (set_node (u, [(k, JStr x)]) g)"
  then have "n = (u, [(k, JStr x)]) \<or> n \<in> set g \<or> (\<exists>m\<in>set g. n = (fst m, merge_attrs (snd m) [(k, JStr x)]))"
    by (force simp: set_node_def split: if_splits)
  ultimately show "plain_uid (fst n) \<and> node_typed (snd n) \<and> \<not> blank (fst n)"
    using g merged assms(2,3) by (elim disjE bexE) simp_all
qed

lemma gmem_mark: "fst (event_UpdateAlertSent gmem_dgraph json_clock now uid s) = None"
proof -
  let ?up = "alert_upsert json_clock now uid" and ?g = "gclean s" and ?kvs = "alert_members json_clock now"
  have one: "gclean (set_node (u, ?kvs) g) = set_node (u, ?kvs) g" if "gclean g = g" "plain_uid u" "\<not> blank u" for u g
    unfolding alert_members_def by (rule gclean_set_node[OF that]) (simp add: schema_def)
  have "gclean (set_nodes (map (\<lambda>n. (fst n, ?kvs)) ns) g) = set_nodes (map (\<lambda>n. (fst n, ?kvs)) ns) g"
    if "gclean g = g" "\<And>n. n \<in> set ns \<Longrightarrow> plain_uid (fst n) \<and> \<not> blank (fst n)" for ns g
    using that by (induction ns arbitrary: g) (auto simp: set_nodes_def one)
  from this[of ?g "found ?up ?g"] have "gclean (snd (gmem_upsert ?up ''uid(evt)'' ?kvs ?g)) = snd (gmem_upsert ?up ''uid(evt)'' ?kvs ?g)"
    using one[of ?g "fresh_uid ?g"] upsert_fresh(2) fresh_uid_plain gclean_set[of _ s]
    by (auto simp: gmem_upsert_def found_def)
  moreover have "json_parse (u_SetJson ?up) = Some (JObj ((''uid'', JStr ''uid(evt)'') # ?kvs))"
    unfolding alert_upsert_def upsert.simps by (rule json_parse_render)
  ultimately show ?thesis
    by (simp add: UpdateAlertSent_Do gmem_dgraph_def gmem_Do_def case_prod_unfold Let_def del: render.simps)
qed

section \<open>Properties\<close>


lemma sample_run: "store_run (dgraphEventStore gmem_dgraph json_clock) [] [(CallAdd pod_violation, ErrReply None)] violation_db"
proof (rule store_run_Cons[OF _ store_run_Nil])
  show "store_call (dgraphEventStore gmem_dgraph json_clock) (CallAdd pod_violation) [] = (ErrReply None, violation_db)"
    by (simp add: dgraphEventStore_def sample_added)
qed


lemma unsent_refresh [simp]: "unsent (fold refresh ps e) = unsent e"
proof (induction ps arbitrary: e)
  case (Cons p ps)
  have "unsent (refresh p e) = unsent e" by (simp add: unsent_def refresh_def)
  with Cons show ?case by simp
qed simp

text \<open>
  C21: an event that was added without error is found. The next search for events without an alert
  gives the new event as it was ingested, except that its targets may come in another order and lost
  their detection data, and gives every event that it gave before, each once, with the pods that the
  new event also has brought up to date.
\<close>

theorem add_then_find:
  assumes "graph_db D graph" "sound_graph T (graph s)" "storable T e" "unsent e"
    "event_Add D T e s = (Some None, s1)" "event_FindWhereAlertNotSent D T s1 = ((xs, None), s2)"
  shows "\<exists>ts. mset ts = mset (elems (e_Targets e)) \<and>
    mset (elems xs) = add_mset (stored_event (e\<lparr>e_Targets := Some ts\<rparr>))
      (image_mset (fold refresh (pods_of (elems (e_Targets e)))) (filter_mset unsent (events T (graph s))))"
proof -
  let ?F = "fold refresh (pods_of (elems (e_Targets e)))"
  obtain ts where ts: "mset ts = mset (elems (e_Targets e))" "sound_graph T (graph s1)"
    "events T (graph s1) = add_mset (stored_event (e\<lparr>e_Targets := Some ts\<rparr>)) (image_mset ?F (events T (graph s)))"
    using graph_db.Add_cases[OF assms(1,5,2,3)] by blast
  have "filter_mset unsent (image_mset ?F L) = image_mset ?F (filter_mset unsent L)" for L
    by (simp add: filter_mset_image_mset)
  moreover have "unsent (stored_event (e\<lparr>e_Targets := Some ts\<rparr>))"
    using assms(4) by (simp add: unsent_def stored_event_def)
  ultimately show ?thesis
    using graph_db.find_unsent[OF assms(1,6) ts(2)] ts(1,3) by auto
qed

definition sample_found :: "Event slice" where
  "sample_found = fst (fst (event_FindWhereAlertNotSent gmem_dgraph json_clock violation_db))"

lemma sample_find: "event_FindWhereAlertNotSent gmem_dgraph json_clock violation_db = ((sample_found, None), violation_db)"
proof -
  have "snd (fst (event_FindWhereAlertNotSent gmem_dgraph json_clock violation_db)) = None"
    "snd (event_FindWhereAlertNotSent gmem_dgraph json_clock violation_db) = violation_db" by code_simp+
  then show ?thesis unfolding sample_found_def by (metis prod.collapse)
qed

theorem add_then_find_witness: "elems sample_found = [pod_violation]"
proof -
  have "unsent pod_violation"
    by (simp add: unsent_def pod_violation_def NewEvent_def EventTypeViolation_def EventTypeDetection_def)
  from add_then_find[OF gmem.graph_db_axioms sound_empty sample_storable this sample_added sample_find]
  have "\<exists>ts. mset ts = mset (elems (e_Targets pod_violation)) \<and>
      mset (elems sample_found) = {#stored_event (pod_violation\<lparr>e_Targets := Some ts\<rparr>)#}" by (simp add: events_empty)
  then have "mset (elems sample_found) = {#stored_event pod_violation#}"
    by (auto simp: pod_violation_def)
  then show ?thesis by (simp add: sample_stored)
qed

section \<open>Alerts\<close>

text \<open>The alerts that a bag of events is due, and those of them that Alertmanager refuses.\<close>

definition due :: "(Timestamp \<Rightarrow> string) \<Rightarrow> Event multiset \<Rightarrow> string gomap multiset" where
  "due RFC3339 L = image_mset (\<lambda>e. the (event_alert RFC3339 e)) (filter_mset (\<lambda>e. unsent e \<and> alertable e \<and> event_alert RFC3339 e \<noteq> None) L)"

lemma mset_alerts: "mset xs = filter_mset unsent L \<Longrightarrow> mset (alerts RFC3339 xs) = due RFC3339 L"
proof -
  assume xs: "mset xs = filter_mset unsent L"
  let ?P = "\<lambda>e. alertable e \<and> event_alert RFC3339 e \<noteq> None"
  have "mset (filter ?P xs) = filter_mset (\<lambda>e. unsent e \<and> ?P e) L"
    using arg_cong[OF xs, of "filter_mset ?P"] by (simp add: filter_filter_mset conj_commute)
  then show ?thesis unfolding alerts_def due_def mset_map by simp
qed

lemma due_refused:
  "due RFC3339 (filter_mset (\<lambda>e. \<not> delivered RFC3339 answer e) L) = filter_mset (\<lambda>ls. answer ls \<noteq> None) (due RFC3339 L)"
proof -
  have "filter_mset (\<lambda>e. unsent e \<and> alertable e \<and> event_alert RFC3339 e \<noteq> None) (filter_mset (\<lambda>e. \<not> delivered RFC3339 answer e) L) =
      filter_mset (\<lambda>e. answer (the (event_alert RFC3339 e)) \<noteq> None) (filter_mset (\<lambda>e. unsent e \<and> alertable e \<and> event_alert RFC3339 e \<noteq> None) L)"
    by (auto simp: filter_filter_mset delivered_def intro!: filter_mset_cong)
  then show ?thesis by (simp add: due_def filter_mset_image_mset)
qed

lemma due_marked:
  assumes "inj_on e_Uid (set_mset L)" "U = e_Uid ` {e \<in> set_mset L. unsent e \<and> delivered RFC3339 answer e}"
  shows "due RFC3339 (image_mset (mark_all now U) L) = filter_mset (\<lambda>ls. answer ls \<noteq> None) (due RFC3339 L)"
proof -
  have mem: "e_Uid e \<in> U \<longleftrightarrow> unsent e \<and> delivered RFC3339 answer e" if "e \<in># L" for e
    using assms that by (auto dest: inj_onD)
  let ?P = "\<lambda>e. unsent e \<and> alertable e \<and> event_alert RFC3339 e \<noteq> None"
  have "?P (mark_all now U e) \<longleftrightarrow> ?P e \<and> \<not> delivered RFC3339 answer e" if "e \<in># L" for e
    using mem[OF that] by (cases "e_Uid e \<in> U") (auto simp: mark_all_def unsent_def)
  then have "filter_mset ?P (image_mset (mark_all now U) L) =
      image_mset (mark_all now U) (filter_mset (\<lambda>e. ?P e \<and> \<not> delivered RFC3339 answer e) L)"
    by (simp add: filter_mset_image_mset cong: filter_mset_cong)
  also have "\<dots> = filter_mset (\<lambda>e. ?P e \<and> \<not> delivered RFC3339 answer e) L"
    using mem by (intro trans[OF image_mset_cong multiset.map_ident]) (auto simp: mark_all_def)
  finally have "due RFC3339 (image_mset (mark_all now U) L) = due RFC3339 (filter_mset (\<lambda>e. \<not> delivered RFC3339 answer e) L)"
    unfolding due_def by (simp add: filter_filter_mset conj_ac)
  then show ?thesis by (simp add: due_refused)
qed

lemma round_over_dgraph:
  assumes "graph_db D graph" "sound_graph T (graph s)" "keeps_time T (Some now)"
    "\<forall>e\<in>#events T (graph s). e_Uid e \<noteq> []"
    "LoopSendAlerts_round RFC3339 (recording_post answer) (dgraphEventStore D T now) (s, []) = (s', posts)"
  shows "(mset posts = due RFC3339 (events T (graph s)) \<or> posts = [] \<and> snd (fst (event_FindWhereAlertNotSent D T s)) \<noteq> None) \<and>
    (\<exists>U. events T (graph s') = image_mset (\<lambda>e. if e_Uid e \<in> U then e\<lparr>e_AlertSentAt := Some now\<rparr> else e) (events T (graph s)) \<and>
       U \<subseteq> e_Uid ` {e. e \<in># events T (graph s) \<and> unsent e \<and> delivered RFC3339 answer e})"
proof -
  have codec: "tc_parse T (tc_format T now) = Some now" using assms(3) by (simp add: keeps_time_def)
  note law = graph_db.dgraph_alert_log[OF assms(1) codec]
  obtain xs U where r: "posts = [] @ alerts RFC3339 xs" "events T (graph s') = image_mset (mark_all now U) (events T (graph s))"
    "U \<subseteq> e_Uid ` set (filter (delivered RFC3339 answer) xs)"
    "mset xs = filter_mset unsent (events T (graph s)) \<or>
       xs = [] \<and> snd (fst (es_FindWhereAlertNotSent (dgraphEventStore D T now) s)) \<noteq> None"
    by (rule alert_log.round_log[OF law assms(5,2)]) (use assms(4) in blast)+
  have find: "es_FindWhereAlertNotSent (dgraphEventStore D T now) s = event_FindWhereAlertNotSent D T s"
    by (simp add: dgraphEventStore_def)
  have "mset posts = due RFC3339 (events T (graph s)) \<or> posts = [] \<and> snd (fst (event_FindWhereAlertNotSent D T s)) \<noteq> None"
    using r(1,4) mset_alerts unfolding find by (auto simp: alerts_def)
  moreover have "set xs \<subseteq> {e. e \<in># events T (graph s) \<and> unsent e}"
    using r(4) by (auto dest: arg_cong[of _ _ set_mset])
  then have "U \<subseteq> e_Uid ` {e. e \<in># events T (graph s) \<and> unsent e \<and> delivered RFC3339 answer e}"
    using r(3) by fastforce
  ultimately show ?thesis using r(2) unfolding mark_all_def[abs_def] by blast
qed

text \<open>
  A round of the alert loop over the Dgraph store posts, for each event in the graph that is a
  violation or a Falco alert, is not marked and has a pod, exactly one alert (or none at all if the
  search failed), and the only change to the events is that some of those whose alert was taken, or
  that had none, are now marked with the time.
\<close>

theorem alert_round_over_dgraph:
  assumes "graph_db D graph" "sound_graph T (graph s)" "keeps_time T (Some now)"
    "\<forall>e\<in>#events T (graph s). e_Uid e \<noteq> []"
    "LoopSendAlerts_round RFC3339 (recording_post answer) (dgraphEventStore D T now) (s, []) = (s', posts)"
  shows "(mset posts = due RFC3339 (events T (graph s)) \<or> posts = [] \<and> snd (fst (event_FindWhereAlertNotSent D T s)) \<noteq> None) \<and>
    (\<exists>U. events T (graph s') = image_mset (\<lambda>e. if e_Uid e \<in> U then e\<lparr>e_AlertSentAt := Some now\<rparr> else e) (events T (graph s)) \<and>
       U \<subseteq> e_Uid ` {e. e \<in># events T (graph s) \<and> unsent e \<and> delivered RFC3339 answer e})"
  by (rule round_over_dgraph[OF assms])

text \<open>The round in the sample database: one alert, and the event is marked.\<close>

definition sample_round :: "(string gomap \<Rightarrow> go_error option) \<Rightarrow> node list \<Rightarrow> node list \<times> string gomap list" where
  "sample_round answer s = LoopSendAlerts_round Itoa (recording_post answer) (dgraphEventStore gmem_dgraph json_clock 7) (s, [])"

lemma sample_uids: "\<forall>e\<in>#events json_clock (gclean violation_db). e_Uid e \<noteq> []"
  by (simp add: sample_events) (simp add: pod_violation_def)

theorem alert_round_over_dgraph_witness: "length (snd (sample_round (\<lambda>_. None) violation_db)) = 1"
proof -
  let ?r = "sample_round (\<lambda>_. None) violation_db"
  have "keeps_time json_clock (Some 7)" by (simp add: keeps_time_def json_clock_law)
  note spec = alert_round_over_dgraph[OF gmem.graph_db_axioms sample_events(1) this sample_uids, of Itoa "\<lambda>_. None" "fst ?r" "snd ?r"]
  have "mset (snd ?r) = due Itoa {#pod_violation#}"
    using spec by (simp add: sample_round_def sample_events sample_find)
  then have "size (mset (snd ?r)) = size (due Itoa {#pod_violation#})" by simp
  also have "\<dots> = 1"
    by (simp add: due_def unsent_def alertable_def event_alert_def pod_violation_def NewEvent_def zero_Target_def
        EventTypeViolation_def EventTypeDetection_def)
  finally show ?thesis by simp
qed

text \<open>
  C10: no alert is sent twice and none is forgotten. If the database does not fail and the events have
  different uids, the alerts of the next round are exactly those that Alertmanager refused in this one.
\<close>

theorem alert_not_repeated:
  assumes "graph_db D graph" "sound_graph T (graph s)" "keeps_time T (Some now)" "keeps_time T (Some now')"
    "\<forall>e\<in>#events T (graph s). e_Uid e \<noteq> []" "inj_on e_Uid (set_mset (events T (graph s)))"
    "\<forall>uid s. uid \<noteq> [] \<longrightarrow> sound_graph T (graph s) \<longrightarrow> fst (event_UpdateAlertSent D T now uid s) = None"
    "snd (fst (event_FindWhereAlertNotSent D T s)) = None" "snd (fst (event_FindWhereAlertNotSent D T s1)) = None"
    "LoopSendAlerts_round RFC3339 (recording_post answer) (dgraphEventStore D T now) (s, []) = (s1, posts)"
    "LoopSendAlerts_round RFC3339 (recording_post answer') (dgraphEventStore D T now') (s1, []) = (s2, posts')"
  shows "mset posts' = filter_mset (\<lambda>ls. answer ls \<noteq> None) (mset posts)"
proof -
  have codec: "tc_parse T (tc_format T now) = Some now" "tc_parse T (tc_format T now') = Some now'"
    using assms(3,4) by (simp_all add: keeps_time_def)
  note law = graph_db.dgraph_alert_log[OF assms(1) codec(1)] and law' = graph_db.dgraph_alert_log[OF assms(1) codec(2)]
  have find: "es_FindWhereAlertNotSent (dgraphEventStore D T n) = event_FindWhereAlertNotSent D T" for n
    by (simp add: dgraphEventStore_def)
  have rel: "\<forall>uid s. uid \<noteq> [] \<longrightarrow> sound_graph T (graph s) \<longrightarrow> fst (es_UpdateAlertSent (dgraphEventStore D T now) uid s) = None"
    using assms(7) by (simp add: dgraphEventStore_def)
  obtain xs U where r: "sound_graph T (graph s1)" "posts = [] @ alerts RFC3339 xs"
    "events T (graph s1) = image_mset (mark_all now U) (events T (graph s))"
    "U = e_Uid ` set (filter (delivered RFC3339 answer) xs)" "mset xs = filter_mset unsent (events T (graph s))"
    by (rule alert_log.round_log[OF law assms(10,2)]) (use assms(5,8) rel in \<open>auto simp: find\<close>)
  have uids: "\<forall>e\<in>#events T (graph s1). e_Uid e \<noteq> []" using assms(5) by (auto simp: r(3))
  obtain ys where r': "posts' = [] @ alerts RFC3339 ys" "mset ys = filter_mset unsent (events T (graph s1))"
    by (rule alert_log.round_log[OF law' assms(11) r(1)]) (use uids assms(9) in \<open>auto simp: find\<close>)
  have "set xs = {e \<in> set_mset (events T (graph s)). unsent e}" using arg_cong[OF r(5), of set_mset] by simp
  then have "U = e_Uid ` {e \<in> set_mset (events T (graph s)). unsent e \<and> delivered RFC3339 answer e}"
    unfolding r(4) by (auto intro!: arg_cong[of _ _ "image e_Uid"])
  from due_marked[OF assms(6) this, of now] show ?thesis
    using mset_alerts[OF r(5)] mset_alerts[OF r'(2)] r(2,3) r'(1) by simp
qed

theorem alert_not_repeated_witness:
  "snd (sample_round (\<lambda>_. None) violation_db) \<noteq> [] \<and>
   snd (sample_round (\<lambda>_. None) (fst (sample_round (\<lambda>_. None) violation_db))) = []"
proof
  let ?a = "\<lambda>_. None" and ?s = "fst (sample_round (\<lambda>_. None) violation_db)"
  show "snd (sample_round ?a violation_db) \<noteq> []" by code_simp
  have k: "keeps_time json_clock (Some 7)" by (simp add: keeps_time_def json_clock_law)
  have inj: "inj_on e_Uid (set_mset (events json_clock (gclean violation_db)))" by (simp add: sample_events)
  have rel: "\<forall>uid s. uid \<noteq> [] \<longrightarrow> sound_graph json_clock (gclean s) \<longrightarrow> fst (event_UpdateAlertSent gmem_dgraph json_clock 7 uid s) = None"
    using gmem_mark by blast
  have find: "snd (fst (event_FindWhereAlertNotSent gmem_dgraph json_clock violation_db)) = None" by (simp add: sample_find)
  have find': "snd (fst (event_FindWhereAlertNotSent gmem_dgraph json_clock ?s)) = None" by code_simp
  have run: "LoopSendAlerts_round Itoa (recording_post ?a) (dgraphEventStore gmem_dgraph json_clock 7) (violation_db, []) =
      (?s, snd (sample_round ?a violation_db))" by (simp add: sample_round_def)
  have run': "LoopSendAlerts_round Itoa (recording_post ?a) (dgraphEventStore gmem_dgraph json_clock 7) (?s, []) =
      (fst (sample_round ?a ?s), snd (sample_round ?a ?s))" by (simp add: sample_round_def)
  show "snd (sample_round ?a ?s) = []"
    using alert_not_repeated[OF gmem.graph_db_axioms sample_events(1) k k sample_uids inj rel find find' run run'] by simp
qed

section \<open>From ingestion to the alert\<close>

lemma fold_refresh_Uid [simp]: "e_Uid (fold refresh ps e) = e_Uid e"
proof (induction ps arbitrary: e)
  case (Cons p ps)
  have "e_Uid (refresh p e) = e_Uid e" by (simp add: refresh_def)
  with Cons show ?case by simp
qed simp

lemma first_pod_None: "first_pod ts = None \<longleftrightarrow> (\<forall>t\<in>set ts. t_Pod t = None)"
  by (induction ts) (auto split: option.splits)

text \<open>
  C11: an event that the worker took from the queue reaches Alertmanager. If the store accepted it and
  it is a violation or a Falco alert with a pod, the next round whose search succeeds posts its alert,
  with the server's time and the uid that the worker gave it, for a target that has a pod.
\<close>

theorem stored_event_is_alerted:
  assumes "graph_db D graph" "sound_graph T (graph s)" "keeps_time T (Some now')" "\<forall>e\<in>#events T (graph s). e_Uid e \<noteq> []"
    "processEvent (dgraphEventStore D T t0) now uid e s = (e', s1)" "storable T e'" "uid \<noteq> []"
    "fst (es_Add (dgraphEventStore D T t0) e' s) = None"
    "alertable e" "e_AlertSentAt e = None" "\<exists>t\<in>set (elems (e_Targets e)). t_Pod t \<noteq> None"
    "snd (fst (event_FindWhereAlertNotSent D T s1)) = None"
    "LoopSendAlerts_round RFC3339 (recording_post answer) (dgraphEventStore D T now') (s1, []) = (s2, posts)"
  shows "\<exists>ts t p. mset ts = mset (elems (e_Targets e)) \<and> first_pod (map stored_target ts) = Some (t, p) \<and>
    alert_labels RFC3339 (stored_event (e\<lparr>e_ServerTimestamp := Some now, e_Uid := uid, e_Targets := Some ts\<rparr>)) t p \<in> set posts"
proof -
  have e': "e' = e\<lparr>e_ServerTimestamp := Some now, e_Uid := uid\<rparr>" "s1 = snd (es_Add (dgraphEventStore D T t0) e' s)"
    using assms(5) by (auto simp: processEvent_def Let_def)
  then have add: "es_Add (dgraphEventStore D T t0) e' s = (None, s1)" using assms(8) by (simp add: prod_eq_iff)
  obtain ts where ts: "mset ts = mset (elems (e_Targets e))" "sound_graph T (graph s1)"
    "events T (graph s1) = add_mset (stored_event (e'\<lparr>e_Targets := Some ts\<rparr>)) (image_mset (fold refresh (pods_of (elems (e_Targets e')))) (events T (graph s)))"
    using event_log.add_log[OF graph_db.dgraph_event_log[OF assms(1)] add assms(2,6)] unfolding logged_def e'(1) by auto
  let ?new = "stored_event (e'\<lparr>e_Targets := Some ts\<rparr>)"
  have uids: "\<forall>x\<in>#events T (graph s1). e_Uid x \<noteq> []"
    using assms(4,7) unfolding ts(3) by (auto simp: stored_event_def e'(1))
  have posts: "mset posts = due RFC3339 (events T (graph s1))"
    using round_over_dgraph[OF assms(1) ts(2) assms(3) uids assms(13)] assms(12) by blast
  have "set ts = set (elems (e_Targets e))" by (rule mset_eq_setD[OF ts(1)])
  then have "first_pod (map stored_target ts) \<noteq> None"
    using assms(11) by (auto simp: first_pod_None stored_target_def)
  then obtain t p where tp: "first_pod (map stored_target ts) = Some (t, p)" by auto
  then have alert: "event_alert RFC3339 ?new = Some (alert_labels RFC3339 ?new t p)"
    by (simp add: event_alert_def stored_event_def)
  have "unsent ?new" "alertable ?new"
    using assms(9,10) by (auto simp: unsent_def alertable_def stored_event_def e'(1) EventTypeViolation_def EventTypeFalcoAlert_def EventTypeDetection_def)
  then have "alert_labels RFC3339 ?new t p \<in># mset posts" unfolding posts due_def ts(3) using alert by simp
  then show ?thesis using ts(1) tp unfolding e'(1) by auto
qed

theorem stored_event_is_alerted_witness:
  "snd (sample_round (\<lambda>_. None) (snd (processEvent (dgraphEventStore gmem_dgraph json_clock 0) 5 ''u2'' pod_violation []))) \<noteq> []"
proof -
  let ?st = "dgraphEventStore gmem_dgraph json_clock 0" and ?a = "\<lambda>_. None :: go_error option"
  let ?e = "pod_violation\<lparr>e_ServerTimestamp := Some 5, e_Uid := ''u2''\<rparr>"
  let ?s = "snd (processEvent ?st 5 ''u2'' pod_violation [])"
  have uids: "\<forall>e\<in>#events json_clock (gclean []). e_Uid e \<noteq> []" by (simp add: events_empty)
  have run: "processEvent ?st 5 ''u2'' pod_violation [] = (?e, ?s)" by (simp add: processEvent_def Let_def)
  have st: "storable json_clock ?e" using sample_storable by (simp add: storable_def keeps_time_def json_clock_law)
  have al: "alertable pod_violation" "e_AlertSentAt pod_violation = None"
    "\<exists>t\<in>set (elems (e_Targets pod_violation)). t_Pod t \<noteq> None"
    by (simp_all add: alertable_def pod_violation_def NewEvent_def)
  have add: "fst (es_Add ?st ?e []) = None" by code_simp
  have find: "snd (fst (event_FindWhereAlertNotSent gmem_dgraph json_clock ?s)) = None" by code_simp
  have k: "keeps_time json_clock (Some 7)" "''u2'' \<noteq> []" by (simp_all add: keeps_time_def json_clock_law)
  have round: "LoopSendAlerts_round Itoa (recording_post ?a) (dgraphEventStore gmem_dgraph json_clock 7) (?s, []) =
      (fst (sample_round ?a ?s), snd (sample_round ?a ?s))" by (simp add: sample_round_def)
  show ?thesis
    using stored_event_is_alerted[OF gmem.graph_db_axioms sound_empty k(1) uids run st k(2) add al find round] by auto
qed

end
