(* ===== verification/AlertPipeline.thy ===== *)
theory AlertPipeline
  imports NodeAgent EventServer EventLog
begin

text \<open>
  The server at work (\<^verbatim>\<open>pkg/server/server.go\<close>, \<^verbatim>\<open>StartAlertDispatcher\<close> and \<^verbatim>\<open>Start\<close>): the goroutines of the ingestion and the loop
  of the alert dispatcher share one event store and interleave. The loop is taken apart into its
  search, the events that it found, one by one, and the wait before the next round, so that events are
  added between any two of these. The contract of the store is the locale \<open>alert_store\<close>, which the
  Dgraph store implements; over it, a violation that was accepted reaches Alertmanager.
\<close>

section \<open>The server\<close>

text \<open>
  The state: the ingestion with its store, where the loop of the dispatcher is (\<open>None\<close>: it waits;
  \<open>Some xs\<close>: it has the events \<open>xs\<close> left in this round), and what was posted to Alertmanager.
\<close>

record 's alerting =
  al_ingest :: "(Event ChannelQueue, 's) ingestion"
  al_found :: "Event list option"
  al_posts :: "string gomap list"

definition al_store :: "'s alerting \<Rightarrow> 's" where
  "al_store w = in_store (al_ingest w)"

definition set_al_store :: "'s \<Rightarrow> 's alerting \<Rightarrow> 's alerting" where
  "set_al_store s w = w\<lparr>al_ingest := (al_ingest w)\<lparr>in_store := s\<rparr>\<rparr>"

datatype server_label =
    Worked ingest_label "go_error option"
  | Found "go_error option"
  | Alerted Timestamp Event
  | Waited

text \<open>The error of the addition that a step of the worker makes.\<close>

fun add_error :: "'s event_store \<Rightarrow> ingest_label \<Rightarrow> 's \<Rightarrow> go_error option" where
  "add_error es (Stored l e e') s = fst (es_Add es e' s)"
| "add_error es _ s = None"

inductive server_step ::
  "(Timestamp \<Rightarrow> 's event_store) \<Rightarrow> (Timestamp \<Rightarrow> string) \<Rightarrow> 's alerting \<Rightarrow> server_label \<Rightarrow> 's alerting \<Rightarrow> bool"
  for St RFC3339 where
  server_works: "ingest_step channel_queue (St 0) (al_ingest w) a st \<Longrightarrow>
     server_step St RFC3339 w (Worked a (add_error (St 0) a (al_store w))) (w\<lparr>al_ingest := st\<rparr>)"
| server_finds: "al_found w = None \<Longrightarrow> es_FindWhereAlertNotSent (St 0) (al_store w) = ((xs, err), s) \<Longrightarrow>
     server_step St RFC3339 w (Found err) ((set_al_store s w)\<lparr>al_found := Some (elems xs)\<rparr>)"
| server_alerts: "al_found w = Some (e # rest) \<Longrightarrow>
     alert_events RFC3339 (recording_post answer) (St now) [e] (al_store w, al_posts w) = (s, posts) \<Longrightarrow>
     server_step St RFC3339 w (Alerted now e) ((set_al_store s w)\<lparr>al_found := Some rest, al_posts := posts\<rparr>)"
| server_waits: "al_found w = Some [] \<Longrightarrow> server_step St RFC3339 w Waited (w\<lparr>al_found := None\<rparr>)"

inductive server_run ::
  "(Timestamp \<Rightarrow> 's event_store) \<Rightarrow> (Timestamp \<Rightarrow> string) \<Rightarrow> 's alerting \<Rightarrow> server_label list \<Rightarrow> 's alerting \<Rightarrow> bool"
  for St RFC3339 where
  server_run_empty: "server_run St RFC3339 w [] w"
| server_run_step: "server_run St RFC3339 w tr w' \<Longrightarrow> server_step St RFC3339 w' a w'' \<Longrightarrow> server_run St RFC3339 w (tr @ [a]) w''"

definition start_server :: "'s \<Rightarrow> 's alerting" where
  "start_server s = \<lparr>al_ingest = start_ingestion s, al_found = None, al_posts = []\<rparr>"

text \<open>What the worker did in a run, and the events that it gave to the store.\<close>

fun worked_by :: "server_label \<Rightarrow> ingest_label list" where
  "worked_by (Worked a err) = [a]"
| "worked_by _ = []"

definition worked :: "server_label list \<Rightarrow> ingest_label list" where
  "worked tr = concat (map worked_by tr)"

fun stored_by :: "server_label \<Rightarrow> Event list" where
  "stored_by (Worked (Stored l e e') err) = [e']"
| "stored_by _ = []"

definition stored_in :: "server_label list \<Rightarrow> Event list" where
  "stored_in tr = concat (map stored_by tr)"

lemma al_simps [simp]:
  "al_store (set_al_store s w) = s" "al_found (set_al_store s w) = al_found w" "al_posts (set_al_store s w) = al_posts w"
  "in_queues (al_ingest (set_al_store s w)) = in_queues (al_ingest w)"
  "lane_chan l (al_ingest (set_al_store s w)) = lane_chan l (al_ingest w)"
  "al_store (w\<lparr>al_found := f\<rparr>) = al_store w" "al_store (w\<lparr>al_posts := p\<rparr>) = al_store w"
  "al_store (w\<lparr>al_ingest := st\<rparr>) = in_store st"
  by (simp_all add: al_store_def set_al_store_def)

lemma trace_simps [simp]:
  "worked [] = []" "worked (tr @ [a]) = worked tr @ worked_by a"
  "stored_in [] = []" "stored_in (tr @ tr') = stored_in tr @ stored_in tr'" "stored_in [a] = stored_by a"
  by (simp_all add: worked_def stored_in_def)

lemma server_run_append:
  "server_run St RFC3339 w' tr' w'' \<Longrightarrow> server_run St RFC3339 w tr w' \<Longrightarrow> server_run St RFC3339 w (tr @ tr') w''"
proof (induction rule: server_run.induct)
  case (server_run_step w' tr' w1 a w2)
  then show ?case using server_run.server_run_step[of St RFC3339 w "tr @ tr'" w1 a w2] by simp
qed simp

text \<open>The queues of the server are those of the ingestion, whatever the dispatcher does.\<close>

lemma server_step_in_order:
  assumes "server_step St RFC3339 w a w'" "lane_in_order channel l tr (al_ingest w)"
  shows "lane_in_order channel l (tr @ worked_by a) (al_ingest w')"
  using assms
  by (cases rule: server_step.cases) (auto simp: lane_in_order_def dest: ceq.ingest_step_in_order)

lemma server_run_in_order:
  "server_run St RFC3339 w tr w' \<Longrightarrow> lane_in_order channel l [] (al_ingest w) \<Longrightarrow>
     lane_in_order channel l (worked tr) (al_ingest w')"
  by (induction rule: server_run.induct) (auto dest: server_step_in_order)

lemma taken_stored:
  assumes "e \<in> set (taken l (worked tr))"
  obtains e' err where "Worked (Stored l e e') err \<in> set tr"
proof -
  obtain b where b: "b \<in> set tr" "e \<in> set (concat (map (taken_by l) (worked_by b)))"
    using assms by (auto simp: taken_def worked_def)
  from b(2) obtain a err where "b = Worked a err" "e \<in> set (taken_by l a)" by (cases b) auto
  moreover from this(2) obtain e' where "a = Stored l e e'" by (cases a) (auto split: if_splits)
  ultimately show ?thesis using that b(1) by blast
qed

lemma accepted_request:
  assumes "Worked (Replied req (Some \<lparr>iep_Success = True\<rparr>, None)) err \<in> set tr" "ier_Event req = Some e" "lane_of e = l"
  shows "e \<in> set (accepted l (worked tr))"
proof -
  have "Replied req (Some \<lparr>iep_Success = True\<rparr>, None) \<in> set (worked tr)" using assms(1) by (force simp: worked_def)
  then show ?thesis using assms(2,3) by (force simp: accepted_def)
qed

lemma stored_stamped:
  "server_run St RFC3339 w tr w' \<Longrightarrow> Worked (Stored l e e') err \<in> set tr \<Longrightarrow>
     \<exists>t u. e' = e\<lparr>e_ServerTimestamp := t, e_Uid := u\<rparr>"
proof (induction rule: server_run.induct)
  case (server_run_step w tr w1 a w2)
  have "\<exists>t u. e' = e\<lparr>e_ServerTimestamp := t, e_Uid := u\<rparr>" if "a = Worked (Stored l e e') err"
    using server_run_step.hyps(2) that
    by (auto elim!: server_step.cases ingest_step.cases simp: processEvent_def Let_def) blast
  then show ?case using server_run_step by auto
qed simp

section \<open>What an alert says\<close>

text \<open>The events that report a violation, and the alerts that tell it.\<close>

definition violating_process :: "ExecEvent \<Rightarrow> Process" where
  "violating_process v = \<lparr>p_Pid = ev_Pid v, p_Name = ev_Command v\<rparr>"

definition reports :: "ExecEvent \<Rightarrow> Event \<Rightarrow> bool" where
  "reports v x \<longleftrightarrow> e_Type x = EventTypeViolation \<and>
     (\<exists>t p. e_Targets x = Some [t] \<and> t_Pod t = Some p \<and> pod_Uid p = ev_K8sPodUID v \<and>
        t_ViolatedProcesses t = Some [violating_process v])"

definition tells :: "ExecEvent \<Rightarrow> string gomap \<Rightarrow> bool" where
  "tells v ls \<longleftrightarrow> map_get ls ''type'' = Some EventTypeViolation \<and> map_get ls ''pod_uid'' = Some (ev_K8sPodUID v) \<and>
     map_get ls ''violated_processes'' = Some (violatedProcessesToString [violating_process v])"

lemma report_reports:
  assumes "ier_Event (reportEvent now v) = Some e"
  shows "reports v (e\<lparr>e_ServerTimestamp := t, e_Uid := u\<rparr>)" "unsent (e\<lparr>e_ServerTimestamp := t, e_Uid := u\<rparr>)" "lane_of e = General"
  using assms
  by (auto simp: reportEvent_def Let_def reports_def violating_process_def unsent_def lane_of_def EventTypeViolation_def EventTypeDetection_def)

lemma reports_refresh: "reports v (fold refresh ps x) = reports v x" "e_Uid (fold refresh ps x) = e_Uid x"
proof (induction ps arbitrary: x)
  case (Cons p ps)
  case 1
  have "reports v (refresh p x) = reports v x"
    by (cases "e_Targets x") (auto simp: reports_def refresh_def refresh_target_def refresh_pod_def split: if_splits)
  then show ?case using Cons by simp
next
  case (Cons p ps)
  case 2
  then show ?case using Cons by (simp add: refresh_def)
qed simp_all

lemma reports_mark: "reports v (mark_all now U x) = reports v x"
  by (simp add: reports_def mark_all_def)

lemma reports_stored:
  assumes "reports v x" "mset ts = mset (elems (e_Targets x))"
  shows "reports v (stored_event (x\<lparr>e_Targets := Some ts\<rparr>))"
  using assms by (auto simp: reports_def stored_event_def stored_target_def)

lemma reports_alert:
  assumes "reports v x"
  shows "\<exists>ls\<in>set (alerts RFC3339 [x]). tells v ls"
proof -
  obtain t p where t: "e_Type x = EventTypeViolation" "e_Targets x = Some [t]" "t_Pod t = Some p" "pod_Uid p = ev_K8sPodUID v"
    "t_ViolatedProcesses t = Some [violating_process v]" using assms by (auto simp: reports_def)
  have "alerts RFC3339 [x] = [alert_labels RFC3339 x t p]"
    by (simp add: alerts_def alertable_def event_alert_def t)
  moreover have "tells v (alert_labels RFC3339 x t p)"
    unfolding tells_def alert_labels_def Let_def
    by (auto simp only: t option.case map_get_put split: option.split) (auto simp: map_get_put)
  ultimately show ?thesis by simp
qed

section \<open>A reported violation is alerted\<close>

text \<open>The steps that the store can follow.\<close>

fun fits :: "(Event \<Rightarrow> bool) \<Rightarrow> (Timestamp \<Rightarrow> bool) \<Rightarrow> server_label \<Rightarrow> bool" where
  "fits can keeps (Worked (Stored l e e') err) = (can e' \<and> e_Uid e' \<noteq> [])"
| "fits can keeps (Alerted now e) = keeps now"
| "fits can keeps _ = True"

text \<open>The events that the server knows: those of the log, and those of the round.\<close>

definition known :: "('s \<Rightarrow> Event multiset) \<Rightarrow> 's alerting \<Rightarrow> Event set" where
  "known log w = set_mset (log (al_store w)) \<union> (case al_found w of None \<Rightarrow> {} | Some xs \<Rightarrow> set xs)"

definition healthy :: "('s \<Rightarrow> Event multiset) \<Rightarrow> ('s \<Rightarrow> bool) \<Rightarrow> 's alerting \<Rightarrow> bool" where
  "healthy log ok w \<longleftrightarrow> ok (al_store w) \<and> (\<forall>x\<in>known log w. e_Uid x \<noteq> [])"

text \<open>The effect of a step on the log, on the round and on what was posted.\<close>

inductive effect ::
  "('s \<Rightarrow> Event multiset) \<Rightarrow> (Timestamp \<Rightarrow> string) \<Rightarrow> 's alerting \<Rightarrow> server_label \<Rightarrow> 's alerting \<Rightarrow> bool"
  for log RFC3339 where
  effect_none: "log (al_store w') = log (al_store w) \<Longrightarrow> al_found w' = al_found w \<Longrightarrow> al_posts w' = al_posts w \<Longrightarrow>
     a = Worked b err \<Longrightarrow> stored_by a = [] \<Longrightarrow> effect log RFC3339 w a w'"
| effect_stored: "a = Worked (Stored l e e') err \<Longrightarrow> e' = e\<lparr>e_ServerTimestamp := t, e_Uid := u\<rparr> \<Longrightarrow>
     logged e' (log (al_store w)) (log (al_store w')) \<or> err \<noteq> None \<and> touched e' (log (al_store w)) (log (al_store w')) \<Longrightarrow>
     al_found w' = al_found w \<Longrightarrow> al_posts w' = al_posts w \<Longrightarrow> effect log RFC3339 w a w'"
| effect_found: "a = Found err \<Longrightarrow> al_found w = None \<Longrightarrow> al_found w' = Some xs \<Longrightarrow> log (al_store w') = log (al_store w) \<Longrightarrow>
     al_posts w' = al_posts w \<Longrightarrow> set xs \<subseteq> set_mset (log (al_store w)) \<Longrightarrow>
     (err = None \<Longrightarrow> set xs = {x \<in> set_mset (log (al_store w)). unsent x}) \<Longrightarrow> effect log RFC3339 w a w'"
| effect_alerted: "a = Alerted now e \<Longrightarrow> al_found w = Some (e # rest) \<Longrightarrow> al_found w' = Some rest \<Longrightarrow>
     al_posts w' = al_posts w @ alerts RFC3339 [e] \<Longrightarrow> U \<subseteq> {e_Uid e} \<Longrightarrow>
     log (al_store w') = image_mset (mark_all now U) (log (al_store w)) \<Longrightarrow> effect log RFC3339 w a w'"
| effect_waited: "a = Waited \<Longrightarrow> al_found w = Some [] \<Longrightarrow> al_found w' = None \<Longrightarrow> log (al_store w') = log (al_store w) \<Longrightarrow>
     al_posts w' = al_posts w \<Longrightarrow> effect log RFC3339 w a w'"

text \<open>
  What the server needs of its store: at each time it is the log of the events, and the events that it
  can keep and the times that it can mark with are those that \<open>can\<close> and \<open>keeps\<close> name.
\<close>

locale alert_store =
  fixes St :: "Timestamp \<Rightarrow> 's event_store" and log :: "'s \<Rightarrow> Event multiset" and ok :: "'s \<Rightarrow> bool"
    and can :: "Event \<Rightarrow> bool" and keeps :: "Timestamp \<Rightarrow> bool"
  assumes events_logged: "event_log (St 0) log ok can"
    and alerts_logged: "keeps now \<Longrightarrow> alert_log (St now) log ok can now"
begin

lemma server_step_effect:
  assumes "server_step St RFC3339 w a w'" "healthy log ok w" "fits can keeps a"
  shows "ok (al_store w') \<and> effect log RFC3339 w a w'"
  using assms(1)
proof (cases rule: server_step.cases)
  case (server_works b st)
  from server_works(3) show ?thesis
  proof (cases rule: ingest_step.cases)
    case (step_store l event rest now uid event' s')
    have add: "es_Add (St 0) event' (al_store w) = (fst (es_Add (St 0) event' (al_store w)), s')"
      and ev: "event' = event\<lparr>e_ServerTimestamp := Some now, e_Uid := uid\<rparr>"
      using step_store(4) by (auto simp: processEvent_def Let_def al_store_def)
    have "ok (al_store w)" "can event'" using assms(2,3) server_works step_store by (auto simp: healthy_def)
    from event_log.add_log[OF events_logged add this] show ?thesis
      using server_works step_store ev
      by (auto intro!: effect_stored[OF _ ev, where err = "fst (es_Add (St 0) event' (al_store w))" and l = l])
  qed (use assms(2) server_works in \<open>auto simp: healthy_def al_store_def intro!: effect_none\<close>)
next
  case (server_finds xs err s)
  have "ok (al_store w)" using assms(2) by (simp add: healthy_def)
  note law = event_log.find_log[OF events_logged server_finds(4) this]
  have "set (elems xs) = {x \<in> set_mset (log (al_store w)). unsent x}" if "err = None"
    using law that by (auto dest: arg_cong[of _ _ set_mset])
  moreover have "elems xs = []" if "err \<noteq> None" using law that by simp
  ultimately show ?thesis using law server_finds by (intro conjI effect_found[of _ err _ _ "elems xs"]) (auto split: if_splits)
next
  case (server_alerts e rest answer now s posts)
  have "ok (al_store w)" "\<And>x. x \<in> set [e] \<Longrightarrow> e_Uid x \<noteq> []" "keeps now"
    using assms(2,3) server_alerts by (auto simp: healthy_def known_def)
  note law = alert_log.alert_events_log[OF alerts_logged[OF this(3)] server_alerts(4) this(1,2)]
  then obtain U where "U \<subseteq> e_Uid ` set (filter (delivered RFC3339 answer) [e])" "log s = image_mset (mark_all now U) (log (al_store w))"
    by blast
  then show ?thesis using law server_alerts
    by (intro conjI effect_alerted[of _ now e _ rest _ _ U]) (auto split: if_splits)
next
  case server_waits
  then show ?thesis using assms(2) by (auto simp: healthy_def intro: effect_waited)
qed

end

text \<open>
  While a run goes on: whatever has the uid \<open>u\<close> reports the violation \<open>v\<close>; from the moment it is
  stored, its alert was posted or the log holds it unmarked; after a search, its alert was posted or
  it is among the events of the round.
\<close>

definition tracked :: "('s \<Rightarrow> Event multiset) \<Rightarrow> string \<Rightarrow> ExecEvent \<Rightarrow> 's alerting \<Rightarrow> bool" where
  "tracked log u v w \<longleftrightarrow> (\<forall>x\<in>known log w. e_Uid x = u \<longrightarrow> reports v x)"

definition told :: "ExecEvent \<Rightarrow> 's alerting \<Rightarrow> bool" where
  "told v w \<longleftrightarrow> (\<exists>ls\<in>set (al_posts w). tells v ls)"

definition carried :: "('s \<Rightarrow> Event multiset) \<Rightarrow> string \<Rightarrow> ExecEvent \<Rightarrow> 's alerting \<Rightarrow> bool" where
  "carried log u v w \<longleftrightarrow> told v w \<or> (\<exists>x\<in>#log (al_store w). e_Uid x = u \<and> unsent x)"

definition in_round :: "ExecEvent \<Rightarrow> 's alerting \<Rightarrow> bool" where
  "in_round v w \<longleftrightarrow> told v w \<or> (\<exists>xs. al_found w = Some xs \<and> (\<exists>x\<in>set xs. reports v x))"

lemma logged_member:
  assumes "logged e L L'" "x \<in># L'"
  obtains ts where "mset ts = mset (elems (e_Targets e))" "x = stored_event (e\<lparr>e_Targets := Some ts\<rparr>)"
  | y ps where "y \<in># L" "x = fold refresh ps y"
  using assms by (auto simp: logged_def)

lemma touched_member:
  assumes "touched e L L'" "x \<in># L'"
  obtains y ps where "y \<in># L" "x = fold refresh ps y"
  using assms by (auto simp: touched_def)

lemma logged_keeps:
  assumes "logged e L L' \<or> b \<and> touched e L L'" "x \<in># L"
  shows "\<exists>ps. fold refresh ps x \<in># L'"
proof -
  have "\<exists>ps. set_mset L' \<supseteq> fold refresh ps ` set_mset L"
    using assms(1) unfolding logged_def touched_def by (elim disjE exE conjE) (auto intro: exI)
  then show ?thesis using assms(2) by blast
qed

lemma stored_event_uid [simp]: "e_Uid (stored_event (e\<lparr>e_Targets := ts\<rparr>)) = e_Uid e"
  by (simp add: stored_event_def)

text \<open>Where the events come from that the server knows after a step.\<close>

lemma effect_known:
  assumes "effect log RFC3339 w a w'" "x \<in> known log w'"
  obtains y where "y \<in> known log w" "e_Uid x = e_Uid y" "\<And>v. reports v x = reports v y"
  | e' where "e' \<in> set (stored_by a)" "e_Uid x = e_Uid e'" "\<And>v. reports v e' \<Longrightarrow> reports v x"
  using assms(1)
proof (cases rule: effect.cases)
  case (effect_stored l e e' err t u)
  consider "x \<in># log (al_store w')" | "x \<in> known log w"
    using assms(2) effect_stored by (auto simp: known_def split: option.splits)
  then show ?thesis
  proof cases
    case 1
    consider ts where "mset ts = mset (elems (e_Targets e'))" "x = stored_event (e'\<lparr>e_Targets := Some ts\<rparr>)"
      | y ps where "y \<in># log (al_store w)" "x = fold refresh ps y"
      using effect_stored(3) 1 by (metis logged_member touched_member)
    then show ?thesis
    proof cases
      case 1
      then show ?thesis using effect_stored(1) that(2)[of e'] reports_stored[OF _ 1(1)] by simp
    next
      case 2
      then show ?thesis using that(1)[of y] by (simp add: known_def reports_refresh)
    qed
  qed (use that(1) in blast)
next
  case (effect_alerted now e rest U)
  have "x \<in> set rest \<or> (\<exists>y. y \<in># log (al_store w) \<and> x = mark_all now U y)"
    using assms(2) effect_alerted by (auto simp: known_def)
  then show ?thesis
  proof
    assume "x \<in> set rest"
    then show ?thesis using that(1)[of x] effect_alerted by (auto simp: known_def)
  next
    assume "\<exists>y. y \<in># log (al_store w) \<and> x = mark_all now U y"
    then obtain y where "y \<in># log (al_store w)" "x = mark_all now U y" by blast
    then show ?thesis using that(1)[of y] by (simp add: known_def reports_mark)
  qed
qed (use assms(2) that(1)[of x] in \<open>auto simp: known_def split: option.splits\<close>)

lemma effect_tracked:
  assumes "effect log RFC3339 w a w'" "tracked log u v w" "\<And>e. e \<in> set (stored_by a) \<Longrightarrow> e_Uid e = u \<Longrightarrow> reports v e"
  shows "tracked log u v w'"
  unfolding tracked_def
proof (intro ballI impI)
  fix x
  assume "x \<in> known log w'" "e_Uid x = u"
  then show "reports v x" using assms(2,3) by (elim effect_known[OF assms(1)]) (auto simp: tracked_def)
qed

lemma effect_told: "effect log RFC3339 w a w' \<Longrightarrow> told v w \<Longrightarrow> told v w'"
  by (cases rule: effect.cases) (auto simp: told_def)

lemma effect_alerted_told: "reports v e \<Longrightarrow> al_posts w' = al_posts w @ alerts RFC3339 [e] \<Longrightarrow> told v w'"
  using reports_alert[of v e RFC3339] by (auto simp: told_def)

lemma effect_carried:
  assumes "effect log RFC3339 w a w'" "tracked log u v w" "carried log u v w"
  shows "carried log u v w'"
proof (cases "told v w")
  case True
  then show ?thesis using effect_told[OF assms(1)] by (simp add: carried_def)
next
  case False
  then obtain x where x: "x \<in># log (al_store w)" "e_Uid x = u" "unsent x" using assms(3) by (auto simp: carried_def)
  from assms(1) show ?thesis
  proof (cases rule: effect.cases)
    case (effect_stored l e e' err t u')
    obtain ps where "fold refresh ps x \<in># log (al_store w')" using logged_keeps effect_stored(3) x(1) by blast
    then show ?thesis using x by (auto simp: carried_def reports_refresh intro!: bexI[of _ "fold refresh ps x"])
  next
    case (effect_alerted now e rest U)
    show ?thesis
    proof (cases "u \<in> U")
      case True
      then have "reports v e" using assms(2) effect_alerted by (auto simp: tracked_def known_def)
      then show ?thesis using effect_alerted_told effect_alerted(4) by (auto simp: carried_def)
    next
      case False
      then have "unsent (mark_all now U x)" using x by (simp add: unsent_mark_all)
      then show ?thesis using effect_alerted x by (auto simp: carried_def)
    qed
  qed (use x in \<open>auto simp: carried_def\<close>)
qed

lemma effect_in_round:
  assumes "effect log RFC3339 w a w'" "in_round v w"
  shows "in_round v w'"
proof (cases "told v w")
  case True
  then show ?thesis using effect_told[OF assms(1)] by (simp add: in_round_def)
next
  case False
  then obtain xs x where x: "al_found w = Some xs" "x \<in> set xs" "reports v x" using assms(2) by (auto simp: in_round_def)
  from assms(1) show ?thesis
  proof (cases rule: effect.cases)
    case (effect_alerted now e rest U)
    show ?thesis
    proof (cases "x = e")
      case True
      then show ?thesis using effect_alerted_told[OF x(3)] effect_alerted(4) by (auto simp: in_round_def)
    qed (use x effect_alerted in \<open>auto simp: in_round_def\<close>)
  qed (use x in \<open>auto simp: in_round_def\<close>)
qed

lemma effect_found_round:
  assumes "effect log RFC3339 w (Found None) w'" "tracked log u v w" "carried log u v w"
  shows "in_round v w'"
  using assms(1)
proof (cases rule: effect.cases)
  case (effect_found err xs)
  show ?thesis
  proof (cases "told v w")
    case True
    then show ?thesis using effect_found(5) by (simp add: in_round_def told_def)
  next
    case False
    then obtain x where "x \<in># log (al_store w)" "e_Uid x = u" "unsent x" using assms(3) by (auto simp: carried_def)
    then show ?thesis using effect_found assms(2) by (auto simp: in_round_def tracked_def known_def)
  qed
qed auto

text \<open>A report that is added without error is carried.\<close>

lemma effect_report_carried:
  assumes "effect log RFC3339 w (Worked (Stored l e e') None) w'" "ier_Event (reportEvent now v) = Some e"
  shows "carried log (e_Uid e') v w' \<and> reports v e'"
  using assms(1)
proof (cases rule: effect.cases)
  case (effect_stored l' e1 e1' err t u)
  have e': "reports v e'" "unsent e'" using report_reports[OF assms(2)] effect_stored(1,2) by simp_all
  obtain ts where "stored_event (e'\<lparr>e_Targets := Some ts\<rparr>) \<in># log (al_store w')"
    using effect_stored(1,3) unfolding logged_def by (metis server_label.inject(1) ingest_label.inject(3) union_single_eq_member)
  moreover have "unsent (stored_event (e'\<lparr>e_Targets := Some ts\<rparr>))" using e'(2) by (simp add: unsent_def stored_event_def)
  ultimately show ?thesis using e'(1) by (auto simp: carried_def intro!: bexI[of _ "stored_event (e'\<lparr>e_Targets := Some ts\<rparr>)"])
qed auto

context alert_store
begin

lemma healthy_step:
  assumes "server_step St RFC3339 w a w'" "healthy log ok w" "fits can keeps a"
  shows "healthy log ok w' \<and> effect log RFC3339 w a w'"
proof -
  note eff = server_step_effect[OF assms]
  have "e_Uid e' \<noteq> []" if "e' \<in> set (stored_by a)" for e'
    using that assms(3) by (cases "(can, keeps, a)" rule: fits.cases) auto
  then have "e_Uid x \<noteq> []" if "x \<in> known log w'" for x
    using that assms(2) eff by (metis effect_known healthy_def)
  then show ?thesis using eff by (simp add: healthy_def)
qed

lemma run_healthy:
  "server_run St RFC3339 w tr w' \<Longrightarrow> healthy log ok w \<Longrightarrow> list_all (fits can keeps) tr \<Longrightarrow> healthy log ok w'"
  by (induction rule: server_run.induct) (auto dest: healthy_step)

lemma run_tracked:
  assumes "server_run St RFC3339 w tr w'" "healthy log ok w" "list_all (fits can keeps) tr" "tracked log u v w"
    "\<And>e. e \<in> set (stored_in tr) \<Longrightarrow> e_Uid e = u \<Longrightarrow> reports v e"
  shows "tracked log u v w'"
  using assms
proof (induction rule: server_run.induct)
  case (server_run_step w tr w1 a w2)
  have "healthy log ok w1" using run_healthy server_run_step by simp
  then show ?case
    using effect_tracked healthy_step[OF server_run_step.hyps(2)] server_run_step by (metis Un_iff list_all_append list.pred_inject(2) set_append trace_simps(4,5))
qed

lemma run_in_round:
  assumes "server_run St RFC3339 w tr w'" "healthy log ok w" "list_all (fits can keeps) tr" "in_round v w"
  shows "in_round v w'"
  using assms
proof (induction rule: server_run.induct)
  case (server_run_step w tr w1 a w2)
  have "healthy log ok w1" using run_healthy server_run_step by simp
  then show ?case using effect_in_round healthy_step[OF server_run_step.hyps(2)] server_run_step by fastforce
qed

lemma run_carried:
  assumes "server_run St RFC3339 w tr w'" "healthy log ok w" "list_all (fits can keeps) tr" "tracked log (e_Uid e') v w"
    "\<And>x. x \<in> set (stored_in tr) \<Longrightarrow> e_Uid x = e_Uid e' \<Longrightarrow> reports v x"
    "Worked (Stored l e e') None \<in> set tr" "ier_Event (reportEvent now v) = Some e"
  shows "carried log (e_Uid e') v w'"
  using assms
proof (induction rule: server_run.induct)
  case (server_run_step w tr w1 a w2)
  have prem: "healthy log ok w1" "fits can keeps a" using run_healthy server_run_step by simp_all
  note eff = conjunct2[OF healthy_step[OF server_run_step.hyps(2) this]]
  have tracked: "tracked log (e_Uid e') v w1" using server_run_step by (intro run_tracked[OF server_run_step.hyps(1)]) auto
  show ?case
  proof (cases "a = Worked (Stored l e e') None")
    case True
    then show ?thesis using effect_report_carried eff assms(7) by blast
  next
    case False
    then have "carried log (e_Uid e') v w1" using server_run_step by simp
    then show ?thesis using effect_carried[OF eff tracked] by blast
  qed
qed simp

text \<open>The violation from its acceptance to Alertmanager.\<close>

lemma report_alerted:
  assumes run: "server_run St RFC3339 (start_server s) tr w1" "server_step St RFC3339 w1 (Found None) w2"
      "server_run St RFC3339 w2 tr' w3" "al_found w3 = None"
    and start: "ok s" "\<forall>x\<in>#log s. e_Uid x \<noteq> []"
    and fit: "list_all (fits can keeps) (tr @ tr')"
    and uids: "distinct (map e_Uid (stored_in tr))" "\<forall>x\<in>#log s. e_Uid x \<notin> e_Uid ` set (stored_in tr)"
    and accepted: "Worked (Replied (reportEvent now v) (Some \<lparr>iep_Success = True\<rparr>, None)) err \<in> set tr"
    and drained: "in_chan (al_ingest w1) = []" "channel (fst (in_queues (al_ingest w1))) = []"
    and added: "\<forall>e e' err. Worked (Stored General e e') err \<in> set tr \<longrightarrow> ier_Event (reportEvent now v) = Some e \<longrightarrow> err = None"
  shows "\<exists>ls\<in>set (al_posts w3). tells v ls"
proof -
  obtain e where e: "ier_Event (reportEvent now v) = Some e" by (simp add: reportEvent_def Let_def)
  have "lane_in_order channel General (worked tr) (al_ingest w1)"
    by (rule server_run_in_order[OF run(1)]) (simp add: start_server_def start_in_order)
  then have "e \<in> set (taken General (worked tr))"
    using accepted_request[OF accepted e report_reports(3)[OF e]] drained by (simp add: lane_in_order_def)
  then obtain e' err' where "Worked (Stored General e e') err' \<in> set tr" by (rule taken_stored)
  then have stored: "Worked (Stored General e e') None \<in> set tr" using added e by metis
  have fits: "list_all (fits can keeps) tr" "list_all (fits can keeps) tr'" "fits can keeps (Found None)" using fit by simp_all
  have known0: "known log (start_server s) = set_mset (log s)"
    by (simp add: known_def start_server_def al_store_def start_ingestion_def)
  have healthy: "healthy log ok (start_server s)" using start known0
    by (simp add: healthy_def start_server_def al_store_def start_ingestion_def)
  have e': "e' \<in> set (stored_in tr)" using stored by (force simp: stored_in_def)
  then have tracked0: "tracked log (e_Uid e') v (start_server s)" using uids(2) known0 by (force simp: tracked_def)
  have only: "reports v x" if "x \<in> set (stored_in tr)" "e_Uid x = e_Uid e'" for x
  proof -
    have "x = e'" using uids(1) that e' by (auto simp: distinct_map dest: inj_onD)
    then show ?thesis using stored_stamped[OF run(1) stored] report_reports(1)[OF e] by auto
  qed
  note healthy1 = run_healthy[OF run(1) healthy fits(1)]
  note step = healthy_step[OF run(2) healthy1 fits(3)]
  have "in_round v w2"
    using effect_found_round[OF conjunct2[OF step] run_tracked[OF run(1) healthy fits(1) tracked0 only]
      run_carried[OF run(1) healthy fits(1) tracked0 only stored e]] by blast
  then show ?thesis using run_in_round[OF run(3) conjunct1[OF step] fits(2)] run(4) by (simp add: in_round_def told_def)
qed

end

text \<open>The dispatcher always comes to the end of its round.\<close>

lemma round_ends:
  "al_found w = Some xs \<Longrightarrow>
     \<exists>w'. server_run St RFC3339 w (map (Alerted now) xs @ [Waited]) w' \<and> al_found w' = None"
proof (induction xs arbitrary: w)
  case Nil
  have "server_run St RFC3339 w ([] @ [Waited]) (w\<lparr>al_found := None\<rparr>)"
    using Nil by (intro server_run_step[OF server_run_empty] server_waits)
  then show ?case by fastforce
next
  case (Cons e rest)
  obtain s posts where "alert_events RFC3339 (recording_post (\<lambda>_. None)) (St now) [e] (al_store w, al_posts w) = (s, posts)" by fastforce
  then have "server_step St RFC3339 w (Alerted now e) ((set_al_store s w)\<lparr>al_found := Some rest, al_posts := posts\<rparr>)"
    by (rule server_alerts[where rest = rest, rotated]) (use Cons.prems in simp)
  note first = server_run_step[OF server_run_empty this]
  obtain w' where "server_run St RFC3339 ((set_al_store s w)\<lparr>al_found := Some rest, al_posts := posts\<rparr>)
      (map (Alerted now) rest @ [Waited]) w'" "al_found w' = None"
    using Cons.IH[of "(set_al_store s w)\<lparr>al_found := Some rest, al_posts := posts\<rparr>"] by auto
  then show ?case using server_run_append[OF _ first] by auto
qed

context graph_db
begin

lemma dgraph_alert_store:
  "alert_store (dgraphEventStore D T) (\<lambda>s. events T (graph s)) (\<lambda>s. sound_graph T (graph s)) (storable T)
     (\<lambda>now. keeps_time T (Some now))"
  by (rule alert_store.intro[OF dgraph_event_log]) (auto simp: keeps_time_def intro: dgraph_alert_log)

end

interpretation mem_alerts: alert_store "dgraphEventStore gmem_dgraph json_clock" "\<lambda>s. events json_clock (gclean s)"
  "\<lambda>s. sound_graph json_clock (gclean s)" "storable json_clock" "\<lambda>now. keeps_time json_clock (Some now)"
  by (rule gmem.dgraph_alert_store)

text \<open>
  C4: a violation that was reported is alerted. Let the requests, the goroutines of the worker and the
  loop of the alert dispatcher interleave in any way. If the server answered success to the report of a
  violation, its queue of general events has been emptied and the report was added without error, then
  once a search of the dispatcher has succeeded and the round is over, an alert was posted to
  Alertmanager, in that round or in one before, that names the pod and the process of the violation.
  The uids that the worker draws are different, and the Dgraph database keeps what it is given.
\<close>

theorem reported_violation_is_alerted:
  assumes "graph_db D graph"
    and "server_run (dgraphEventStore D T) RFC3339 (start_server s) tr w1"
      "server_step (dgraphEventStore D T) RFC3339 w1 (Found None) w2"
      "server_run (dgraphEventStore D T) RFC3339 w2 tr' w3" "al_found w3 = None"
    and "sound_graph T (graph s)" "\<forall>x\<in>#events T (graph s). e_Uid x \<noteq> []"
    and "list_all (fits (storable T) (\<lambda>now. keeps_time T (Some now))) (tr @ tr')"
    and "distinct (map e_Uid (stored_in tr))" "\<forall>x\<in>#events T (graph s). e_Uid x \<notin> e_Uid ` set (stored_in tr)"
    and "Worked (Replied (reportEvent now v) (Some \<lparr>iep_Success = True\<rparr>, None)) err \<in> set tr"
    and "in_chan (al_ingest w1) = []" "channel (fst (in_queues (al_ingest w1))) = []"
    and "\<forall>e e' err. Worked (Stored General e e') err \<in> set tr \<longrightarrow> ier_Event (reportEvent now v) = Some e \<longrightarrow> err = None"
  shows "\<exists>ls\<in>set (al_posts w3).
     map_get ls ''type'' = Some EventTypeViolation \<and> map_get ls ''pod_uid'' = Some (ev_K8sPodUID v) \<and>
     map_get ls ''violated_processes'' = Some (violatedProcessesToString [\<lparr>p_Pid = ev_Pid v, p_Name = ev_Command v\<rparr>])"
  using alert_store.report_alerted[OF graph_db.dgraph_alert_store[OF assms(1)] assms(2-14)]
  by (simp add: tells_def violating_process_def)

text \<open>The report of a sample violation, from the request to the alert.\<close>

definition sample_violation :: ExecEvent where
  "sample_violation = demo_event ''sh'' RegisterAnnotation"

definition sample_report :: Event where
  "sample_report = the (ier_Event (reportEvent 5 sample_violation))"

definition stamped_report :: Event where
  "stamped_report = sample_report\<lparr>e_ServerTimestamp := Some 6, e_Uid := ''u1''\<rparr>"

definition report_db :: "node list" where
  "report_db = snd (event_Add gmem_dgraph json_clock stamped_report [])"

lemma report_added: "event_Add gmem_dgraph json_clock stamped_report [] = (Some None, report_db)"
proof -
  have "fst (event_Add gmem_dgraph json_clock stamped_report []) = Some None" by code_simp
  then show ?thesis unfolding report_db_def by (metis prod.collapse)
qed

lemma report_found: "snd (fst (event_FindWhereAlertNotSent gmem_dgraph json_clock report_db)) = None"
  by code_simp

lemma report_storable: "storable json_clock stamped_report" "ier_Event (reportEvent 5 sample_violation) = Some sample_report"
  by (simp_all add: storable_def stamped_report_def sample_report_def sample_violation_def demo_event_def reportEvent_def Let_def keeps_time_def
      json_clock_law proper_alert_def proper_pod_def agree_def)

text \<open>The server after the request, after the event was moved to the channel, and after it was stored.\<close>

definition serving :: "Event list \<Rightarrow> Event list \<Rightarrow> node list \<Rightarrow> node list alerting" where
  "serving q c s = \<lparr>al_ingest = \<lparr>in_queues = (\<lparr>channel = q\<rparr>, NewChannelQueue), in_chan = c, in_chan_detection = [], in_store = s\<rparr>,
     al_found = None, al_posts = []\<rparr>"

definition report_trace :: "server_label list" where
  "report_trace = [Worked (Replied (reportEvent 5 sample_violation) (Some \<lparr>iep_Success = True\<rparr>, None)) None,
     Worked (Moved General) None, Worked (Stored General sample_report stamped_report) None]"

lemma report_run:
  "server_run (dgraphEventStore gmem_dgraph json_clock) Itoa (start_server []) report_trace (serving [] [] report_db)"
proof -
  let ?S = "dgraphEventStore gmem_dgraph json_clock"
  have "ingest_step channel_queue (?S 0) (al_ingest (serving [] [] [])) (Replied (reportEvent 5 sample_violation) (Some \<lparr>iep_Success = True\<rparr>, None))
      ((al_ingest (serving [] [] []))\<lparr>in_queues := (\<lparr>channel = [sample_report]\<rparr>, NewChannelQueue)\<rparr>)"
    using report_reports(3)[OF report_storable(2)]
    by (intro step_ingest) (simp add: IngestEvent_def report_storable lane_of_def serving_def channel_queue_def
        ChannelQueue_Publish_def channel_capacity_def split: if_splits)
  from server_works[of ?S _ _ _ Itoa, OF this]
  have s1: "server_step ?S Itoa (serving [] [] []) (Worked (Replied (reportEvent 5 sample_violation) (Some \<lparr>iep_Success = True\<rparr>, None)) None)
      (serving [sample_report] [] [])" by (simp add: serving_def)
  have "ingest_step channel_queue (?S 0) (al_ingest (serving [sample_report] [] [])) (Moved General)
      (set_lane_chan General (lane_chan General (al_ingest (serving [sample_report] [] [])) @ [sample_report])
        ((al_ingest (serving [sample_report] [] []))\<lparr>in_queues := set_lane_queue General NewChannelQueue (in_queues (al_ingest (serving [sample_report] [] [])))\<rparr>))"
    by (intro step_move) (simp_all add: serving_def channel_queue_def ChannelQueue_NextMessage_def NewChannelQueue_def eventChan_capacity_def)
  from server_works[of ?S _ _ _ Itoa, OF this]
  have s2: "server_step ?S Itoa (serving [sample_report] [] []) (Worked (Moved General) None) (serving [] [sample_report] [])"
    by (simp add: serving_def NewChannelQueue_def)
  have "ingest_step channel_queue (?S 0) (al_ingest (serving [] [sample_report] [])) (Stored General sample_report stamped_report)
      (set_lane_chan General [] ((al_ingest (serving [] [sample_report] []))\<lparr>in_store := report_db\<rparr>))"
    by (intro step_store[where now = 6 and uid = "''u1''"])
      (simp_all add: serving_def processEvent_def Let_def flip: stamped_report_def, simp add: dgraphEventStore_def report_added)
  from server_works[of ?S _ _ _ Itoa, OF this]
  have s3: "server_step ?S Itoa (serving [] [sample_report] []) (Worked (Stored General sample_report stamped_report) None) (serving [] [] report_db)"
    by (simp add: serving_def al_store_def dgraphEventStore_def report_added)
  have "start_server [] = serving [] [] []" by (simp add: start_server_def serving_def start_ingestion_def NewChannelQueue_def)
  then show ?thesis
    using server_run_step[OF server_run_step[OF server_run_step[OF server_run_empty s1] s2] s3] by (simp add: report_trace_def)
qed

theorem reported_violation_is_alerted_witness:
  "\<exists>tr w. server_run (dgraphEventStore gmem_dgraph json_clock) Itoa (start_server []) tr w \<and>
     (\<exists>ls\<in>set (al_posts w). map_get ls ''pod_uid'' = Some (ev_K8sPodUID sample_violation))"
proof -
  let ?S = "dgraphEventStore gmem_dgraph json_clock"
  have "snd (fst (es_FindWhereAlertNotSent (?S 0) (al_store (serving [] [] report_db)))) = None"
    using report_found by (simp add: dgraphEventStore_def al_store_def serving_def)
  then obtain xs s where "es_FindWhereAlertNotSent (?S 0) (al_store (serving [] [] report_db)) = ((xs, None), s)"
    by (metis prod.collapse)
  then obtain w2 where found: "server_step ?S Itoa (serving [] [] report_db) (Found None) w2" "al_found w2 = Some (elems xs)"
    using server_finds[of "serving [] [] report_db" ?S xs None s Itoa] by (auto simp: serving_def)
  obtain w3 where round: "server_run ?S Itoa w2 (map (Alerted 7) (elems xs) @ [Waited]) w3" "al_found w3 = None"
    using round_ends[OF found(2)] by blast
  have stored: "stored_in report_trace = [stamped_report]" by (simp add: stored_in_def report_trace_def)
  have "e_Uid stamped_report \<noteq> []" by (simp add: stamped_report_def)
  then have fit: "list_all (fits (storable json_clock) (\<lambda>now. keeps_time json_clock (Some now)))
      (report_trace @ map (Alerted 7) (elems xs) @ [Waited])"
    by (auto simp: report_trace_def report_storable keeps_time_def json_clock_law list_all_iff)
  note alerted = reported_violation_is_alerted[OF gmem.graph_db_axioms report_run found(1) round sound_empty _ fit,
      of 5 sample_violation None]
  have "\<exists>ls\<in>set (al_posts w3). map_get ls ''type'' = Some EventTypeViolation \<and>
      map_get ls ''pod_uid'' = Some (ev_K8sPodUID sample_violation) \<and> map_get ls ''violated_processes'' =
        Some (violatedProcessesToString [\<lparr>p_Pid = ev_Pid sample_violation, p_Name = ev_Command sample_violation\<rparr>])"
    by (rule alerted) (simp_all add: events_empty stored, simp_all add: report_trace_def serving_def)
  then show ?thesis
    using server_run_append[OF round(1) server_run_step[OF report_run found(1)]] by blast
qed

end
