(* ===== verification/TarianctlAdd.thy ===== *)
theory TarianctlAdd
  imports Tarianctl
begin

text \<open>
  \<^verbatim>\<open>tarianctl add constraints\<close> and \<^verbatim>\<open>tarianctl add actions\<close> (\<^verbatim>\<open>cmd/tarianctl/cmd/add\<close>): parsing the flags
  into labels and rules, building a constraint from the recent violations of a pod, and the two
  commands. \<^verbatim>\<open>yaml.Marshal\<close> is a parameter.
\<close>

section \<open>Parsing flags\<close>

text \<open>
  \<^verbatim>\<open>s[:idx]\<close> and \<^verbatim>\<open>s[idx+1:]\<close> around the first \<open>=\<close>; a flag without one, or with nothing after it, is
  skipped.
\<close>

definition key_value :: "string \<Rightarrow> (string \<times> string) option" where
  "key_value s =
     (let idx = Index s ''='' in
      if idx < 0 \<or> idx = int (length s) - 1 then None
      else Some (take (nat idx) s, drop (nat idx + 1) s))"

definition quote_cutset :: string where
  "quote_cutset = [CHR 0x22]"

fun matchLabels_loop :: "string list \<Rightarrow> MatchLabel list \<Rightarrow> MatchLabel list" where
  "matchLabels_loop [] labels = labels"
| "matchLabels_loop (s # ss) labels =
     (case key_value s of
        None \<Rightarrow> matchLabels_loop ss labels
      | Some (key, v) \<Rightarrow> matchLabels_loop ss (labels @ [\<lparr>ml_Key = key, ml_Value = Trim v quote_cutset\<rparr>]))"

definition nil_if_empty :: "'a list \<Rightarrow> 'a slice" where
  "nil_if_empty xs = (if length xs = 0 then None else Some xs)"

definition matchLabelsFromString :: "string slice \<Rightarrow> MatchLabel slice" where
  "matchLabelsFromString strLabels =
     (case strLabels of None \<Rightarrow> None | Some ss \<Rightarrow> nil_if_empty (matchLabels_loop ss []))"

definition allowedProcessesFromString :: "string slice \<Rightarrow> AllowedProcessRule slice" where
  "allowedProcessesFromString strProcesses =
     (case strProcesses of
        None \<Rightarrow> None
      | Some ss \<Rightarrow> nil_if_empty (map (\<lambda>s. \<lparr>apr_Regex = Some (Trim s (quote_cutset @ '' ''))\<rparr>) ss))"

fun allowedFiles_loop :: "string list \<Rightarrow> AllowedFileRule list \<Rightarrow> AllowedFileRule list" where
  "allowedFiles_loop [] files = files"
| "allowedFiles_loop (s # ss) files =
     (case key_value s of
        None \<Rightarrow> allowedFiles_loop ss files
      | Some (name, v) \<Rightarrow>
          allowedFiles_loop ss (files @ [\<lparr>afr_Name = Trim name quote_cutset, afr_Sha256Sum = Some (Trim v quote_cutset)\<rparr>]))"

definition allowedFilesFromString :: "string slice \<Rightarrow> AllowedFileRule slice" where
  "allowedFilesFromString strFiles =
     (case strFiles of None \<Rightarrow> None | Some ss \<Rightarrow> nil_if_empty (allowedFiles_loop ss []))"

section \<open>A constraint from the violations of a pod\<close>

definition event_targets_of_pod :: "string \<Rightarrow> Event \<Rightarrow> Target list" where
  "event_targets_of_pod podName e =
     filter (\<lambda>t. case t_Pod t of None \<Rightarrow> False | Some pod \<Rightarrow> pod_Name pod = podName) (elems (e_Targets e))"

definition collectEventTargetsByPodName :: "Event list \<Rightarrow> string \<Rightarrow> Target list" where
  "collectEventTargetsByPodName events podName = concat (map (event_targets_of_pod podName) events)"

text \<open>
  One of the two loops of \<^verbatim>\<open>deduplicateRules\<close>. The loop ranges over the slice it was given, of length
  \<open>n\<close>, whose backing array is \<open>arr\<close>; the slice variable that is assigned in the loop shares that array
  and has length \<open>len\<close>. Each round starts an empty slice on the same array, so an append writes to
  element 0 of the array.
\<close>

function dedup_loop :: "('a \<Rightarrow> bool) \<Rightarrow> nat \<Rightarrow> nat \<Rightarrow> 'a list \<Rightarrow> nat \<Rightarrow> 'a list \<times> nat" where
  "dedup_loop found i n arr len =
     (if n \<le> i then (arr, len)
      else if found (arr ! i) then dedup_loop found (i + 1) n arr 0
      else dedup_loop found (i + 1) n (arr[0 := arr ! i]) 1)"
  by pat_completeness auto
termination by (relation "measure (\<lambda>(found, i, n, arr, len). n - i)") auto

declare dedup_loop.simps [simp del]

definition dedup_slice :: "('a \<Rightarrow> bool) \<Rightarrow> 'a list \<Rightarrow> 'a list" where
  "dedup_slice found xs = (case dedup_loop found 0 (length xs) xs (length xs) of (arr, len) \<Rightarrow> take len arr)"

definition process_rule_exists :: "Constraint list \<Rightarrow> AllowedProcessRule \<Rightarrow> bool" where
  "process_rule_exists constraints r = list_ex (\<lambda>c. list_ex (\<lambda>p. GetRegex r = GetRegex p) (elems (c_AllowedProcesses c))) constraints"

definition file_rule_exists :: "Constraint list \<Rightarrow> AllowedFileRule \<Rightarrow> bool" where
  "file_rule_exists constraints r =
     list_ex (\<lambda>c. list_ex (\<lambda>f. afr_Name r = afr_Name f \<and> GetSha256Sum r = GetSha256Sum f) (elems (c_AllowedFiles c))) constraints"

definition deduplicateRules ::
  "AllowedProcessRule list \<Rightarrow> AllowedFileRule list \<Rightarrow> Constraint list \<Rightarrow> AllowedProcessRule list \<times> AllowedFileRule list" where
  "deduplicateRules allowedProcesses allowedFiles constraints =
     (dedup_slice (process_rule_exists constraints) allowedProcesses,
      dedup_slice (file_rule_exists constraints) allowedFiles)"

record constraintsCommand =
  cmd_name :: string
  cmd_namespace :: string
  cmd_matchLabels :: "string slice"
  cmd_allowedProcesses :: "string slice"
  cmd_allowedFileSha256Sums :: "string slice"
  cmd_fromViolatedPod :: string
  cmd_dryRun :: bool

definition violated_process_rules :: "Target list \<Rightarrow> AllowedProcessRule list" where
  "violated_process_rules targets =
     concat (map (\<lambda>t. map (\<lambda>p. \<lparr>apr_Regex = Some (p_Name p)\<rparr>) (elems (t_ViolatedProcesses t))) targets)"

definition violated_file_rules :: "Target list \<Rightarrow> AllowedFileRule list" where
  "violated_file_rules targets =
     concat (map (\<lambda>t. map (\<lambda>f. \<lparr>afr_Name = vf_Name f, afr_Sha256Sum = Some (vf_ActualSha256Sum f)\<rparr>)
       (elems (t_ViolatedFiles t))) targets)"

definition violated_labels :: "Label option list \<Rightarrow> MatchLabel list" where
  "violated_labels labels =
     map (\<lambda>l. \<lparr>ml_Key = Label_GetKey l, ml_Value = Label_GetValue l\<rparr>)
       (filter (\<lambda>l. Label_GetKey l \<noteq> ''pod-template-hash'') labels)"

definition buildConstraintFromViolatedPod ::
  "'w ctl_client \<Rightarrow> int \<Rightarrow> constraintsCommand \<Rightarrow> string \<Rightarrow> ('w, go_error + Constraint) io" where
  "buildConstraintFromViolatedPod C now cmd podName w =
     (case cl_GetEvents C \<lparr>ger_Namespace = [], ger_Limit = 1000\<rparr> w of
        (Inl err, w) \<Rightarrow> (Inl (Wrap ''buildConstraintFromViolatedPod: '' (Some err)), w)
      | (Inr resp, w) \<Rightarrow>
         (let targets = collectEventTargetsByPodName (elems (gep_Events resp)) podName;
              allowedProcesses = violated_process_rules targets;
              allowedFiles = violated_file_rules targets
          in if length targets = 0
             then (Inl (Wrap ''buildConstraintFromViolatedPod: '' (Some (NewError ''zero target found''))), w)
             else (case t_Pod (targets ! 0) of
                None \<Rightarrow> (Inl (Wrap ''buildConstraintFromViolatedPod: '' (Some (NewError ''no pod found''))), w)
              | Some pod \<Rightarrow>
                 (case pod_Labels pod of
                    None \<Rightarrow> (Inl (Wrap ''buildConstraintFromViolatedPod: '' (Some (NewError ''no labels found''))), w)
                  | Some labels \<Rightarrow>
                     (case cl_GetConstraints C \<lparr>gcr_Namespace = cmd_namespace cmd, gcr_Labels = Some labels\<rparr> w of
                        (constraintResponse, w) \<Rightarrow>
                        (case (case GetConstraints_list constraintResponse of
                                 None \<Rightarrow> (allowedProcesses, allowedFiles)
                               | Some constraints \<Rightarrow> deduplicateRules allowedProcesses allowedFiles constraints) of
                           (allowedProcesses, allowedFiles) \<Rightarrow>
                           if length allowedProcesses = 0 \<and> length allowedFiles = 0
                           then (Inl (Wrap ''add constraints: buildConstraintFromViolatedPod: ''
                                  (Some (NewError ''no allowed processes or files found''))), w)
                           else (Inr \<lparr>c_Kind = KindConstraint, c_Namespace = cmd_namespace cmd,
                                   c_Name = (if cmd_name cmd = [] then podName @ ''-'' @ Itoa now else cmd_name cmd),
                                   c_Selector = Some \<lparr>sel_MatchLabels = Some (violated_labels labels)\<rparr>,
                                   c_AllowedProcesses = Some allowedProcesses, c_AllowedFiles = Some allowedFiles\<rparr>, w)))))))"

section \<open>tarianctl add constraints\<close>

definition constraint_from_flags :: "constraintsCommand \<Rightarrow> Constraint" where
  "constraint_from_flags cmd =
     \<lparr>c_Kind = KindConstraint, c_Namespace = cmd_namespace cmd, c_Name = cmd_name cmd,
      c_Selector = Some \<lparr>sel_MatchLabels = matchLabelsFromString (cmd_matchLabels cmd)\<rparr>,
      c_AllowedProcesses = allowedProcessesFromString (cmd_allowedProcesses cmd),
      c_AllowedFiles = allowedFilesFromString (cmd_allowedFileSha256Sums cmd)\<rparr>"

definition fail :: "string \<Rightarrow> string \<Rightarrow> 'w \<Rightarrow> 'w command_result" where
  "fail who msg w = (([], Errorf_w who (Some (NewError msg))), w)"

definition submit_constraint ::
  "(Constraint \<Rightarrow> go_error + string) \<Rightarrow> 'w ctl_client \<Rightarrow> constraintsCommand \<Rightarrow> Constraint \<Rightarrow> 'w \<Rightarrow> 'w command_result" where
  "submit_constraint Yaml C cmd c w =
     (if cmd_dryRun cmd
      then (case Yaml c of
              Inl err \<Rightarrow> (([], Errorf_w ''add constraints: '' (Some err)), w)
            | Inr d \<Rightarrow> (([Info d], None), w))
      else if cmd_allowedFileSha256Sums cmd = None \<and> cmd_allowedProcesses cmd = None
      then fail ''add constraints: '' ''no allowed processes or files found, use --allowed-processes or --allowed-file-sha256sums or both'' w
      else if cmd_matchLabels cmd = None
      then fail ''add constraints: '' ''no match labels found, use --match-labels'' w
      else (case cl_AddConstraint C \<lparr>acr_Constraint = Some c\<rparr> w of
              (Inl err, w) \<Rightarrow> (([], Errorf_w ''add constraints: failed to add constraints: '' (Some err)), w)
            | (Inr response, w) \<Rightarrow>
                if acp_Success response then (([Info ''Constraint was added successfully''], None), w)
                else fail ''add constraints: '' ''failed to add Constraint'' w))"

definition add_constraint_run ::
  "(Constraint \<Rightarrow> go_error + string) \<Rightarrow> ('w, 'cert) dialer \<Rightarrow> GlobalFlags \<Rightarrow> 'w ctl_client option \<Rightarrow> int \<Rightarrow> constraintsCommand \<Rightarrow> 'w \<Rightarrow> 'w command_result" where
  "add_constraint_run Yaml d f grpcClient now cmd w =
     (case connect ''add constraints'' d f grpcClient of
        Inl err \<Rightarrow> (([], Some err), w)
      | Inr C \<Rightarrow>
          if cmd_fromViolatedPod cmd = [] \<and> cmd_name cmd = []
          then fail ''add constraints: '' ''either constraint name or from-violated-pod is required'' w
          else if cmd_fromViolatedPod cmd \<noteq> [] \<and> cmd_name cmd \<noteq> []
          then fail ''add constraints: '' ''constraint name and from-violated-pod cannot be used together'' w
          else if cmd_fromViolatedPod cmd \<noteq> []
          then (case buildConstraintFromViolatedPod C now cmd (cmd_fromViolatedPod cmd) w of
                  (Inl err, w) \<Rightarrow> (([], Errorf_w ''add constraints: '' (Some err)), w)
                | (Inr constraint, w) \<Rightarrow> submit_constraint Yaml C cmd constraint w)
          else submit_constraint Yaml C cmd (constraint_from_flags cmd) w)"

section \<open>tarianctl add actions\<close>

record actionCommand =
  act_name :: string
  act_namespace :: string
  act_matchLabels :: "string slice"
  act_action :: string
  act_dryRun :: bool
  act_onViolatedProcess :: bool
  act_onViolatedFile :: bool
  act_onFalcoAlert :: string

definition action_from_flags :: "actionCommand \<Rightarrow> Action" where
  "action_from_flags cmd =
     \<lparr>a_Kind = KindAction, a_Namespace = act_namespace cmd, a_Name = act_name cmd,
      a_Selector = Some \<lparr>sel_MatchLabels = matchLabelsFromString (act_matchLabels cmd)\<rparr>,
      a_OnViolatedProcess = act_onViolatedProcess cmd, a_OnViolatedFile = act_onViolatedFile cmd,
      a_OnFalcoAlert = (act_onFalcoAlert cmd \<noteq> []),
      a_FalcoPriority = (if act_onFalcoAlert cmd \<noteq> [] then FalcoPriorityFromString (act_onFalcoAlert cmd) else 0),
      a_Action = act_action cmd\<rparr>"

definition add_action_run ::
  "(Action \<Rightarrow> go_error + string) \<Rightarrow> ('w, 'cert) dialer \<Rightarrow> GlobalFlags \<Rightarrow> 'w ctl_client option \<Rightarrow> actionCommand \<Rightarrow> 'w \<Rightarrow> 'w command_result" where
  "add_action_run Yaml d f grpcClient cmd w =
     (if act_action cmd \<noteq> ''delete-pod''
      then (([ErrorLog (''invalid action: '' @ act_action cmd)], Some (NewError (''add action: invalid action: '' @ act_action cmd))), w)
      else (case connect ''add constraints'' d f grpcClient of
         Inl err \<Rightarrow> (([], Some err), w)
       | Inr C \<Rightarrow>
          if act_onFalcoAlert cmd \<noteq> [] \<and> act_onFalcoAlert cmd \<notin> set [''alert'', ''critical'', ''emergency'']
          then (([ErrorLog (''invalid falco alert: '' @ act_onFalcoAlert cmd)],
                 Some (NewError (''add action: invalid falco alert: '' @ act_onFalcoAlert cmd))), w)
          else if act_dryRun cmd
          then (case Yaml (action_from_flags cmd) of
                  Inl err \<Rightarrow> (([], Errorf_w ''add action: '' (Some err)), w)
                | Inr text \<Rightarrow> (([Info text], None), w))
          else (case cl_AddAction C \<lparr>aar_Action = Some (action_from_flags cmd)\<rparr> w of
                  (Inl err, w) \<Rightarrow> (([], Errorf_w ''add action: failed to add action: '' (Some err)), w)
                | (Inr response, w) \<Rightarrow>
                    if aap_Success response then (([Info ''Action was added successfully''], None), w)
                    else fail ''add action: '' ''failed to add action'' w)))"

section \<open>Parsing gives back what was printed\<close>

lemma key_value_append: "CHR ''='' \<notin> set k \<Longrightarrow> v \<noteq> [] \<Longrightarrow> key_value (k @ ''='' @ v) = Some (k, v)"
  by (auto simp: key_value_def Index_char_append Let_def)

definition unquoted :: "string \<Rightarrow> bool" where
  "unquoted s = (s = [] \<or> hd s \<noteq> CHR 0x22 \<and> last s \<noteq> CHR 0x22)"

lemma Trim_unquoted: "unquoted s \<Longrightarrow> Trim s quote_cutset = s"
  by (rule Trim_id) (auto simp: unquoted_def quote_cutset_def)

definition label_flag :: "MatchLabel \<Rightarrow> string" where
  "label_flag l = ml_Key l @ ''='' @ ml_Value l"

definition plain_label :: "MatchLabel \<Rightarrow> bool" where
  "plain_label l = (CHR ''='' \<notin> set (ml_Key l) \<and> ml_Value l \<noteq> [] \<and> unquoted (ml_Value l))"

definition file_flag :: "string \<times> string \<Rightarrow> string" where
  "file_flag = (\<lambda>(name, sum). name @ ''='' @ sum)"

definition plain_file :: "string \<times> string \<Rightarrow> bool" where
  "plain_file = (\<lambda>(name, sum). CHR ''='' \<notin> set name \<and> unquoted name \<and> sum \<noteq> [] \<and> unquoted sum)"

lemma matchLabels_loop_flags: "list_all plain_label ls \<Longrightarrow> matchLabels_loop (map label_flag ls) acc = acc @ ls"
  by (induction ls arbitrary: acc) (auto simp: label_flag_def plain_label_def key_value_append[simplified] Trim_unquoted)

lemma allowedFiles_loop_flags:
  "list_all plain_file fs \<Longrightarrow>
     allowedFiles_loop (map file_flag fs) acc = acc @ map (\<lambda>(n, x). \<lparr>afr_Name = n, afr_Sha256Sum = Some x\<rparr>) fs"
  by (induction fs arbitrary: acc) (auto simp: file_flag_def plain_file_def key_value_append[simplified] Trim_unquoted)

text \<open>
  The flags \<^verbatim>\<open>--match-labels\<close> and \<^verbatim>\<open>--allowed-file-sha256sums\<close> are parsed into exactly the labels and files
  they were written for: writing each as \<^verbatim>\<open>key=value\<close> and parsing gives the same list back, when keys hold
  no equals sign and values are not empty and not quoted.
\<close>

theorem flags_roundtrip:
  assumes "list_all plain_label ls" and "list_all plain_file fs"
  shows "elems (matchLabelsFromString (Some (map label_flag ls))) = ls \<and>
    elems (allowedFilesFromString (Some (map file_flag fs))) = map (\<lambda>(n, x). \<lparr>afr_Name = n, afr_Sha256Sum = Some x\<rparr>) fs"
  using assms by (auto simp: matchLabelsFromString_def allowedFilesFromString_def nil_if_empty_def
      matchLabels_loop_flags allowedFiles_loop_flags)

theorem flags_roundtrip_witness:
  "elems (matchLabelsFromString (Some [''run=nginx''])) = [\<lparr>ml_Key = ''run'', ml_Value = ''nginx''\<rparr>] \<and>
   elems (allowedFilesFromString (Some [''/etc/f=c01b''])) = [\<lparr>afr_Name = ''/etc/f'', afr_Sha256Sum = Some ''c01b''\<rparr>]"
  using flags_roundtrip[of "[\<lparr>ml_Key = ''run'', ml_Value = ''nginx''\<rparr>]" "[(''/etc/f'', ''c01b'')]"]
  by (simp add: plain_label_def plain_file_def unquoted_def label_flag_def file_flag_def)

section \<open>Deduplication\<close>

lemma dedup_loop_end: "dedup_loop found n n arr len = (arr, len)"
  by (subst dedup_loop.simps) simp

lemma last_update_first: "1 < length arr \<Longrightarrow> last (arr[0 := x]) = last arr"
  by (cases arr) auto

lemma dedup_loop_from:
  assumes "0 < i" "i \<le> n" "n = length arr"
  shows "(case dedup_loop found i n arr len of (arr', len') \<Rightarrow> take len' arr') =
    (if i = n then take len arr else if found (last arr) then [] else [last arr])"
  using assms
proof (induction found i n arr len rule: dedup_loop.induct)
  case (1 found i n arr len)
  show ?case
  proof (cases "i = n")
    case True
    then show ?thesis by (simp add: dedup_loop_end)
  next
    case False
    then have lt: "\<not> n \<le> i" "1 < length arr" using "1.prems" by auto
    have li: "arr ! i = last arr" if "Suc i = n" using that "1.prems" by (cases arr) (auto simp: last_conv_nth)
    have first: "take (Suc 0) (arr[0 := x]) = [x]" for x using lt by (cases arr) auto
    show ?thesis
      using lt "1.prems" "1.IH" False li
      by (subst dedup_loop.simps) (auto simp: last_update_first first Suc_le_eq[symmetric])
  qed
qed

lemma dedup_slice_last: "dedup_slice found xs = (if xs = [] \<or> found (last xs) then [] else [last xs])"
proof (cases xs)
  case (Cons x xs')
  have "dedup_slice found xs =
      (case dedup_loop found 1 (length xs) xs (if found x then 0 else 1) of (arr, len) \<Rightarrow> take len arr)"
    using Cons by (subst dedup_slice_def, subst dedup_loop.simps) simp
  then show ?thesis using dedup_loop_from[of 1 "length xs" xs found "if found x then 0 else 1"] Cons by auto
qed (simp add: dedup_slice_def dedup_loop_end)

text \<open>
  \<^verbatim>\<open>deduplicateRules\<close> keeps at most one process rule and one file rule: the last one of each list, and that
  only when no constraint has it already. Every rule before the last is lost, new or not, because
  each round of the loops starts a new slice on the array of the old one.
\<close>

theorem deduplicateRules_keeps_last:
  "deduplicateRules ps fs constraints =
     (if ps = [] \<or> process_rule_exists constraints (last ps) then [] else [last ps],
      if fs = [] \<or> file_rule_exists constraints (last fs) then [] else [last fs])"
  by (simp add: deduplicateRules_def dedup_slice_last)

section \<open>The commands\<close>

text \<open>
  With \<^verbatim>\<open>--dry-run\<close> no constraint is added, whatever the other flags are: if reading events and constraints
  leaves the server as it is, so does the command.
\<close>

theorem add_constraint_dry_run:
  assumes "cmd_dryRun cmd"
    and "\<And>C req w. connect ''add constraints'' d f grpcClient = Inr C \<Longrightarrow> snd (cl_GetEvents C req w) = w"
    and "\<And>C req w. connect ''add constraints'' d f grpcClient = Inr C \<Longrightarrow> snd (cl_GetConstraints C req w) = w"
  shows "snd (add_constraint_run Yaml d f grpcClient now cmd w) = w"
proof (cases "connect ''add constraints'' d f grpcClient")
  case (Inr C)
  have reads: "w' = w" if "cl_GetEvents C req w = (x, w') \<or> cl_GetConstraints C req' w = (y, w')" for req req' x y w w'
    using that assms(2)[OF Inr, of req w] assms(3)[OF Inr, of req' w] by auto
  have build: "snd (buildConstraintFromViolatedPod C now cmd podName w) = w" for podName
    by (auto simp: buildConstraintFromViolatedPod_def Let_def dest: reads[OF disjI1] reads[OF disjI2]
        split: prod.splits sum.splits option.splits)
  have submit: "snd (submit_constraint Yaml C cmd c w) = w" for c
    using assms(1) by (simp add: submit_constraint_def split: sum.splits)
  show ?thesis
    using build[of "cmd_fromViolatedPod cmd"]
    by (auto simp: add_constraint_run_def Inr fail_def submit split: prod.splits sum.splits)
qed (simp add: add_constraint_run_def)

definition counting_client :: "nat ctl_client" where
  "counting_client = \<lparr>cl_GetConstraints = (\<lambda>_ w. (Inr \<lparr>gcp_Constraints = None\<rparr>, w)),
     cl_AddConstraint = (\<lambda>_ w. (Inr \<lparr>acp_Success = True\<rparr>, Suc w)),
     cl_RemoveConstraint = (\<lambda>_ w. (Inr \<lparr>rcp_Success = True\<rparr>, Suc w)),
     cl_GetActions = (\<lambda>_ w. (Inr \<lparr>gap_Actions = None\<rparr>, w)),
     cl_AddAction = (\<lambda>_ w. (Inr \<lparr>aap_Success = True\<rparr>, Suc w)),
     cl_RemoveAction = (\<lambda>_ w. (Inr \<lparr>rap_Success = True\<rparr>, Suc w)),
     cl_GetEvents = (\<lambda>_ w. (Inr \<lparr>gep_Events = None\<rparr>, w))\<rparr>"

definition no_dialer :: "(nat, unit) dialer" where
  "no_dialer = Dialer (\<lambda>_ _ _. Inr []) (\<lambda>_ _. Inl (ExtError ''refused''))"

definition sample_command :: "bool \<Rightarrow> constraintsCommand" where
  "sample_command dry = \<lparr>cmd_name = ''nginx'', cmd_namespace = ''default'', cmd_matchLabels = Some [], cmd_allowedProcesses = Some [],
     cmd_allowedFileSha256Sums = Some [], cmd_fromViolatedPod = [], cmd_dryRun = dry\<rparr>"

theorem add_constraint_dry_run_witness:
  "snd (add_constraint_run (\<lambda>_. Inr ''kind: Constraint'') no_dialer SetGlobalFlags (Some counting_client) 0 (sample_command True) 5) = 5"
  by (rule add_constraint_dry_run) (auto simp: sample_command_def counting_client_def connect_def)

text \<open>
  The check for missing flags of \<^verbatim>\<open>add constraints\<close> never finds any: the flag library makes the slices of
  unset flags empty and not nil, and then a constraint with no rule and no selector labels is sent to
  the server. The command answers what the server answers.
\<close>

theorem add_constraint_without_rules_sent:
  assumes "connect ''add constraints'' d f grpcClient = Inr C"
    and "cmd_name cmd \<noteq> []" "cmd_fromViolatedPod cmd = []" "\<not> cmd_dryRun cmd"
    and "cmd_matchLabels cmd = Some []" "cmd_allowedProcesses cmd = Some []" "cmd_allowedFileSha256Sums cmd = Some []"
    and "cl_AddConstraint C \<lparr>acr_Constraint = Some \<lparr>c_Kind = KindConstraint, c_Namespace = cmd_namespace cmd, c_Name = cmd_name cmd,
           c_Selector = Some \<lparr>sel_MatchLabels = None\<rparr>, c_AllowedProcesses = None, c_AllowedFiles = None\<rparr>\<rparr> w =
         (Inr \<lparr>acp_Success = True\<rparr>, w')"
  shows "add_constraint_run Yaml d f grpcClient now cmd w = (([Info ''Constraint was added successfully''], None), w')"
  using assms by (simp add: add_constraint_run_def submit_constraint_def constraint_from_flags_def
      matchLabelsFromString_def allowedProcessesFromString_def allowedFilesFromString_def nil_if_empty_def)

theorem add_constraint_without_rules_sent_witness:
  "add_constraint_run (\<lambda>_. Inr []) no_dialer SetGlobalFlags (Some counting_client) 0 (sample_command False) 5 =
     (([Info ''Constraint was added successfully''], None), 6)"
  by (rule add_constraint_without_rules_sent[where C = counting_client])
    (simp_all add: connect_def sample_command_def counting_client_def)

end
