(* ===== verification/TarianctlGet.thy ===== *)
theory TarianctlGet
  imports TarianctlAdd AlertDispatcher
begin

text \<open>
  \<^verbatim>\<open>tarianctl get constraints\<close>, \<^verbatim>\<open>get actions\<close> and \<^verbatim>\<open>get events\<close> (\<^verbatim>\<open>cmd/tarianctl/cmd/get\<close>). A table is the list
  of its rows; how the table writer lays the rows out, the YAML encoder and the format of times are
  not part of the model (the last two are parameters).
\<close>

section \<open>Cells\<close>

text \<open>The loops that write a comma after every item but the last, at index \<open>i\<close> of \<open>n\<close> items.\<close>

fun comma_loop :: "('a \<Rightarrow> string) \<Rightarrow> nat \<Rightarrow> nat \<Rightarrow> 'a list \<Rightarrow> string" where
  "comma_loop f n i [] = []"
| "comma_loop f n i (x # xs) = f x @ (if int i < int n - 1 then '','' else []) @ comma_loop f n (Suc i) xs"

definition matchLabelsToString :: "MatchLabel list \<Rightarrow> string" where
  "matchLabelsToString labels =
     (if length labels = 0 then []
      else ''matchLabels:'' @ comma_loop (\<lambda>l. ml_Key l @ ''='' @ ml_Value l) (length labels) 0 labels)"

definition allowedProcessesToString :: "AllowedProcessRule list \<Rightarrow> string" where
  "allowedProcessesToString rules = comma_loop (\<lambda>r. ''regex:'' @ GetRegex r) (length rules) 0 rules"

definition allowedFilesToString :: "AllowedFileRule list \<Rightarrow> string" where
  "allowedFilesToString rules = comma_loop (\<lambda>r. afr_Name r @ '':'' @ GetSha256Sum r) (length rules) 0 rules"

definition formatActionTrigger :: "Action \<Rightarrow> string" where
  "formatActionTrigger action =
     (let s0 = [];
          s1 = (if a_OnViolatedProcess action then s0 @ ''onViolatedProcess'' else s0);
          s2 = (if a_OnViolatedFile action then (if length s1 > 0 then s1 @ '', '' else s1) @ ''onViolatedFile'' else s1)
      in (if a_OnFalcoAlert action
          then (if length s2 > 0 then s2 @ '', '' else s2) @ ''onFalcoAlert='' @ FalcoPriority_ToString (a_FalcoPriority action)
          else s2))"

definition get_violatedProcessesToString :: "Process list \<Rightarrow> string" where
  "get_violatedProcessesToString ps = items_to_string (\<lambda>p. Itoa (sint (p_Pid p)) @ '':'' @ p_Name p) (length ps) 0 ps"

definition get_violatedFilesToString :: "ViolatedFile list \<Rightarrow> string" where
  "get_violatedFilesToString fs =
     items_to_string (\<lambda>f. ''name='' @ vf_Name f @ '' actual-sha256='' @ vf_ActualSha256Sum f @ '' expected-sha256='' @ vf_ExpectedSha256Sum f)
       (length fs) 0 fs"

definition falcoAlertToString :: "FalcoAlert option \<Rightarrow> string" where
  "falcoAlertToString f =
     (case f of None \<Rightarrow> [] | Some f \<Rightarrow> FalcoPriority_ToString (fa_Priority f) @ '': '' @ fa_Output f)"

section \<open>Tables\<close>

definition constraintsTableOutput :: "Constraint list \<Rightarrow> log_entry" where
  "constraintsTableOutput constraints =
     Table [''Namespace'', ''Constraint Name'', ''Selector'', ''Allowed Processes'', ''Allowed Files'']
       (map (\<lambda>c. [c_Namespace c, c_Name c, matchLabelsToString (elems (GetMatchLabels (c_Selector c))),
          allowedProcessesToString (elems (c_AllowedProcesses c)), allowedFilesToString (elems (c_AllowedFiles c))]) constraints)"

definition actionsTableOutput :: "Action list \<Rightarrow> log_entry" where
  "actionsTableOutput actions =
     Table [''Namespace'', ''Action Name'', ''Selector'', ''Trigger'', ''Action'']
       (map (\<lambda>a. [a_Namespace a, a_Name a, matchLabelsToString (elems (GetMatchLabels (a_Selector a))),
          formatActionTrigger a, a_Action a]) actions)"

definition event_cell :: "Event \<Rightarrow> Target \<Rightarrow> string" where
  "event_cell e t =
     (case t_ViolatedProcesses t of None \<Rightarrow> [] | Some ps \<Rightarrow> ''violated processes\<newline>'' @ get_violatedProcessesToString ps) @
     (case t_ViolatedFiles t of None \<Rightarrow> [] | Some fs \<Rightarrow> ''violated files\<newline>'' @ get_violatedFilesToString fs) @
     (if t_FalcoAlert t \<noteq> None then ''falco alert\<newline>'' @ falcoAlertToString (t_FalcoAlert t) else []) @
     (if e_Type e = EventTypePodDeleted then ''pod deleted'' else []) @
     (if e_Type e = EventTypeDetection
      then ''tarian detection event\<newline>detection: '' @ t_DetectionDataType t @ '': '' @ t_DetectionData t else []) @ ''\<newline>''"

text \<open>A nil timestamp is rendered as the Unix epoch by \<^verbatim>\<open>AsTime\<close>.\<close>

definition eventsTableOutput :: "(Timestamp \<Rightarrow> string) \<Rightarrow> Event list \<Rightarrow> log_entry" where
  "eventsTableOutput RFC3339 events =
     Table [''Time'', ''Namespace'', ''Pod'', ''Events'']
       (concat (map (\<lambda>e. map (\<lambda>t.
          [RFC3339 (case e_ServerTimestamp e of None \<Rightarrow> 0 | Some ts \<Rightarrow> ts),
           Pod_GetNamespace (t_Pod t), Pod_GetName (t_Pod t), event_cell e t]) (elems (e_Targets e))) events))"

fun yaml_output :: "('a \<Rightarrow> go_error + string) \<Rightarrow> 'a list \<Rightarrow> log_entry list \<Rightarrow> log_entry list \<times> go_error option" where
  "yaml_output Yaml [] out = (out, None)"
| "yaml_output Yaml (x # xs) out =
     (case Yaml x of
        Inl err \<Rightarrow> (out, Some err)
      | Inr d \<Rightarrow> yaml_output Yaml xs (out @ [Info d, Info ''---\<newline>'']))"

definition constraintsYamlOutput :: "(Constraint \<Rightarrow> go_error + string) \<Rightarrow> Constraint list \<Rightarrow> log_entry list \<times> go_error option" where
  "constraintsYamlOutput Yaml constraints = yaml_output Yaml constraints []"

definition actionsYamlOutput :: "(Action \<Rightarrow> go_error + string) \<Rightarrow> Action list \<Rightarrow> log_entry list \<times> go_error option" where
  "actionsYamlOutput Yaml actions = yaml_output Yaml actions []"

section \<open>Commands\<close>

definition get_constraints_run ::
  "(Constraint \<Rightarrow> go_error + string) \<Rightarrow> ('w, 'cert) dialer \<Rightarrow> GlobalFlags \<Rightarrow> 'w ctl_client option \<Rightarrow> string \<Rightarrow> 'w \<Rightarrow> 'w command_result" where
  "get_constraints_run Yaml d f grpcClient outputFormat w =
     (case connect ''add constraints'' d f grpcClient of
        Inl err \<Rightarrow> (([], Some err), w)
      | Inr C \<Rightarrow>
          (case cl_GetConstraints C \<lparr>gcr_Namespace = [], gcr_Labels = None\<rparr> w of
             (Inl err, w) \<Rightarrow> (([], Errorf_w ''get constraints: failed to get constraints: '' (Some err)), w)
           | (Inr response, w) \<Rightarrow>
               if outputFormat = [] then (([constraintsTableOutput (elems (gcp_Constraints response))], None), w)
               else if outputFormat = ''yaml''
               then (case constraintsYamlOutput Yaml (elems (gcp_Constraints response)) of
                       (out, Some err) \<Rightarrow> ((out, Errorf_w ''get constraints: '' (Some err)), w)
                     | (out, None) \<Rightarrow> ((out, None), w))
               else (([], Some (NewError (''get constraints: invalid output format: '' @ outputFormat))), w)))"

definition get_actions_run ::
  "(Action \<Rightarrow> go_error + string) \<Rightarrow> ('w, 'cert) dialer \<Rightarrow> GlobalFlags \<Rightarrow> 'w ctl_client option \<Rightarrow> string \<Rightarrow> string \<Rightarrow> 'w \<Rightarrow> 'w command_result" where
  "get_actions_run Yaml d f grpcClient ns outputFormat w =
     (case connect ''add constraints'' d f grpcClient of
        Inl err \<Rightarrow> (([], Some err), w)
      | Inr C \<Rightarrow>
          (case cl_GetActions C \<lparr>gar_Namespace = ns, gar_Labels = None\<rparr> w of
             (Inl err, w) \<Rightarrow> (([], Errorf_w ''get actions: failed to get actions: '' (Some err)), w)
           | (Inr response, w) \<Rightarrow>
               if outputFormat = [] then (([actionsTableOutput (elems (gap_Actions response))], None), w)
               else if outputFormat = ''yaml''
               then (case actionsYamlOutput Yaml (elems (gap_Actions response)) of
                       (out, Some err) \<Rightarrow> ((out, Errorf_w ''get actions: '' (Some err)), w)
                     | (out, None) \<Rightarrow> ((out, None), w))
               else (([], Some (NewError (''get actions: invalid output format: '' @ outputFormat))), w)))"

text \<open>The limit is an unsigned machine word that the request truncates to 32 bits.\<close>

definition get_events_run ::
  "(Timestamp \<Rightarrow> string) \<Rightarrow> ('w, 'cert) dialer \<Rightarrow> GlobalFlags \<Rightarrow> 'w ctl_client option \<Rightarrow> 64 word \<Rightarrow> 'w \<Rightarrow> 'w command_result" where
  "get_events_run RFC3339 d f grpcClient limit w =
     (case connect ''add constraints'' d f grpcClient of
        Inl err \<Rightarrow> (([], Some err), w)
      | Inr C \<Rightarrow>
          (case cl_GetEvents C \<lparr>ger_Namespace = [], ger_Limit = ucast limit\<rparr> w of
             (Inl err, w) \<Rightarrow> (([], Errorf_w ''get events: failed to get events: '' (Some err)), w)
           | (Inr response, w) \<Rightarrow> (([eventsTableOutput RFC3339 (elems (gep_Events response))], None), w)))"

section \<open>The selector cell\<close>

lemma comma_loop_Join: "i + length xs = n \<Longrightarrow> comma_loop f n i xs = Join (map f xs) '',''"
proof (induction xs arbitrary: i)
  case (Cons x xs)
  then show ?case by (cases xs) auto
qed simp

lemma matchLabelsToString_Join:
  "matchLabelsToString ls = (if ls = [] then [] else ''matchLabels:'' @ Join (map label_flag ls) '','')"
  by (simp add: matchLabelsToString_def comma_loop_Join label_flag_def[abs_def])

text \<open>
  What \<^verbatim>\<open>get constraints\<close> prints as the selector can be given back to \<^verbatim>\<open>add\<close>: the cell split at its commas,
  after the prefix \<^verbatim>\<open>matchLabels:\<close>, parses to the labels of the selector, when keys and values hold no comma
  and are as \<^verbatim>\<open>add\<close> requires them.
\<close>

theorem selector_cell_roundtrip:
  assumes "ls \<noteq> []" and "list_all plain_label ls"
    and "list_all (\<lambda>l. CHR '','' \<notin> set (ml_Key l) \<and> CHR '','' \<notin> set (ml_Value l)) ls"
  shows "matchLabelsFromString (Some (Split (drop (length ''matchLabels:'') (matchLabelsToString ls)) '','')) = Some ls"
proof -
  have "CHR '','' \<notin> set x" if "x \<in> set (map label_flag ls)" for x
    using that assms(3) by (auto simp: label_flag_def list_all_iff)
  then have "Split (Join (map label_flag ls) '','') '','' = map label_flag ls"
    using Split_Join[of "map label_flag ls" "CHR '',''"] assms(1) by simp
  then show ?thesis
    using assms by (simp add: matchLabelsToString_Join matchLabelsFromString_def matchLabels_loop_flags nil_if_empty_def)
qed

theorem selector_cell_roundtrip_witness:
  "matchLabelsFromString (Some (Split ''app=web,tier=db'' '','')) =
     Some [\<lparr>ml_Key = ''app'', ml_Value = ''web''\<rparr>, \<lparr>ml_Key = ''tier'', ml_Value = ''db''\<rparr>]"
  using selector_cell_roundtrip[of "[\<lparr>ml_Key = ''app'', ml_Value = ''web''\<rparr>, \<lparr>ml_Key = ''tier'', ml_Value = ''db''\<rparr>]"]
  by (simp add: plain_label_def unquoted_def matchLabelsToString_Join label_flag_def)

end
