(* ===== verification/ControlPlane.thy ===== *)
theory ControlPlane
  imports NodeAgent ConfigServer DgraphEventStore EventServer ClusterAgent TarianctlAdd
begin

text \<open>
  The components put together. The clients of the other theories take the server as a record of
  remote calls; here that record is made of the server's own handlers over Dgraph, and the
  contracts the clients rely on are proved for it: the command line client through the locale
  \<open>config_client\<close>, the node agent through the cluster agent's proxy.
\<close>

section \<open>The server behind a connection\<close>

definition call :: "('req \<Rightarrow> ('s, 'resp reply) io) \<Rightarrow> ('s, 'req, 'resp) rpc" where
  "call handler req s = (case handler req s of (r, s') \<Rightarrow> (Invoke r, s'))"

definition server_ctl :: "'k strset \<Rightarrow> 's dgraph \<Rightarrow> time_codec \<Rightarrow> Timestamp \<Rightarrow> 's ctl_client" where
  "server_ctl S D T now =
     \<lparr>cl_GetConstraints = call (GetConstraints S (dgraph_server D)),
      cl_AddConstraint = call (AddConstraint (dgraph_server D)),
      cl_RemoveConstraint = call (RemoveConstraint (dgraph_server D)),
      cl_GetActions = call (GetActions S (dgraph_server D)),
      cl_AddAction = call (AddAction (dgraph_server D)),
      cl_RemoveAction = call (RemoveAction (dgraph_server D)),
      cl_GetEvents = call (GetEvents (dgraphEventStore D T now))\<rparr>"

definition server_sc ::
  "'k strset \<Rightarrow> 's dgraph \<Rightarrow> ('s, IngestEventRequest, IngestEventResponse) rpc \<Rightarrow> 's server_client" where
  "server_sc S D ingest =
     \<lparr>sc_GetConstraints = call (GetConstraints S (dgraph_server D)),
      sc_AddConstraint = call (AddConstraint (dgraph_server D)),
      sc_RemoveConstraint = call (RemoveConstraint (dgraph_server D)),
      sc_GetActions = call (GetActions S (dgraph_server D)),
      sc_IngestEvent = ingest\<rparr>"

lemma call_Inl: "call handler req s = (Inl e, s') \<Longrightarrow> \<exists>r. handler req s = (r, s') \<and> (snd r \<noteq> None \<or> fst r = None)"
  by (cases "handler req s", cases "fst (handler req s)"; cases "fst (fst (handler req s))"; cases "snd (fst (handler req s))")
    (auto simp: call_def)

lemma call_Inr: "call handler req s = (Inr resp, s') \<Longrightarrow> handler req s = ((Some resp, None), s')"
  by (cases "handler req s", cases "fst (handler req s)"; cases "fst (fst (handler req s))"; cases "snd (fst (handler req s))")
    (auto simp: call_def)

section \<open>The contract of the command line client\<close>

lemma without_all_others: "\<forall>x\<in>#N. constraint_nsname x \<noteq> (ns, nm) \<Longrightarrow> without ns {nm} N = N"
proof -
  assume "\<forall>x\<in>#N. constraint_nsname x \<noteq> (ns, nm)"
  then have "without ns {nm} N = filter_mset (\<lambda>_. True) N"
    unfolding without_def by (intro filter_mset_cong) (auto simp: constraint_nsname_def)
  then show ?thesis by simp
qed

lemma remove1_without:
  assumes "\<forall>x\<in>#M - {#y#}. constraint_nsname x \<noteq> (ns, nm)" "y \<in># M" "constraint_nsname y = (ns, nm)"
  shows "M - {#y#} = without ns {nm} M"
proof -
  obtain N where M: "M = add_mset y N" using assms(2) by (metis insert_DiffM)
  then show ?thesis using assms(1,3) without_all_others[of N ns nm] by (simp add: without_def constraint_nsname_def)
qed

context dgraph_db
begin

lemma store_remove_without:
  assumes "cs_RemoveByNamespaceAndName (dgraphConstraintStore D) ns nm s = (e, s')" "ns \<noteq> []" "nm \<noteq> []"
    and "constraints.unique s"
  shows "held_constraints (graph s') = without ns {nm} (held_constraints (graph s)) \<or>
    e \<noteq> None \<and> held_constraints (graph s') = held_constraints (graph s)"
  using constraints.Remove_cases[OF assms(1-3)]
proof
  assume "\<exists>x\<in>#held_nodes ''Constraint'' constraint_of (graph s). constraint_nsname x = (ns, nm) \<and>
    held_nodes ''Constraint'' constraint_of (graph s') = held_nodes ''Constraint'' constraint_of (graph s) - {#x#}"
  then obtain x where x: "x \<in># held_constraints (graph s)" "constraint_nsname x = (ns, nm)"
    "held_constraints (graph s') = held_constraints (graph s) - {#x#}" by (auto simp: held_constraints_def)
  then have "\<not> constraints.present (ns, nm) s'"
    using constraints.remove_not_present[OF assms(4)] by (simp add: held_constraints_def)
  then show ?thesis using remove1_without[OF _ x(1,2)] x(3)
    by (auto simp: constraints.present_def held_constraints_def)
next
  assume *: "held_nodes ''Constraint'' constraint_of (graph s') = held_nodes ''Constraint'' constraint_of (graph s) \<and>
    (e = None \<longrightarrow> (\<forall>x\<in>#held_nodes ''Constraint'' constraint_of (graph s). constraint_nsname x \<noteq> (ns, nm)))"
  then show ?thesis using without_all_others[of "held_constraints (graph s)" ns nm]
    by (auto simp: held_constraints_def)
qed

lemma RemoveConstraint_without:
  assumes "RemoveConstraint (dgraph_server D) \<lparr>rcr_Namespace = ns, rcr_Name = nm\<rparr> s = (r, s')" "no_duplicates (graph s)"
  shows "held_constraints (graph s') = without ns {nm} (held_constraints (graph s)) \<and> (snd r = None \<longrightarrow> r = (Some \<lparr>rcp_Success = True\<rparr>, None)) \<or>
    snd r \<noteq> None \<and> held_constraints (graph s') = held_constraints (graph s)"
  using assms(1)
proof (cases rule: RemoveConstraint_cases)
  case refused
  then have "graph s' = graph s" using constraint_read_keeps(1) by auto
  then show ?thesis using refused(1) by simp
next
  case (tried s1 e)
  have g1: "graph s1 = graph s" using tried(3) constraint_read_keeps(1) by simp
  have "constraints.unique s1" using assms(2) g1 constraints.unique_cong[of s1 s] by (simp add: no_duplicates_unique)
  from store_remove_without[OF tried(4)[simplified] _ _ this] tried(1,2,5,6) g1 show ?thesis by (cases e) auto
qed

lemma AddConstraint_held:
  assumes "AddConstraint (dgraph_server D) \<lparr>acr_Constraint = Some c\<rparr> s = ((Some resp, None), s')"
  shows "held_constraints (graph s') = add_mset (stored_constraint c) (held_constraints (graph s)) \<or>
    \<not> acp_Success resp \<and> held_constraints (graph s') = held_constraints (graph s)"
  using assms
proof (cases rule: AddConstraint_cases)
  case (tried c' s1 e)
  then show ?thesis using constraints.Add_cases[OF tried(5)[simplified]] constraint_read_keeps(1)[OF tried(4)[simplified]]
    by (auto simp: held_constraints_def constraint_nsname_def)
qed simp

lemma server_is_config_client:
  "config_client (server_ctl S D T now) (\<lambda>s. held_constraints (graph s)) stored_constraint (\<lambda>s. no_duplicates (graph s))"
proof (unfold_locales, goal_cases)
  case (1 c w r w')
  obtain h where h: "AddConstraint (dgraph_server D) \<lparr>acr_Constraint = Some c\<rparr> w = (h, w')" "r = Invoke h"
    using 1(1) by (auto simp: server_ctl_def call_def split: prod.splits)
  have "no_duplicates (graph w')" using AddConstraint_no_duplicates[OF h(1) 1(2)] .
  moreover have "case r of Inl _ \<Rightarrow> held_constraints (graph w') = held_constraints (graph w)
    | Inr resp \<Rightarrow> held_constraints (graph w') = add_mset (stored_constraint c) (held_constraints (graph w)) \<or>
        \<not> acp_Success resp \<and> held_constraints (graph w') = held_constraints (graph w)"
  proof (cases r)
    case (Inr resp)
    then have "h = (Some resp, None)" using h(2) by (cases h rule: Invoke.cases) auto
    then show ?thesis using AddConstraint_held h(1) Inr by simp
  next
    case (Inl e)
    have "snd h \<noteq> None"
      using h(1) by (cases rule: AddConstraint_cases) (use Inl h(2) in auto)
    then show ?thesis using AddConstraint_promise[OF h(1)] Inl by simp
  qed
  ultimately show ?case by blast
next
  case (2 ns nm w r w')
  obtain h where h: "RemoveConstraint (dgraph_server D) \<lparr>rcr_Namespace = ns, rcr_Name = nm\<rparr> w = (h, w')" "r = Invoke h"
    using 2(1) by (auto simp: server_ctl_def call_def split: prod.splits)
  have "no_duplicates (graph w')" using RemoveConstraint_no_duplicates[OF h(1) 2(2)] .
  then show ?case using RemoveConstraint_without[OF h(1) 2(2)] h(2)
    by (cases h rule: Invoke.cases) auto
qed

end

sublocale dgraph_db \<subseteq> ctl: config_client "server_ctl S D T now" "\<lambda>s. held_constraints (graph s)" stored_constraint "\<lambda>s. no_duplicates (graph s)" for S T now
  by (rule server_is_config_client)

section \<open>The node agent behind the proxy\<close>

lemma px_AddConstraint_server:
  "px_AddConstraint (server_sc S D ingest) px \<lparr>acr_Constraint = Some c\<rparr> s = (Inr resp, s') \<Longrightarrow>
     AddConstraint (dgraph_server D) \<lparr>acr_Constraint = Some c\<rparr> s = ((Some resp, None), s')"
  by (auto simp: px_AddConstraint_def server_sc_def dest: call_Inr split: if_splits)

lemma na_Sync_server:
  assumes "na_SyncConstraints (px_GetConstraints (server_sc S D ingest)) n s = (Some n', s')"
  obtains resp where "GetConstraints S (dgraph_server D) \<lparr>gcr_Namespace = [], gcr_Labels = None\<rparr> s = ((Some resp, None), s')"
    "na_constraints n' = gcp_Constraints resp"
  using assms by (auto simp: na_SyncConstraints_def px_GetConstraints_def server_sc_def na_SetConstraints_def
      split: prod.splits sum.splits dest: call_Inr)

context dgraph_db
begin

lemma node_agent_synced:
  assumes "na_SyncConstraints (px_GetConstraints (server_sc S D ingest)) n s = (Some n', s')"
    and "snd (fst (constraint_GetAll D s)) = None"
  shows "mset (elems (na_constraints n')) = held_constraints (graph s)"
proof -
  obtain resp where g: "GetConstraints S (dgraph_server D) \<lparr>gcr_Namespace = [], gcr_Labels = None\<rparr> s = ((Some resp, None), s')"
    and n': "na_constraints n' = gcp_Constraints resp" using na_Sync_server[OF assms(1)] .
  from GetConstraints_promise[OF g] assms(2) n' show ?thesis by simp
qed

end

lemma registered_constraint_accepts:
  assumes "strset_ok S mem" "plain_keys (ev_K8sPodLabels v)" "plain_keys (ev_K8sPodLabels v')"
    and "ev_K8sNamespace v' = ev_K8sNamespace v" "ev_Command v' = ev_Command v" "ev_Command v \<noteq> []"
    and "set (map_delete ''pod-template-hash'' (ev_K8sPodLabels v)) \<subseteq> set (ev_K8sPodLabels v')"
    and "Compile (ev_Command v) = Inr rgx" "rgx (ev_Command v)"
    and "stored_constraint (processConstraint now v) \<in> set (elems (na_constraints n))"
  shows "ValidateProcess S Compile n v' = None"
proof -
  let ?c = "stored_constraint (processConstraint now v)" and ?m = "map_delete ''pod-template-hash'' (ev_K8sPodLabels v)"
  have pairs: "matchlabel_pairs (GetMatchLabels (c_Selector ?c)) = ?m"
    using pairs_matchLabelsFromPodLabels[of ?m]
    by (simp add: stored_constraint_def processConstraint_def Let_def stored_selector_def GetMatchLabels_def matchlabel_pairs_def
        matchLabelsFromPodLabels_def split: option.splits)
  then have "plain_constraint ?c"
    using assms(2) by (auto simp: plain_constraint_def plain_keys_def map_delete_def list_all_iff)
  then have "constraintMatchesPod S ?c v'"
    using constraintMatchesPod_iff[OF assms(1,3)] pairs assms(4,7)
    by (simp add: selects_def) (simp add: stored_constraint_def processConstraint_def Let_def)
  moreover have "rules_allow Compile (ev_Command v') (elems (c_AllowedProcesses ?c))"
    using assms(5,6,8,9) by (simp add: stored_constraint_def processConstraint_def Let_def GetRegex_def)
  ultimately show ?thesis
    using assms(10) by (auto simp: ValidateProcess_def validate_loop_iff Let_def)
qed

end
