(* ===== verification/Commands.thy ===== *)
theory Commands
  imports PodAgentCmd Tarianctl
begin

text \<open>
  The five programs from \<^verbatim>\<open>main\<close> to the command they run: the logger (\<^verbatim>\<open>pkg/log\<close>), the version
  (\<^verbatim>\<open>cmd/version.go\<close>), the global flags, what runs before every command, and the trees of commands
  (\<^verbatim>\<open>root.go\<close> and the command groups). The library \<^verbatim>\<open>cobra\<close> that finds and runs a command is a parameter,
  as is the parser of log levels. What a command does is in the theories of the components; here it
  is an argument of the tree.
\<close>

section \<open>The logger\<close>

record text_options =
  tf_ForceColors :: bool
  tf_DisableColors :: bool
  tf_FullTimestamp :: bool
  tf_DisableQuote :: bool
  tf_DisableTimestamp :: bool
  tf_DisableLevelTruncation :: bool

datatype log_format = TextFormatter text_options | JSONFormatter | NoTimestampFormatter

record logger =
  lg_Level :: nat
  lg_Formatter :: log_format

definition InfoLevel :: nat where "InfoLevel = 4"

definition default_format :: log_format where
  "default_format = TextFormatter \<lparr>tf_ForceColors = True, tf_DisableColors = False, tf_FullTimestamp = True,
     tf_DisableQuote = False, tf_DisableTimestamp = False, tf_DisableLevelTruncation = False\<rparr>"

definition mini_format :: log_format where
  "mini_format = TextFormatter \<lparr>tf_ForceColors = False, tf_DisableColors = True, tf_FullTimestamp = False,
     tf_DisableQuote = True, tf_DisableTimestamp = True, tf_DisableLevelTruncation = True\<rparr>"

text \<open>
  The functions on the package's variable, which is nil until it is configured. Setting the format of
  a nil logger ends the process, which is \<open>None\<close>.
\<close>

definition DefaultFormat :: "logger option \<Rightarrow> logger option option" where
  "DefaultFormat logger = (case logger of None \<Rightarrow> None | Some l \<Rightarrow> Some (Some (l\<lparr>lg_Formatter := default_format\<rparr>)))"

definition MiniLogFormat :: "logger option \<Rightarrow> logger option option" where
  "MiniLogFormat logger = (case logger of None \<Rightarrow> None | Some l \<Rightarrow> Some (Some (l\<lparr>lg_Formatter := mini_format\<rparr>)))"

definition ConfigureLogger :: "(string \<Rightarrow> go_error + nat) \<Rightarrow> string \<Rightarrow> logger option \<Rightarrow> logger option option" where
  "ConfigureLogger ParseLevel logLevel logger =
     (let level = (case ParseLevel logLevel of Inl err \<Rightarrow> InfoLevel | Inr level \<Rightarrow> level);
          new = \<lparr>lg_Level = level, lg_Formatter = TextFormatter \<lparr>tf_ForceColors = False, tf_DisableColors = False,
            tf_FullTimestamp = False, tf_DisableQuote = False, tf_DisableTimestamp = False, tf_DisableLevelTruncation = False\<rparr>\<rparr>
      in DefaultFormat (Some new))"

definition GetLogger :: "(string \<Rightarrow> go_error + nat) \<Rightarrow> logger option \<Rightarrow> (logger \<times> logger option) option" where
  "GetLogger ParseLevel logger =
     (case (if logger = None then ConfigureLogger ParseLevel ''info'' logger else Some logger) of
        Some (Some l) \<Rightarrow> Some (l, Some l)
      | _ \<Rightarrow> None)"

definition NoTimestamp_Format :: "string \<Rightarrow> string \<times> go_error option" where
  "NoTimestamp_Format message = (message, None)"

lemma GetLogger_returns: "\<exists>l. GetLogger ParseLevel logger = Some (l, Some l)"
  by (cases logger) (simp_all add: GetLogger_def ConfigureLogger_def DefaultFormat_def Let_def)

section \<open>A program\<close>

text \<open>Its flags, the logger its commands use, the version, what it wrote, and the rest of the world.\<close>

record ('f, 'w) program =
  pg_flags :: 'f
  pg_logger :: logger
  pg_version :: string
  pg_out :: "log_entry list"
  pg_world :: 'w

type_synonym ('f, 'w) step = "(('f, 'w) program, go_error option) io"

definition SetVersion :: "string \<Rightarrow> ('f, 'w) program \<Rightarrow> ('f, 'w) program" where
  "SetVersion ver p = p\<lparr>pg_version := ver\<rparr>"

definition GetVersion :: "('f, 'w) program \<Rightarrow> string" where
  "GetVersion p = pg_version p"

section \<open>Global flags of the agents and the server\<close>

definition server_SetGlobalFlags :: AgentFlags where
  "server_SetGlobalFlags = \<lparr>af_LogLevel = ''info'', af_LogFormatter = ''text''\<rparr>"

definition server_ValidateGlobalFlags :: "AgentFlags \<Rightarrow> go_error option" where
  "server_ValidateGlobalFlags f =
     (if af_LogLevel f \<notin> set [''debug'', ''info'', ''warn'', ''warning'', ''error'', ''fatal'']
      then Some (NewError (''invalid log level: '' @ af_LogLevel f))
      else if af_LogFormatter f \<notin> set [''json'', ''text'']
      then Some (NewError (''invalid log formatter: '' @ af_LogFormatter f))
      else None)"

definition cluster_SetGlobalFlags :: AgentFlags where
  "cluster_SetGlobalFlags = \<lparr>af_LogLevel = ''info'', af_LogFormatter = ''text''\<rparr>"

definition cluster_ValidateGlobalFlags :: "AgentFlags \<Rightarrow> go_error option" where
  "cluster_ValidateGlobalFlags f =
     (if af_LogLevel f \<notin> set [''debug'', ''info'', ''warn'', ''warning'', ''error'', ''fatal'']
      then Some (NewError (''invalid log level: '' @ af_LogLevel f))
      else if af_LogFormatter f \<notin> set [''json'', ''text'']
      then Some (NewError (''invalid log formatter: '' @ af_LogFormatter f))
      else None)"

definition node_SetGlobalFlags :: AgentFlags where
  "node_SetGlobalFlags = \<lparr>af_LogLevel = ''info'', af_LogFormatter = ''text''\<rparr>"

definition node_ValidateGlobalFlags :: "AgentFlags \<Rightarrow> go_error option" where
  "node_ValidateGlobalFlags f =
     (if af_LogLevel f \<notin> set [''debug'', ''info'', ''warn'', ''warning'', ''error'', ''fatal'']
      then Some (NewError (''invalid log level: '' @ af_LogLevel f))
      else if af_LogFormatter f \<notin> set [''json'', ''text'']
      then Some (NewError (''invalid log formatter: '' @ af_LogFormatter f))
      else None)"

section \<open>What runs before every command\<close>

text \<open>\<^verbatim>\<open>ParseLevel\<close> gives a level beside its error, the zero one, and the error is dropped.\<close>

definition set_up_logger :: "(string \<Rightarrow> go_error + nat) \<Rightarrow> string \<Rightarrow> string \<Rightarrow> logger \<Rightarrow> logger" where
  "set_up_logger ParseLevel level formatter l =
     (let l1 = l\<lparr>lg_Level := (case ParseLevel level of Inl _ \<Rightarrow> 0 | Inr n \<Rightarrow> n)\<rparr>
      in if formatter = ''json'' then l1\<lparr>lg_Formatter := JSONFormatter\<rparr> else l1)"

definition server_PreRun :: "(string \<Rightarrow> go_error + nat) \<Rightarrow> (AgentFlags, 'w) step" where
  "server_PreRun ParseLevel p = (case server_ValidateGlobalFlags (pg_flags p) of
     Some err \<Rightarrow> (Some err, p)
   | None \<Rightarrow> (None, p\<lparr>pg_logger := set_up_logger ParseLevel (af_LogLevel (pg_flags p)) (af_LogFormatter (pg_flags p)) (pg_logger p)\<rparr>))"

definition cluster_PreRun :: "(string \<Rightarrow> go_error + nat) \<Rightarrow> (AgentFlags, 'w) step" where
  "cluster_PreRun ParseLevel p = (case cluster_ValidateGlobalFlags (pg_flags p) of
     Some err \<Rightarrow> (Some err, p)
   | None \<Rightarrow> (None, p\<lparr>pg_logger := set_up_logger ParseLevel (af_LogLevel (pg_flags p)) (af_LogFormatter (pg_flags p)) (pg_logger p)\<rparr>))"

definition node_PreRun :: "(string \<Rightarrow> go_error + nat) \<Rightarrow> (AgentFlags, 'w) step" where
  "node_PreRun ParseLevel p = (case node_ValidateGlobalFlags (pg_flags p) of
     Some err \<Rightarrow> (Some err, p)
   | None \<Rightarrow> (None, p\<lparr>pg_logger := set_up_logger ParseLevel (af_LogLevel (pg_flags p)) (af_LogFormatter (pg_flags p)) (pg_logger p)\<rparr>))"

text \<open>The pod agent's, over the model of its flags.\<close>

definition pod_PreRun :: "(string \<Rightarrow> go_error + nat) \<Rightarrow> (AgentFlags, 'w) step" where
  "pod_PreRun ParseLevel p = (case root_PreRun ParseLevel (pg_flags p) of
     Inl err \<Rightarrow> (Some err, p)
   | Inr (level, json) \<Rightarrow> (None, p\<lparr>pg_logger := (if json then \<lparr>lg_Level = level, lg_Formatter = JSONFormatter\<rparr>
       else (pg_logger p)\<lparr>lg_Level := level\<rparr>)\<rparr>))"

text \<open>The client's: the environment is read after the flags were checked.\<close>

definition ctl_PreRun :: "(string \<Rightarrow> go_error + nat) \<Rightarrow> (string \<Rightarrow> string) \<Rightarrow> (GlobalFlags, 'w) step" where
  "ctl_PreRun ParseLevel Getenv p = (case ValidateGlobalFlags (pg_flags p) of
     Some err \<Rightarrow> (Some err, p)
   | None \<Rightarrow> (None, p\<lparr>pg_logger := set_up_logger ParseLevel (gf_LogLevel (pg_flags p)) (gf_LogFormatter (pg_flags p)) (pg_logger p),
       pg_flags := GetFlagValuesFromEnvVar Getenv (pg_flags p)\<rparr>))"

section \<open>Command trees\<close>

datatype arg_check = LegacyArgs | NoArgs | MinimumNArgs nat

text \<open>
  A command: its name, its aliases, its check of the arguments, the flags marked as required, \<^verbatim>\<open>RunE\<close>
  (or \<^verbatim>\<open>Run\<close>) if it has one, its subcommands.
\<close>

datatype 's command =
  Command (cmd_Use: string) (cmd_Aliases: "string list") (cmd_Args: arg_check) (cmd_Required: "string list")
    (cmd_RunE: "(string list \<Rightarrow> 's \<Rightarrow> go_error option \<times> 's) option") (cmd_Subs: "'s command list")

definition leaf :: "string \<Rightarrow> string list \<Rightarrow> (string list \<Rightarrow> 's \<Rightarrow> go_error option \<times> 's) \<Rightarrow> 's command" where
  "leaf use aliases run = Command use aliases LegacyArgs [] (Some run) []"

definition print_version :: "string \<Rightarrow> string list \<Rightarrow> ('f, 'w) step" where
  "print_version who args p = (None, p\<lparr>pg_out := pg_out p @ [Info (who @ '' version: '' @ GetVersion p @ ''\<newline>'')]\<rparr>)"

definition server_versionCmd :: "('f, 'w) program command" where
  "server_versionCmd = Command ''version'' [] NoArgs [] (Some (print_version ''tarian server'')) []"

definition cluster_versionCmd :: "('f, 'w) program command" where
  "cluster_versionCmd = Command ''version'' [] NoArgs [] (Some (print_version ''tarian cluster agent'')) []"

definition node_versionCmd :: "('f, 'w) program command" where
  "node_versionCmd = Command ''version'' [] NoArgs [] (Some (print_version ''tarian node agent'')) []"

definition pod_versionCmd :: "('f, 'w) program command" where
  "pod_versionCmd = Command ''version'' [] NoArgs [] (Some (print_version ''tarian pod agent'')) []"

definition ctl_versionCmd :: "('f, 'w) program command" where
  "ctl_versionCmd = Command ''version'' [] NoArgs [] (Some (print_version ''tarianctl'')) []"

text \<open>The commands of the server and the agents.\<close>

definition newApplySchemaCommand :: "(string list \<Rightarrow> ('f, 'w) step) \<Rightarrow> ('f, 'w) program command" where
  "newApplySchemaCommand run = leaf ''apply-schema'' [] run"

definition server_newRunCommand :: "(string list \<Rightarrow> ('f, 'w) step) \<Rightarrow> ('f, 'w) program command" where
  "server_newRunCommand run = leaf ''run'' [] run"

definition NewDgraphCommand :: "(string list \<Rightarrow> ('f, 'w) step) \<Rightarrow> ('f, 'w) program command" where
  "NewDgraphCommand apply_schema = Command ''dgraph'' [] LegacyArgs [] None [newApplySchemaCommand apply_schema]"

definition server_buildRootCommand ::
  "(string list \<Rightarrow> ('f, 'w) step) \<Rightarrow> (string list \<Rightarrow> ('f, 'w) step) \<Rightarrow> ('f, 'w) program command" where
  "server_buildRootCommand run apply_schema =
     Command ''tarian-server'' [] LegacyArgs [] None [server_versionCmd, server_newRunCommand run, NewDgraphCommand apply_schema]"

definition cluster_buildRootCommand ::
  "(string list \<Rightarrow> ('f, 'w) step) \<Rightarrow> (string list \<Rightarrow> ('f, 'w) step) \<Rightarrow> ('f, 'w) program command" where
  "cluster_buildRootCommand run webhook =
     Command ''tarian-cluster-agent'' [] LegacyArgs [] None [cluster_versionCmd, leaf ''run'' [] run, leaf ''run-webhook-server'' [] webhook]"

definition node_buildRootCommand :: "(string list \<Rightarrow> ('f, 'w) step) \<Rightarrow> ('f, 'w) program command" where
  "node_buildRootCommand run = Command ''tarian-node-agent'' [] LegacyArgs [] None [node_versionCmd, leaf ''run'' [] run]"

definition pod_buildRootCommand ::
  "(string list \<Rightarrow> ('f, 'w) step) \<Rightarrow> (string list \<Rightarrow> ('f, 'w) step) \<Rightarrow> ('f, 'w) program command" where
  "pod_buildRootCommand threat_scan register =
     Command ''tarian-pod-agent'' [] LegacyArgs [] None [pod_versionCmd, leaf ''threat-scan'' [] threat_scan, leaf ''register'' [] register]"

text \<open>The groups of \<^verbatim>\<open>tarianctl\<close> have a \<^verbatim>\<open>RunE\<close> of their own, for when no subcommand was given.\<close>

definition get_RunE :: "string list \<Rightarrow> ('f, 'w) step" where
  "get_RunE args p =
     (if length args = 0
      then (Errorf_w ''get: '' (Some (NewError ''no resource specified, use `tarianctl get --help` for command usage'')), p)
      else (None, p))"

definition add_RunE :: "string list \<Rightarrow> ('f, 'w) step" where
  "add_RunE args p =
     (if length args \<noteq> 1
      then (Errorf_w ''add: '' (Some (NewError (''tarianctl needs exactly one argument, use '' @
        [CHR 0x22] @ ''tarianctl add --help'' @ [CHR 0x22] @ '' for command usage''))), p)
      else (None, p))"

definition remove_RunE :: "string list \<Rightarrow> ('f, 'w) step" where
  "remove_RunE args p =
     (if length args = 0
      then (Errorf_w ''remove: '' (Some (NewError ''no resource specified, use `tarianctl remove --help` for command usage'')), p)
      else (None, p))"

text \<open>What the commands of the client do, by their names.\<close>

record ('f, 'w) ctl_commands =
  cc_get_constraints :: "string list \<Rightarrow> ('f, 'w) step"
  cc_get_actions :: "string list \<Rightarrow> ('f, 'w) step"
  cc_get_events :: "string list \<Rightarrow> ('f, 'w) step"
  cc_add_constraints :: "string list \<Rightarrow> ('f, 'w) step"
  cc_add_actions :: "string list \<Rightarrow> ('f, 'w) step"
  cc_remove_constraints :: "string list \<Rightarrow> ('f, 'w) step"
  cc_remove_actions :: "string list \<Rightarrow> ('f, 'w) step"
  cc_import :: "string list \<Rightarrow> ('f, 'w) step"
  cc_install :: "string list \<Rightarrow> ('f, 'w) step"

definition newGetConstraintsCommand :: "('f, 'w) ctl_commands \<Rightarrow> ('f, 'w) program command" where
  "newGetConstraintsCommand C = leaf ''constraints'' [''constraint'', ''c''] (cc_get_constraints C)"

definition newGetActionsCommand :: "('f, 'w) ctl_commands \<Rightarrow> ('f, 'w) program command" where
  "newGetActionsCommand C = leaf ''actions'' [''action'', ''a''] (cc_get_actions C)"

definition newGetEventsCommand :: "('f, 'w) ctl_commands \<Rightarrow> ('f, 'w) program command" where
  "newGetEventsCommand C = leaf ''events'' [''event'', ''e''] (cc_get_events C)"

definition newAddConstraintCommand :: "('f, 'w) ctl_commands \<Rightarrow> ('f, 'w) program command" where
  "newAddConstraintCommand C = leaf ''constraints'' [''constraint'', ''c''] (cc_add_constraints C)"

definition newAddActionCommand :: "('f, 'w) ctl_commands \<Rightarrow> ('f, 'w) program command" where
  "newAddActionCommand C = Command ''actions'' [''action'', ''a''] LegacyArgs [''action''] (Some (cc_add_actions C)) []"

definition newRemoveConstraintsCommand :: "('f, 'w) ctl_commands \<Rightarrow> ('f, 'w) program command" where
  "newRemoveConstraintsCommand C = leaf ''constraints'' [''constraint'', ''c''] (cc_remove_constraints C)"

definition newRemoveActionsCommand :: "('f, 'w) ctl_commands \<Rightarrow> ('f, 'w) program command" where
  "newRemoveActionsCommand C = leaf ''actions'' [''action'', ''a''] (cc_remove_actions C)"

definition NewImportCommand :: "('f, 'w) ctl_commands \<Rightarrow> ('f, 'w) program command" where
  "NewImportCommand C = leaf ''import'' [] (cc_import C)"

definition ctl_NewInstallCommand :: "('f, 'w) ctl_commands \<Rightarrow> ('f, 'w) program command" where
  "ctl_NewInstallCommand C = leaf ''install'' [] (cc_install C)"

definition NewGetCommand :: "('f, 'w) ctl_commands \<Rightarrow> ('f, 'w) program command" where
  "NewGetCommand C = Command ''get'' [] LegacyArgs [] (Some get_RunE)
     [newGetConstraintsCommand C, newGetActionsCommand C, newGetEventsCommand C]"

definition NewAddCommand :: "('f, 'w) ctl_commands \<Rightarrow> ('f, 'w) program command" where
  "NewAddCommand C = Command ''add'' [''create''] LegacyArgs [] (Some add_RunE) [newAddConstraintCommand C, newAddActionCommand C]"

definition NewRemoveCommand :: "('f, 'w) ctl_commands \<Rightarrow> ('f, 'w) program command" where
  "NewRemoveCommand C = Command ''remove'' [''delete'', ''rm''] (MinimumNArgs 1) [] (Some remove_RunE)
     [newRemoveConstraintsCommand C, newRemoveActionsCommand C]"

definition ctl_buildRootCommand :: "('f, 'w) ctl_commands \<Rightarrow> ('f, 'w) program command" where
  "ctl_buildRootCommand C = Command ''tarianctl'' [''tctl''] LegacyArgs [] None
     [ctl_versionCmd, NewGetCommand C, NewAddCommand C, NewRemoveCommand C, NewImportCommand C, ctl_NewInstallCommand C]"

section \<open>Running a program\<close>

text \<open>
  The library: from the tree, the function that runs before every command, the names of the flags on
  the command line and its other words to the error of the command line. The program that it gets has
  the flags of the command line set.
\<close>

type_synonym ('f, 'w) cobra = "('f, 'w) program command \<Rightarrow> ('f, 'w) step \<Rightarrow> string list \<Rightarrow> string list \<Rightarrow> ('f, 'w) step"

text \<open>\<^verbatim>\<open>Execute\<close> of a \<^verbatim>\<open>root.go\<close>: the exit status of the process and the error that it logged.\<close>

definition exit_status :: "go_error option \<Rightarrow> nat \<times> go_error option" where
  "exit_status err = (case err of Some e \<Rightarrow> (1, Some e) | None \<Rightarrow> (0, None))"

definition server_Execute where
  "server_Execute (X :: (AgentFlags, 'w) cobra) ParseLevel run apply_schema given args p =
     map_prod exit_status id (X (server_buildRootCommand run apply_schema) (server_PreRun ParseLevel) given args p)"

definition cluster_Execute where
  "cluster_Execute (X :: (AgentFlags, 'w) cobra) ParseLevel run webhook given args p =
     map_prod exit_status id (X (cluster_buildRootCommand run webhook) (cluster_PreRun ParseLevel) given args p)"

definition node_Execute where
  "node_Execute (X :: (AgentFlags, 'w) cobra) ParseLevel run given args p =
     map_prod exit_status id (X (node_buildRootCommand run) (node_PreRun ParseLevel) given args p)"

definition pod_Execute where
  "pod_Execute (X :: (AgentFlags, 'w) cobra) ParseLevel threat_scan register given args p =
     map_prod exit_status id (X (pod_buildRootCommand threat_scan register) (pod_PreRun ParseLevel) given args p)"

definition ctl_Execute where
  "ctl_Execute (X :: (GlobalFlags, 'w) cobra) ParseLevel Getenv C given args p =
     map_prod exit_status id (X (ctl_buildRootCommand C) (ctl_PreRun ParseLevel Getenv) given args p)"

text \<open>The version of a build that sets none.\<close>

definition versionStr :: string where "versionStr = ''dev (main)''"

text \<open>The \<^verbatim>\<open>main.go\<close> of the programs, which agree on the version.\<close>

definition server_main where
  "server_main (X :: (AgentFlags, 'w) cobra) ParseLevel run apply_schema given args p =
     server_Execute X ParseLevel run apply_schema given args (SetVersion versionStr p)"

definition cluster_main where
  "cluster_main (X :: (AgentFlags, 'w) cobra) ParseLevel run webhook given args p =
     cluster_Execute X ParseLevel run webhook given args (SetVersion versionStr p)"

definition node_main where
  "node_main (X :: (AgentFlags, 'w) cobra) ParseLevel run given args p =
     node_Execute X ParseLevel run given args (SetVersion versionStr p)"

definition pod_main where
  "pod_main (X :: (AgentFlags, 'w) cobra) ParseLevel threat_scan register given args p =
     pod_Execute X ParseLevel threat_scan register given args (SetVersion versionStr p)"

definition ctl_main where
  "ctl_main (X :: (GlobalFlags, 'w) cobra) ParseLevel Getenv C given args p = ctl_Execute X ParseLevel Getenv C given args (SetVersion versionStr p)"

section \<open>What the library does\<close>

text \<open>
  The words name a command step by step, each step by a name or an alias; what is left are the
  arguments of the command. The words are taken as they come from the command line without its
  flags, so that none is empty or begins with a dash, and the flags are ones that the command has. What the library
  adds of its own is left out: the commands \<^verbatim>\<open>help\<close> and those of shell completion, and the flags
  \<^verbatim>\<open>--help\<close> and \<^verbatim>\<open>--version\<close>.
\<close>

definition plain_line :: "string list \<Rightarrow> string list \<Rightarrow> bool" where
  "plain_line given args \<longleftrightarrow> list_all (\<lambda>a. a \<noteq> [] \<and> hd a \<noteq> CHR ''-'') args \<and>
     (args = [] \<or> hd args \<notin> {''help'', ''completion'', ''__complete'', ''__completeNoDesc''}) \<and>
     ''help'' \<notin> set given \<and> ''version'' \<notin> set given"

definition called :: "string \<Rightarrow> 's command \<Rightarrow> bool" where
  "called a c \<longleftrightarrow> a = cmd_Use c \<or> a \<in> set (cmd_Aliases c)"

fun walk :: "'s command \<Rightarrow> string list \<Rightarrow> 's command \<times> string list" where
  "walk c [] = (c, [])"
| "walk c (a # as) = (case find (called a) (cmd_Subs c) of Some d \<Rightarrow> walk d as | None \<Rightarrow> (c, a # as))"

text \<open>
  Arguments that no check was given for are refused at the root, as the name of an unknown command,
  and accepted by every other command; the other checks are made by commands that can run.
\<close>

fun args_ok :: "bool \<Rightarrow> 's command \<Rightarrow> string list \<Rightarrow> bool" where
  "args_ok root (Command u al LegacyArgs q r subs) as = (\<not> root \<or> subs = [] \<or> as = [])"
| "args_ok root (Command u al NoArgs q r subs) as = (r = None \<or> as = [])"
| "args_ok root (Command u al (MinimumNArgs n) q r subs) as = (r = None \<or> n \<le> length as)"

text \<open>
  With arguments that are refused nothing runs, and a command that cannot run shows its help.
  Otherwise the command that was found runs after the function before every command, unless that fails or a
  required flag is missing.
\<close>

definition cobra_ok :: "('f, 'w) cobra \<Rightarrow> bool" where
  "cobra_ok X \<longleftrightarrow> (\<forall>root pre given args c rest p. plain_line given args \<longrightarrow> walk root args = (c, rest) \<longrightarrow>
     (if args_ok (rest = args) c rest
      then (case cmd_RunE c of
              None \<Rightarrow> X root pre given args p = (None, p)
            | Some run \<Rightarrow> (case pre p of
                (Some err, p') \<Rightarrow> X root pre given args p = (Some err, p')
              | (None, p') \<Rightarrow> if set (cmd_Required c) \<subseteq> set given then X root pre given args p = run rest p'
                  else \<exists>err. X root pre given args p = (Some err, p')))
      else \<exists>err. X root pre given args p = (Some err, p)))"

definition cobra_sample :: "('f, 'w) cobra" where
  "cobra_sample root pre given args p = (case walk root args of (c, rest) \<Rightarrow>
     if \<not> args_ok (rest = args) c rest then (Some (ExtError ''unknown command''), p)
     else (case cmd_RunE c of
        None \<Rightarrow> (None, p)
      | Some run \<Rightarrow> (case pre p of
          (Some err, p') \<Rightarrow> (Some err, p')
        | (None, p') \<Rightarrow> if set (cmd_Required c) \<subseteq> set given then run rest p'
            else (Some (ExtError ''required flag(s) not set''), p'))))"

lemma cobra_sample_ok: "cobra_ok cobra_sample"
  by (auto simp: cobra_ok_def cobra_sample_def split: prod.splits option.splits)

lemma cobra_found:
  assumes "cobra_ok X" "plain_line given args" "walk root args = (c, rest)"
  shows "if args_ok (rest = args) c rest
      then (case cmd_RunE c of
              None \<Rightarrow> X root pre given args p = (None, p)
            | Some run \<Rightarrow> (case pre p of
                (Some err, p') \<Rightarrow> X root pre given args p = (Some err, p')
              | (None, p') \<Rightarrow> if set (cmd_Required c) \<subseteq> set given then X root pre given args p = run rest p'
                  else \<exists>err. X root pre given args p = (Some err, p')))
      else \<exists>err. X root pre given args p = (Some err, p)"
  using assms unfolding cobra_ok_def by blast

lemma cobra_runs:
  assumes "cobra_ok X" "plain_line given args" "walk root args = (c, rest)" "cmd_RunE c = Some run" "args_ok (rest = args) c rest"
    and "set (cmd_Required c) \<subseteq> set given"
  shows "X root pre given args p = (case pre p of (Some err, p') \<Rightarrow> (Some err, p') | (None, p') \<Rightarrow> run rest p')"
  using cobra_found[OF assms(1-3), of pre p] assms(4-6) by (auto split: prod.splits option.splits)

text \<open>The commands of a tree; what each of them keeps, the program keeps.\<close>

inductive in_tree :: "'s command \<Rightarrow> 's command \<Rightarrow> bool" where
  tree_root: "in_tree c c"
| tree_sub: "d \<in> set (cmd_Subs c) \<Longrightarrow> in_tree e d \<Longrightarrow> in_tree e c"

inductive_simps in_tree_Command: "in_tree e (Command u al ch q r subs)"

lemma walk_in_tree: "walk c args = (d, rest) \<Longrightarrow> in_tree d c"
proof (induction c args rule: walk.induct)
  case (2 c a as)
  show ?case
  proof (cases "find (called a) (cmd_Subs c)")
    case (Some e)
    then have "e \<in> set (cmd_Subs c)" by (auto simp: find_Some_iff)
    then show ?thesis using 2 Some by (auto intro: tree_sub)
  qed (use 2 in \<open>auto intro: tree_root\<close>)
qed (auto intro: tree_root)

lemma cobra_found_keeps:
  assumes "cobra_ok X" "plain_line given args" "I p"
    and "\<And>p. I p \<Longrightarrow> I (snd (pre p))"
    and "\<And>c rest run p. walk root args = (c, rest) \<Longrightarrow> cmd_RunE c = Some run \<Longrightarrow> I p \<Longrightarrow> I (snd (run rest p))"
  shows "I (snd (X root pre given args p))"
proof -
  obtain c rest where w: "walk root args = (c, rest)" by (metis surj_pair)
  have pre: "I p'" if "pre p = (r, p')" for r p' using assms(3,4) that by (metis snd_conv)
  show ?thesis
    using cobra_found[OF assms(1,2) w, of pre p] assms(3) assms(5)[OF w] pre
    by (auto split: if_splits option.splits prod.splits)
qed

lemma cobra_keeps:
  assumes "cobra_ok X" "plain_line given args" "I p"
    and "\<And>p. I p \<Longrightarrow> I (snd (pre p))"
    and "\<And>c run as p. in_tree c root \<Longrightarrow> cmd_RunE c = Some run \<Longrightarrow> I p \<Longrightarrow> I (snd (run as p))"
  shows "I (snd (X root pre given args p))"
  by (rule cobra_found_keeps[of X given args I, OF assms(1-3)]) (auto intro: assms(4) assms(5)[OF walk_in_tree])

section \<open>The flags\<close>

lemma validate_agrees:
  "server_ValidateGlobalFlags = ValidateAgentFlags" "cluster_ValidateGlobalFlags = ValidateAgentFlags"
  "node_ValidateGlobalFlags = ValidateAgentFlags"
  by (rule ext, simp add: server_ValidateGlobalFlags_def cluster_ValidateGlobalFlags_def node_ValidateGlobalFlags_def
      ValidateAgentFlags_def)+

text \<open>All programs set up the logger alike, though the pod agent's is modelled on its own.\<close>

lemma pre_run_agrees:
  "server_PreRun ParseLevel p = cluster_PreRun ParseLevel p" "node_PreRun ParseLevel p = cluster_PreRun ParseLevel p"
  "pod_PreRun ParseLevel p = cluster_PreRun ParseLevel p"
  by (cases "pg_logger p"; auto simp: server_PreRun_def cluster_PreRun_def node_PreRun_def pod_PreRun_def root_PreRun_def
      validate_agrees set_up_logger_def Let_def split: option.splits)+

text \<open>
  The programs take the same log flags, and their commands run with them or not at all. The server, the
  agents and the client accept the same levels and formatters (the client has one check more), any
  other value ends the program with status 1 before the command runs, and a level that was accepted
  is set exactly if the library can parse the accepted ones.
\<close>

theorem log_flags_uniform:
  assumes "\<forall>l\<in>set [''debug'', ''info'', ''warn'', ''warning'', ''error'', ''fatal'']. \<exists>n. ParseLevel l = Inr n"
    and "pg_flags q = \<lparr>gf_LogLevel = l, gf_LogFormatter = fm, gf_ServerAddr = a, gf_ServerTLSEnabled = False,
           gf_ServerTLSCAFile = ca, gf_ServerTLSInsecureSkipVerify = i\<rparr>"
    and "pg_flags p = \<lparr>af_LogLevel = l, af_LogFormatter = fm\<rparr>"
  shows "\<exists>r. fst (server_PreRun ParseLevel p) = r \<and> fst (cluster_PreRun ParseLevel p) = r \<and> fst (node_PreRun ParseLevel p) = r \<and>
      fst (pod_PreRun ParseLevel p) = r \<and> fst (ctl_PreRun ParseLevel Getenv q) = r \<and>
      (r = None \<longrightarrow> ParseLevel l = Inr (lg_Level (pg_logger (snd (server_PreRun ParseLevel p)))))"
proof -
  have ctl: "ValidateGlobalFlags (pg_flags q) = ValidateAgentFlags (pg_flags p)"
    by (simp add: assms(2,3) ValidateGlobalFlags_def ValidateAgentFlags_def)
  have "ParseLevel l = Inr (case ParseLevel l of Inl _ \<Rightarrow> 0 | Inr n \<Rightarrow> n)" if "ValidateAgentFlags (pg_flags p) = None"
  proof -
    have "l \<in> set [''debug'', ''info'', ''warn'', ''warning'', ''error'', ''fatal'']"
      using that by (auto simp: assms(3) ValidateAgentFlags_def split: if_splits)
    then show ?thesis using assms(1) by fastforce
  qed
  then show ?thesis
    by (auto simp: pre_run_agrees cluster_PreRun_def ctl_PreRun_def validate_agrees ctl set_up_logger_def Let_def assms(3)
        split: option.splits)
qed

theorem log_flags_uniform_witness:
  "fst (ctl_PreRun (\<lambda>l. Inr (length l)) (\<lambda>_. []) \<lparr>pg_flags = SetGlobalFlags\<lparr>gf_LogLevel := ''trace''\<rparr>,
     pg_logger = \<lparr>lg_Level = 4, lg_Formatter = default_format\<rparr>, pg_version = [], pg_out = [], pg_world = ()\<rparr>) =
   Some (NewError ''invalid log level: trace'')"
proof -
  let ?q = "\<lparr>pg_flags = SetGlobalFlags\<lparr>gf_LogLevel := ''trace''\<rparr>, pg_logger = \<lparr>lg_Level = 4, lg_Formatter = default_format\<rparr>,
    pg_version = [], pg_out = [], pg_world = ()\<rparr>"
  let ?p = "\<lparr>pg_flags = \<lparr>af_LogLevel = ''trace'', af_LogFormatter = ''text''\<rparr>, pg_logger = \<lparr>lg_Level = 4, lg_Formatter = default_format\<rparr>,
    pg_version = [], pg_out = [], pg_world = ()\<rparr>"
  have "fst (ctl_PreRun (\<lambda>l. Inr (length l)) (\<lambda>_. []) ?q) = fst (server_PreRun (\<lambda>l. Inr (length l)) ?p)"
    using log_flags_uniform[of "\<lambda>l. Inr (length l)" ?q "''trace''" "''text''" defaultServerAddress "[]" True ?p "\<lambda>_. []"]
    by (auto simp: SetGlobalFlags_def)
  then show ?thesis by (simp add: server_PreRun_def server_ValidateGlobalFlags_def)
qed

section \<open>The client\<close>

text \<open>The commands of the client, by the words that select them.\<close>

definition ctl_resource :: "('f, 'w) ctl_commands \<Rightarrow> string \<Rightarrow> string \<Rightarrow> (string list \<Rightarrow> ('f, 'w) step) option" where
  "ctl_resource C g r =
     (if g = ''get'' then
        (if r \<in> {''constraints'', ''constraint'', ''c''} then Some (cc_get_constraints C)
         else if r \<in> {''actions'', ''action'', ''a''} then Some (cc_get_actions C)
         else if r \<in> {''events'', ''event'', ''e''} then Some (cc_get_events C) else None)
      else if g \<in> {''add'', ''create''} then
        (if r \<in> {''constraints'', ''constraint'', ''c''} then Some (cc_add_constraints C)
         else if r \<in> {''actions'', ''action'', ''a''} then Some (cc_add_actions C) else None)
      else
        (if r \<in> {''constraints'', ''constraint'', ''c''} then Some (cc_remove_constraints C)
         else if r \<in> {''actions'', ''action'', ''a''} then Some (cc_remove_actions C) else None))"

text \<open>The flags a command cannot do without.\<close>

definition ctl_required :: "string \<Rightarrow> string \<Rightarrow> string list" where
  "ctl_required g r = (if g \<in> {''add'', ''create''} \<and> r \<in> {''actions'', ''action'', ''a''} then [''action''] else [])"

lemmas ctl_leaves = newGetConstraintsCommand_def newGetActionsCommand_def newGetEventsCommand_def newAddConstraintCommand_def
  newAddActionCommand_def newRemoveConstraintsCommand_def newRemoveActionsCommand_def NewImportCommand_def ctl_NewInstallCommand_def
lemmas ctl_tree = ctl_buildRootCommand_def NewGetCommand_def NewAddCommand_def NewRemoveCommand_def ctl_versionCmd_def leaf_def
  called_def ctl_leaves

text \<open>Whatever the client runs is one of its commands.\<close>

definition ctl_command_set :: "('f, 'w) ctl_commands \<Rightarrow> (string list \<Rightarrow> ('f, 'w) step) set" where
  "ctl_command_set C = {cc_get_constraints C, cc_get_actions C, cc_get_events C, cc_add_constraints C, cc_add_actions C,
     cc_remove_constraints C, cc_remove_actions C, cc_import C, cc_install C}"

lemma ctl_tree_runs:
  assumes "in_tree c (ctl_buildRootCommand C)" "cmd_RunE c = Some run"
  shows "run \<in> {print_version ''tarianctl'', get_RunE, add_RunE, remove_RunE} \<or> run \<in> ctl_command_set C"
  using assms by (auto simp: ctl_tree in_tree_Command ctl_command_set_def)

definition ctl_groups :: "string list" where
  "ctl_groups = [''get'', ''add'', ''create'', ''remove'', ''delete'', ''rm'']"

definition ctl_group :: "('f, 'w) ctl_commands \<Rightarrow> string \<Rightarrow> ('f, 'w) program command" where
  "ctl_group C g = (if g = ''get'' then NewGetCommand C else if g \<in> {''add'', ''create''} then NewAddCommand C else NewRemoveCommand C)"

lemma walk_leaf: "walk (Command u al ch q run []) as = (Command u al ch q run [], as)"
  by (cases as) simp_all

lemma walk_group: "g \<in> set ctl_groups \<Longrightarrow> walk (ctl_buildRootCommand C) (g # as) = walk (ctl_group C g) as"
  by (auto simp: ctl_tree ctl_group_def ctl_groups_def)

lemma walk_resource:
  assumes "ctl_resource C g r = Some run"
  obtains u al where "walk (ctl_group C g) (r # as) = (Command u al LegacyArgs (ctl_required g r) (Some run) [], as)"
  using assms by (auto simp: ctl_tree ctl_group_def ctl_resource_def ctl_required_def walk_leaf split: if_splits)

lemma walk_no_resource: "ctl_resource C g r = None \<Longrightarrow> walk (ctl_group C g) (r # as) = (ctl_group C g, r # as)"
  by (auto simp: ctl_tree ctl_group_def ctl_resource_def split: if_splits)

lemma ctl_runs:
  assumes "cobra_ok X" "plain_line given (g # r # as)" "g \<in> set ctl_groups" "set (ctl_required g r) \<subseteq> set given"
    and "ctl_resource C g r = Some run"
  shows "ctl_main X ParseLevel Getenv C given (g # r # as) p =
    (case ctl_PreRun ParseLevel Getenv (SetVersion versionStr p) of
       (Some err, p') \<Rightarrow> ((1, Some err), p')
     | (None, p') \<Rightarrow> map_prod exit_status id (run as p'))"
proof -
  obtain u al where w: "walk (ctl_group C g) (r # as) = (Command u al LegacyArgs (ctl_required g r) (Some run) [], as)"
    using walk_resource[OF assms(5)] by blast
  have "X (ctl_buildRootCommand C) pre given (g # r # as) q =
      (case pre q of (Some err, q') \<Rightarrow> (Some err, q') | (None, q') \<Rightarrow> run as q')" for pre q
    by (rule cobra_runs[OF assms(1,2) walk_group[OF assms(3), of C "r # as", unfolded w]]) (simp_all add: assms(4))
  then show ?thesis by (simp add: ctl_main_def ctl_Execute_def exit_status_def split: prod.splits option.splits)
qed


text \<open>A client whose commands do nothing but add to a counter.\<close>

definition sample_commands :: "(GlobalFlags, nat) ctl_commands" where
  "sample_commands = (let run = (\<lambda>_ p. (None, p\<lparr>pg_world := Suc (pg_world p)\<rparr>)) in
     \<lparr>cc_get_constraints = run, cc_get_actions = run, cc_get_events = run, cc_add_constraints = run, cc_add_actions = run,
      cc_remove_constraints = run, cc_remove_actions = run, cc_import = run, cc_install = run\<rparr>)"

definition sample_program :: "(GlobalFlags, nat) program" where
  "sample_program = \<lparr>pg_flags = SetGlobalFlags, pg_logger = \<lparr>lg_Level = 4, lg_Formatter = default_format\<rparr>, pg_version = [], pg_out = [], pg_world = 0\<rparr>"


text \<open>
  C40: the client checks its flags before it reads the environment. TLS that only the environment
  enables is not checked: the command runs, and without \<^verbatim>\<open>TARIAN_TLS_CA_FILE\<close> it runs without a CA file; and TLS that a flag
  enables is refused with status 1 when only the environment names the CA file.
\<close>

theorem tls_check_before_environment:
  assumes "cobra_ok X" "plain_line given (g # r # as)" "g \<in> set ctl_groups" "set (ctl_required g r) \<subseteq> set given"
    and "ctl_resource C g r = Some run"
    and "gf_LogLevel (pg_flags p) = ''info''" "gf_LogFormatter (pg_flags p) = ''text''" "gf_ServerTLSCAFile (pg_flags p) = []"
    and "Getenv ''TARIAN_TLS_ENABLED'' = ''true''"
  shows "if gf_ServerTLSEnabled (pg_flags p)
    then fst (ctl_main X ParseLevel Getenv C given (g # r # as) p) = (1, Some (NewError ''server TLS enabled but CA file is not provided''))
    else \<exists>q. ctl_main X ParseLevel Getenv C given (g # r # as) p = map_prod exit_status id (run as q) \<and>
      gf_ServerTLSEnabled (pg_flags q) \<and> gf_ServerTLSCAFile (pg_flags q) = Getenv ''TARIAN_TLS_CA_FILE'' \<and> pg_world q = pg_world p"
proof -
  note run = ctl_runs[OF assms(1-5), of ParseLevel Getenv p]
  have flags: "pg_flags (SetVersion versionStr p) = pg_flags p" by (simp add: SetVersion_def)
  show ?thesis
  proof (cases "gf_ServerTLSEnabled (pg_flags p)")
    case True
    then show ?thesis using run assms(6-8) by (simp add: ctl_PreRun_def flags ValidateGlobalFlags_def)
  next
    case False
    obtain q where q: "ctl_PreRun ParseLevel Getenv (SetVersion versionStr p) = (None, q)"
      and flags_q: "pg_flags q = GetFlagValuesFromEnvVar Getenv (pg_flags p)" and world_q: "pg_world q = pg_world p"
      using False assms(6-8) by (simp add: ctl_PreRun_def flags ValidateGlobalFlags_def SetVersion_def)
    have "ctl_main X ParseLevel Getenv C given (g # r # as) p = map_prod exit_status id (run as q)" unfolding run q by simp
    moreover have "gf_ServerTLSEnabled (pg_flags q)" "gf_ServerTLSCAFile (pg_flags q) = Getenv ''TARIAN_TLS_CA_FILE''"
      using assms(8,9) by (simp_all add: flags_q GetFlagValuesFromEnvVar_def Let_def)
    ultimately show ?thesis using False world_q by auto
  qed
qed

theorem tls_check_before_environment_witness:
  "\<exists>q. ctl_main cobra_sample (\<lambda>_. Inr 4) (\<lambda>v. if v = ''TARIAN_TLS_ENABLED'' then ''true'' else []) sample_commands []
      [''get'', ''events''] sample_program = map_prod exit_status id (cc_get_events sample_commands [] q) \<and>
     gf_ServerTLSEnabled (pg_flags q) \<and> gf_ServerTLSCAFile (pg_flags q) = []"
proof -
  have "ctl_resource sample_commands ''get'' ''events'' = Some (cc_get_events sample_commands)" by (simp add: ctl_resource_def)
  from tls_check_before_environment[OF cobra_sample_ok _ _ _ this, of "[]" "[]" sample_program
      "\<lambda>v. if v = ''TARIAN_TLS_ENABLED'' then ''true'' else []" "\<lambda>_. Inr 4"]
  show ?thesis by (auto simp: sample_program_def SetGlobalFlags_def plain_line_def ctl_groups_def ctl_required_def)
qed

end
