(* ===== verification/ClientProgram.thy ===== *)
theory ClientProgram
  imports Commands ControlPlane TarianctlGet Install
begin

text \<open>
  The command line client as one program: the flags of its commands with their defaults
  (\<^verbatim>\<open>cmd/tarianctl/cmd\<close>), the tree of \<open>Commands\<close> with the commands of \<open>Tarianctl\<close>, \<open>TarianctlAdd\<close>,
  \<open>TarianctlGet\<close> and \<open>Install\<close> in it, and sessions of command lines on the server's own handlers.
\<close>

section \<open>The flags of the commands\<close>

record getConstraintsCommand =
  gco_output :: string

record getActionsCommand =
  gac_namespace :: string
  gac_output :: string

record getEventsCommand =
  gev_limit :: "64 word"

record removeConstraintsCmd =
  rcc_namespace :: string

record removeActionsCmd =
  rac_namespace :: string

definition getConstraints_flags :: getConstraintsCommand where
  "getConstraints_flags = \<lparr>gco_output = []\<rparr>"

definition getActions_flags :: getActionsCommand where
  "getActions_flags = \<lparr>gac_namespace = [], gac_output = []\<rparr>"

definition getEvents_flags :: getEventsCommand where
  "getEvents_flags = \<lparr>gev_limit = 200\<rparr>"

definition addConstraint_flags :: constraintsCommand where
  "addConstraint_flags = \<lparr>cmd_name = [], cmd_namespace = ''default'', cmd_matchLabels = Some [], cmd_allowedProcesses = Some [],
     cmd_allowedFileSha256Sums = Some [], cmd_fromViolatedPod = [], cmd_dryRun = False\<rparr>"

definition addAction_flags :: actionCommand where
  "addAction_flags = \<lparr>act_name = [], act_namespace = ''default'', act_matchLabels = Some [], act_action = [], act_dryRun = False,
     act_onViolatedProcess = True, act_onViolatedFile = True, act_onFalcoAlert = []\<rparr>"

definition removeConstraints_flags :: removeConstraintsCmd where
  "removeConstraints_flags = \<lparr>rcc_namespace = ''default''\<rparr>"

definition removeActions_flags :: removeActionsCmd where
  "removeActions_flags = \<lparr>rac_namespace = ''default''\<rparr>"

text \<open>The flags of all commands, as the flag library has them after it read a command line.\<close>

record client_flags =
  cf_get_constraints :: getConstraintsCommand
  cf_get_actions :: getActionsCommand
  cf_get_events :: getEventsCommand
  cf_add_constraints :: constraintsCommand
  cf_add_actions :: actionCommand
  cf_remove_constraints :: removeConstraintsCmd
  cf_remove_actions :: removeActionsCmd
  cf_install :: installCmd

definition client_defaults :: client_flags where
  "client_defaults = \<lparr>cf_get_constraints = getConstraints_flags, cf_get_actions = getActions_flags, cf_get_events = getEvents_flags,
     cf_add_constraints = addConstraint_flags, cf_add_actions = addAction_flags, cf_remove_constraints = removeConstraints_flags,
     cf_remove_actions = removeActions_flags, cf_install = NewInstallCommand\<rparr>"

section \<open>The commands in their program\<close>

text \<open>
  What the client finds around it: the libraries for YAML and times, the clock, the files, the connection, and for
  an installation the cluster with a schedule of its goroutines. The world is the server's database
  and the cluster.
\<close>

record ('s, 'k, 'cert) client_env =
  ce_YamlConstraint :: "Constraint \<Rightarrow> go_error + string"
  ce_YamlAction :: "Action \<Rightarrow> go_error + string"
  ce_RFC3339 :: "Timestamp \<Rightarrow> string"
  ce_Now :: int
  ce_Open :: "string \<Rightarrow> go_error + yaml_stream"
  ce_dialer :: "('s, 'cert) dialer"
  ce_install :: "'k install_env"
  ce_schedule :: "bool list"

definition on_server ::
  "(GlobalFlags \<Rightarrow> string list \<Rightarrow> 's \<Rightarrow> 's command_result) \<Rightarrow> string list \<Rightarrow> (GlobalFlags, 's \<times> 'k) step" where
  "on_server run args p = (case run (pg_flags p) args (fst (pg_world p)) of
     ((out, err), s) \<Rightarrow> (err, p\<lparr>pg_out := pg_out p @ out, pg_world := (s, snd (pg_world p))\<rparr>))"

definition alpha_warning :: log_entry where
  "alpha_warning = Info ([CHR 0x1B] @ ''[33m'' @
     ''WARNING: This command is in alpha version and may have some bugs and breaking changes in future releases.'' @
     [CHR 0x1B] @ ''[0m\<newline>'')"

definition on_cluster :: "('k, go_error option) io \<Rightarrow> string list \<Rightarrow> (GlobalFlags, 's \<times> 'k) step" where
  "on_cluster run args p = (case run (snd (pg_world p)) of
     (err, k) \<Rightarrow> (err, p\<lparr>pg_out := pg_out p @ [alpha_warning], pg_world := (fst (pg_world p), k)\<rparr>))"

definition tarianctl_commands :: "('s, 'k, 'cert) client_env \<Rightarrow> client_flags \<Rightarrow> (GlobalFlags, 's \<times> 'k) ctl_commands" where
  "tarianctl_commands E F = (let d = ce_dialer E in
     \<lparr>cc_get_constraints = on_server (\<lambda>f _. get_constraints_run (ce_YamlConstraint E) d f None (gco_output (cf_get_constraints F))),
      cc_get_actions = on_server (\<lambda>f _. get_actions_run (ce_YamlAction E) d f None
        (gac_namespace (cf_get_actions F)) (gac_output (cf_get_actions F))),
      cc_get_events = on_server (\<lambda>f _. get_events_run (ce_RFC3339 E) d f None (gev_limit (cf_get_events F))),
      cc_add_constraints = on_server (\<lambda>f _. add_constraint_run (ce_YamlConstraint E) d f None (ce_Now E) (cf_add_constraints F)),
      cc_add_actions = on_server (\<lambda>f _. add_action_run (ce_YamlAction E) d f None (cf_add_actions F)),
      cc_remove_constraints = on_server (\<lambda>f. remove_constraints_run d f None (rcc_namespace (cf_remove_constraints F))),
      cc_remove_actions = on_server (\<lambda>f. remove_actions_run d f None (rac_namespace (cf_remove_actions F))),
      cc_import = on_server (\<lambda>f. import_run (ce_Open E) d f None),
      cc_install = on_cluster (install_run (ce_schedule E) (ce_install E) (cf_install F))\<rparr>)"

text \<open>One run of the client, from its command line and its flags, and a session of such runs on the same world.\<close>

record invocation =
  iv_global :: GlobalFlags
  iv_flags :: client_flags
  iv_given :: "string list"
  iv_words :: "string list"

definition started :: "invocation \<Rightarrow> 'w \<Rightarrow> (GlobalFlags, 'w) program" where
  "started iv w = \<lparr>pg_flags = iv_global iv, pg_logger = \<lparr>lg_Level = InfoLevel, lg_Formatter = default_format\<rparr>,
     pg_version = [], pg_out = [], pg_world = w\<rparr>"

definition tarianctl ::
  "(GlobalFlags, 's \<times> 'k) cobra \<Rightarrow> (string \<Rightarrow> go_error + nat) \<Rightarrow> (string \<Rightarrow> string) \<Rightarrow> ('s, 'k, 'cert) client_env \<Rightarrow>
   invocation \<Rightarrow> 's \<times> 'k \<Rightarrow> (nat \<times> go_error option) \<times> (GlobalFlags, 's \<times> 'k) program" where
  "tarianctl X ParseLevel Getenv E iv w =
     ctl_main X ParseLevel Getenv (tarianctl_commands E (iv_flags iv)) (iv_given iv) (iv_words iv) (started iv w)"

fun session ::
  "(GlobalFlags, 's \<times> 'k) cobra \<Rightarrow> (string \<Rightarrow> go_error + nat) \<Rightarrow> (string \<Rightarrow> string) \<Rightarrow> ('s, 'k, 'cert) client_env \<Rightarrow>
   invocation list \<Rightarrow> 's \<times> 'k \<Rightarrow> 's \<times> 'k" where
  "session X ParseLevel Getenv E [] w = w"
| "session X ParseLevel Getenv E (iv # ivs) w =
     session X ParseLevel Getenv E ivs (pg_world (snd (tarianctl X ParseLevel Getenv E iv w)))"

text \<open>A connection that fails, or is one to the given server.\<close>

definition dial_to ::
  "(bool \<Rightarrow> bool \<Rightarrow> string \<Rightarrow> go_error + 'cert dial_option list) \<Rightarrow> (string \<Rightarrow> 'cert dial_option list \<Rightarrow> go_error option) \<Rightarrow>
   's ctl_client \<Rightarrow> ('s, 'cert) dialer" where
  "dial_to options dial C = Dialer options (\<lambda>addr opts. case dial addr opts of Some err \<Rightarrow> Inl err | None \<Rightarrow> Inr C)"

lemma connect_dial_to: "connect who (dial_to options dial C) f None = Inr C' \<Longrightarrow> C' = C"
  by (auto simp: connect_def dial_to_def split: sum.splits option.splits)

lemma on_server_keeps:
  assumes "\<And>f args s. I s \<Longrightarrow> I (snd (run f args s))" "I (fst (pg_world p))"
  shows "I (fst (pg_world (snd (on_server run args p))))"
  using assms(1)[OF assms(2), of "pg_flags p" args] by (auto simp: on_server_def split: prod.splits)

section \<open>What the commands keep\<close>

text \<open>
  A property of the server's state that the remote calls which read keep is kept by the commands that
  read, and one that every remote call keeps is kept by all of them.
\<close>

locale server_reads =
  fixes C :: "'s ctl_client" and I :: "'s \<Rightarrow> bool"
  assumes get_constraints_keeps: "cl_GetConstraints C r1 s = (x1, s') \<Longrightarrow> I s \<Longrightarrow> I s'"
    and get_actions_keeps: "cl_GetActions C r4 s = (x4, s') \<Longrightarrow> I s \<Longrightarrow> I s'"
    and get_events_keeps: "cl_GetEvents C r7 s = (x7, s') \<Longrightarrow> I s \<Longrightarrow> I s'"
begin

lemma build_keeps: "I w \<Longrightarrow> I (snd (buildConstraintFromViolatedPod C now cmd podName w))"
  by (auto simp: buildConstraintFromViolatedPod_def Let_def dest: get_events_keeps get_constraints_keeps
      split: prod.splits sum.splits option.splits)

lemma get_runs_keep:
  assumes "I w"
  shows "I (snd (get_constraints_run YC (dial_to options dial C) f None fmt w))"
    and "I (snd (get_actions_run YA (dial_to options dial C) f None ns fmt w))"
    and "I (snd (get_events_run RFC (dial_to options dial C) f None limit w))"
  using assms
  by (auto simp: get_constraints_run_def get_actions_run_def get_events_run_def
      dest: get_constraints_keeps get_actions_keeps get_events_keeps dest!: connect_dial_to
      split: prod.splits sum.splits option.splits)

text \<open>The command that adds a constraint, if sending it keeps the property.\<close>

lemma add_run_keeps:
  assumes "I w" "\<And>c w. I w \<Longrightarrow> I (snd (submit_constraint YC C cmd c w))"
  shows "I (snd (add_constraint_run YC (dial_to options dial C) f None now cmd w))"
proof (cases "connect ''add constraints'' (dial_to options dial C) f None")
  case (Inr C')
  then have "C' = C" by (rule connect_dial_to)
  then show ?thesis
    using assms build_keeps[OF assms(1), of now cmd "cmd_fromViolatedPod cmd"]
    by (auto simp: add_constraint_run_def Inr fail_def split: prod.splits sum.splits)
qed (simp add: add_constraint_run_def assms)

lemma dry_runs_keep:
  assumes "I w"
  shows "cmd_dryRun cmd \<Longrightarrow> I (snd (add_constraint_run YC (dial_to options dial C) f None now cmd w))"
    and "act_dryRun acmd \<Longrightarrow> I (snd (add_action_run YA (dial_to options dial C) f None acmd w))"
proof -
  show "I (snd (add_constraint_run YC (dial_to options dial C) f None now cmd w))" if "cmd_dryRun cmd"
    using that by (intro add_run_keeps[OF assms]) (simp add: submit_constraint_def split: sum.splits)
qed (use assms in \<open>auto simp: add_action_run_def split: sum.splits\<close>)

end

locale server_calls = server_reads +
  assumes add_constraint_keeps: "cl_AddConstraint C r2 s = (x2, s') \<Longrightarrow> I s \<Longrightarrow> I s'"
    and remove_constraint_keeps: "cl_RemoveConstraint C r3 s = (x3, s') \<Longrightarrow> I s \<Longrightarrow> I s'"
    and add_action_keeps: "cl_AddAction C r5 s = (x5, s') \<Longrightarrow> I s \<Longrightarrow> I s'"
    and remove_action_keeps: "cl_RemoveAction C r6 s = (x6, s') \<Longrightarrow> I s \<Longrightarrow> I s'"
begin

lemma remove_constraints_loop_keeps: "I w \<Longrightarrow> I (snd (remove_constraints_loop C ns names deleted out w))"
  by (induction names arbitrary: deleted out w)
    (auto split: prod.splits sum.splits dest: remove_constraint_keeps)

lemma remove_actions_loop_keeps: "I w \<Longrightarrow> I (snd (remove_actions_loop C ns names deleted out w))"
  by (induction names arbitrary: deleted out w)
    (auto split: prod.splits sum.splits dest: remove_action_keeps)

lemma import_loop_keeps: "I w \<Longrightarrow> I (snd (import_loop C ds n w))"
proof (induction ds arbitrary: n w)
  case (Cons d ds)
  then show ?case by (cases d) (auto split: prod.splits sum.splits dest: add_constraint_keeps)
qed simp

lemma import_files_keeps: "I w \<Longrightarrow> I (snd (import_files C fs out w))"
proof (induction fs arbitrary: out w)
  case (Cons f fs)
  have "I (snd (importFile C f w))"
    using import_loop_keeps[OF Cons.prems, of f 0] by (auto simp: importFile_def split: prod.splits option.splits)
  then show ?case using Cons.IH by (auto split: prod.splits option.splits)
qed simp

lemma submit_keeps: "I w \<Longrightarrow> I (snd (submit_constraint Yaml C cmd c w))"
  by (auto simp: submit_constraint_def fail_def dest: add_constraint_keeps split: prod.splits sum.splits)

lemma add_runs_keep:
  assumes "I w"
  shows "I (snd (add_constraint_run YC (dial_to options dial C) f None now cmd w))"
    and "I (snd (add_action_run YA (dial_to options dial C) f None acmd w))"
proof -
  show "I (snd (add_constraint_run YC (dial_to options dial C) f None now cmd w))"
    by (rule add_run_keeps[OF assms submit_keeps])
qed (use assms in \<open>auto simp: add_action_run_def fail_def dest: add_action_keeps dest!: connect_dial_to
      split: prod.splits sum.splits\<close>)

lemma remove_runs_keep:
  assumes "I w"
  shows "I (snd (remove_constraints_run (dial_to options dial C) f None ns args w))"
    and "I (snd (remove_actions_run (dial_to options dial C) f None ns args w))"
    and "I (snd (import_run Open (dial_to options dial C) f None args w))"
  using assms remove_constraints_loop_keeps[OF assms, of ns args "[]" "[]"] remove_actions_loop_keeps[OF assms, of ns args "[]" "[]"]
    import_files_keeps[OF assms]
  by (auto simp: remove_constraints_run_def remove_actions_run_def import_run_def dest!: connect_dial_to
      split: prod.splits sum.splits option.splits)

text \<open>Every command line, whatever its words and flags are.\<close>

lemma tarianctl_keeps:
  assumes "cobra_ok X" "plain_line (iv_given iv) (iv_words iv)" "ce_dialer E = dial_to options dial C" "I (fst w)"
  shows "I (fst (pg_world (snd (tarianctl X ParseLevel Getenv E iv w))))"
proof -
  let ?C = "tarianctl_commands E (iv_flags iv)"
  have runs: "I (fst (pg_world (snd (run as p))))"
    if "in_tree c (ctl_buildRootCommand ?C)" "cmd_RunE c = Some run" "I (fst (pg_world p))" for c run as and p :: "(GlobalFlags, 'a \<times> 'b) program"
    using ctl_tree_runs[OF that(1,2)]
  proof
    assume "run \<in> {print_version ''tarianctl'', get_RunE, add_RunE, remove_RunE}"
    then show ?thesis using that(3) by (auto simp: print_version_def get_RunE_def add_RunE_def remove_RunE_def)
  next
    assume "run \<in> ctl_command_set ?C"
    then show ?thesis
      by (auto simp: ctl_command_set_def tarianctl_commands_def Let_def assms(3) on_cluster_def that(3)
          intro!: on_server_keeps[of I, OF _ that(3)] get_runs_keep add_runs_keep remove_runs_keep split: prod.splits)
  qed
  have "I (fst (pg_world (snd (X (ctl_buildRootCommand ?C) (ctl_PreRun ParseLevel Getenv) (iv_given iv) (iv_words iv) p))))"
    if "I (fst (pg_world p))" for p
    by (rule cobra_keeps[where I = "\<lambda>p. I (fst (pg_world p))", OF assms(1,2) that])
      (auto simp: ctl_PreRun_def split: option.splits intro: runs)
  then show ?thesis using assms(4) by (simp add: tarianctl_def ctl_main_def ctl_Execute_def started_def SetVersion_def)
qed

lemma session_keeps:
  assumes "cobra_ok X" "list_all (\<lambda>iv. plain_line (iv_given iv) (iv_words iv)) ivs" "ce_dialer E = dial_to options dial C" "I (fst w)"
  shows "I (fst (session X ParseLevel Getenv E ivs w))"
  using assms(2,4) by (induction ivs arbitrary: w) (simp_all add: tarianctl_keeps[OF assms(1) _ assms(3)])

end

section \<open>The commands on the server\<close>

lemma call_state: "call handler req s = (x, s') \<Longrightarrow> \<exists>r. handler req s = (r, s')"
  by (auto simp: call_def split: prod.splits)

context dgraph_db
begin

lemma server_get_constraints: "cl_GetConstraints (server_ctl S D T now) req s = (x, s') \<Longrightarrow> graph s' = graph s"
  by (auto simp: server_ctl_def dest!: call_state GetConstraints_state dest: constraint_read_keeps)

lemma server_get_actions: "cl_GetActions (server_ctl S D T now) req s = (x, s') \<Longrightarrow> graph s' = graph s"
  by (auto simp: server_ctl_def dest!: call_state GetActions_state dest: action_read_keeps)

lemma server_get_events: "cl_GetEvents (server_ctl S D T now) req s = (x, s') \<Longrightarrow> graph s' = graph s"
  by (auto simp: server_ctl_def GetEvents_def dgraphEventStore_def event_GetAll_def event_FindByNamespace_def query_list_def Let_def
      dest!: call_state query_keepsD split: prod.splits sum.splits option.splits if_splits)

lemma server_is_server_reads: "server_reads (server_ctl S D T now) (\<lambda>s. P (graph s))"
  by unfold_locales (auto dest: server_get_constraints server_get_actions server_get_events)

lemma server_is_server_calls: "server_calls (server_ctl S D T now) (\<lambda>s. no_duplicates (graph s))"
proof (intro server_calls.intro server_calls_axioms.intro server_is_server_reads)
qed (auto simp: server_ctl_def dest!: call_state
    intro: AddConstraint_no_duplicates RemoveConstraint_no_duplicates AddAction_no_duplicates RemoveAction_no_duplicates)

end

sublocale dgraph_db \<subseteq> ctl_reads: server_reads "server_ctl S D T now" "\<lambda>s. graph s = g" for S T now g
  by (rule server_is_server_reads)

sublocale dgraph_db \<subseteq> ctl_calls: server_calls "server_ctl S D T now" "\<lambda>s. no_duplicates (graph s)" for S T now
  by (rule server_is_server_calls)

text \<open>The database in memory behind the server is an instance.\<close>

interpretation mem_reads: server_reads "server_ctl S mem_dgraph T now" "\<lambda>s. clean s = g" for S T now g
  by (rule mem.server_is_server_reads)

interpretation mem_calls: server_calls "server_ctl S mem_dgraph T now" "\<lambda>s. no_duplicates (clean s)" for S T now
  by (rule mem.server_is_server_calls)

section \<open>Edits\<close>

context config_client
begin

lemma add_run_ok:
  assumes "add_constraint_run YC d f gc clock cmd w = ((out, None), w')" "\<And>C'. connect ''add constraints'' d f gc = Inr C' \<Longrightarrow> C' = C"
    and "cmd_name cmd \<noteq> []" "\<not> cmd_dryRun cmd" "inv w"
  shows "inv w' \<and> held w' = add_mset (stored (constraint_from_flags cmd)) (held w)"
proof -
  have "submit_constraint YC C cmd (constraint_from_flags cmd) w = ((out, None), w')"
    using assms(1-3) by (auto simp: add_constraint_run_def fail_def Errorf_w_def split: if_splits sum.splits)
  then obtain resp where "cl_AddConstraint C \<lparr>acr_Constraint = Some (constraint_from_flags cmd)\<rparr> w = (Inr resp, w')" "acp_Success resp"
    using assms(4) by (auto simp: submit_constraint_def fail_def Errorf_w_def split: if_splits prod.splits sum.splits)
  then show ?thesis using add_reply assms(5) by fastforce
qed

lemma remove_run_ok:
  assumes "remove_constraints_run d f gc ns names w = ((out, None), w')" "\<And>C'. connect ''import'' d f gc = Inr C' \<Longrightarrow> C' = C" "inv w"
  shows "inv w' \<and> held w' = without ns (set names) (held w)"
proof -
  obtain deleted out' where "remove_constraints_loop C ns names [] [] w = ((deleted, out', None), w')"
    using assms(1,2) by (auto simp: remove_constraints_run_def Errorf_w_def split: if_splits sum.splits prod.splits option.splits)
  then show ?thesis using remove_loop_ok assms(3) by blast
qed

end

text \<open>A command on the server that a command line names, and that ended with status 0.\<close>

lemma PreRun_started:
  assumes "ctl_PreRun ParseLevel Getenv (SetVersion v (started iv w)) = (None, q)"
  shows "pg_world q = w" "pg_out q = []"
  using assms by (auto simp: ctl_PreRun_def SetVersion_def started_def split: option.splits)

lemma tarianctl_exit0:
  assumes "cobra_ok X" "plain_line (iv_given iv) (iv_words iv)" "iv_words iv = g # r # as" "g \<in> set ctl_groups"
    and "set (ctl_required g r) \<subseteq> set (iv_given iv)"
    and "ctl_resource (tarianctl_commands E (iv_flags iv)) g r = Some (on_server run)"
    and "tarianctl X ParseLevel Getenv E iv w = ((0, e), p)"
  obtains f where "run f as (fst w) = ((pg_out p, None), fst (pg_world p))"
proof -
  note eq = ctl_runs[OF assms(1,2)[unfolded assms(3)] assms(4-6), of ParseLevel Getenv "started iv w"]
  obtain q where q: "ctl_PreRun ParseLevel Getenv (SetVersion versionStr (started iv w)) = (None, q)"
    and run: "map_prod exit_status id (on_server run as q) = ((0, e), p)"
    using assms(7) eq by (auto simp: tarianctl_def assms(3) split: prod.splits option.splits)
  obtain out err s where r: "run (pg_flags q) as (fst (pg_world q)) = ((out, err), s)" by (metis surj_pair)
  then have "err = None" "p = q\<lparr>pg_out := pg_out q @ out, pg_world := (s, snd (pg_world q))\<rparr>"
    using run by (auto simp: on_server_def exit_status_def split: option.splits)
  then show ?thesis using that[of "pg_flags q"] r PreRun_started[OF q] by simp
qed

text \<open>The rows of the table of constraints; the form in which the server keeps one makes no difference.\<close>

definition constraint_row :: "Constraint \<Rightarrow> string list" where
  "constraint_row c = [c_Namespace c, c_Name c, matchLabelsToString (elems (GetMatchLabels (c_Selector c))),
     allowedProcessesToString (elems (c_AllowedProcesses c)), allowedFilesToString (elems (c_AllowedFiles c))]"

definition constraint_titles :: "string list" where
  "constraint_titles = [''Namespace'', ''Constraint Name'', ''Selector'', ''Allowed Processes'', ''Allowed Files'']"

lemma constraintsTable_rows: "constraintsTableOutput cs = Table constraint_titles (map constraint_row cs)"
  by (simp add: constraintsTableOutput_def constraint_titles_def constraint_row_def)

lemma constraint_row_stored: "constraint_row (stored_constraint c) = constraint_row c"
  by (cases "c_Selector c") (auto simp: constraint_row_def stored_constraint_def stored_selector_def GetMatchLabels_def)

context dgraph_db
begin

lemma get_run_lists:
  assumes "get_constraints_run YC (dial_to options dial (server_ctl S D T now)) f None [] s = ((out, None), s')"
    and "snd (fst (constraint_GetAll D s)) = None"
  shows "\<exists>rows. out = [Table constraint_titles rows] \<and> mset rows = image_mset constraint_row (held_constraints (graph s))"
proof -
  obtain resp where get: "cl_GetConstraints (server_ctl S D T now) \<lparr>gcr_Namespace = [], gcr_Labels = None\<rparr> s = (Inr resp, s')"
    and out: "out = [constraintsTableOutput (elems (gcp_Constraints resp))]"
    using assms(1) by (auto simp: get_constraints_run_def Errorf_w_def dest!: connect_dial_to split: sum.splits prod.splits)
  have "mset (elems (gcp_Constraints resp)) = held_constraints (graph s)"
    using GetConstraints_promise[OF call_Inr[OF get[unfolded server_ctl_def ctl_client.simps]]] assms(2) by simp
  then show ?thesis by (auto simp: out constraintsTable_rows)
qed

end

text \<open>Command lines that read: every \<^verbatim>\<open>get\<close>, and an \<^verbatim>\<open>add\<close> that is a dry run or names no resource.\<close>

definition reading :: "invocation \<Rightarrow> bool" where
  "reading iv = (case iv_words iv of
     g # r # as \<Rightarrow> g = ''get'' \<or> g \<in> {''add'', ''create''} \<and>
       (if r \<in> {''constraints'', ''constraint'', ''c''} then cmd_dryRun (cf_add_constraints (iv_flags iv))
        else if r \<in> {''actions'', ''action'', ''a''} then act_dryRun (cf_add_actions (iv_flags iv)) else True)
   | _ \<Rightarrow> False)"

context server_reads
begin

lemma tarianctl_reads:
  assumes "cobra_ok X" "plain_line (iv_given iv) (iv_words iv)" "ce_dialer E = dial_to options dial C" "reading iv" "I (fst w)"
  shows "I (fst (pg_world (snd (tarianctl X ParseLevel Getenv E iv w))))"
proof -
  let ?C = "tarianctl_commands E (iv_flags iv)"
  obtain g r as where words: "iv_words iv = g # r # as"
    using assms(4) by (auto simp: reading_def split: list.splits)
  then have g: "g \<in> {''get'', ''add'', ''create''}" using assms(4) by (auto simp: reading_def)
  then have group: "walk (ctl_buildRootCommand ?C) (iv_words iv) = walk (ctl_group ?C g) (r # as)"
    unfolding words by (intro walk_group) (auto simp: ctl_groups_def)
  have runs: "I (fst (pg_world (snd (run rest p))))"
    if "walk (ctl_buildRootCommand ?C) (iv_words iv) = (c, rest)" "cmd_RunE c = Some run" "I (fst (pg_world p))" for c rest run p
  proof (cases "ctl_resource ?C g r")
    case None
    then have "run \<in> {get_RunE, add_RunE}"
      using that(1,2)[unfolded group walk_no_resource[OF None]] g by (auto simp: ctl_group_def NewGetCommand_def NewAddCommand_def)
    then show ?thesis using that(3) by (auto simp: get_RunE_def add_RunE_def)
  next
    case (Some run')
    obtain u al where "walk (ctl_group ?C g) (r # as) = (Command u al LegacyArgs (ctl_required g r) (Some run') [], as)"
      using walk_resource[OF Some] by blast
    then have run: "run = run'" using that(1,2) unfolding group by auto
    show ?thesis
      using Some assms(4) g
      by (auto simp: run reading_def words ctl_resource_def tarianctl_commands_def Let_def assms(3)
          intro!: on_server_keeps[of I, OF _ that(3)] get_runs_keep dry_runs_keep split: if_splits)
  qed
  have "I (fst (pg_world (snd (X (ctl_buildRootCommand ?C) (ctl_PreRun ParseLevel Getenv) (iv_given iv) (iv_words iv) p))))"
    if "I (fst (pg_world p))" for p
    by (rule cobra_found_keeps[where I = "\<lambda>p. I (fst (pg_world p))", OF assms(1,2) that])
      (auto simp: ctl_PreRun_def split: option.splits intro: runs)
  then show ?thesis using assms(5) by (simp add: tarianctl_def ctl_main_def ctl_Execute_def started_def SetVersion_def)
qed

lemma session_reads:
  assumes "cobra_ok X" "list_all (\<lambda>iv. plain_line (iv_given iv) (iv_words iv) \<and> reading iv) ivs"
    and "ce_dialer E = dial_to options dial C" "I (fst w)"
  shows "I (fst (session X ParseLevel Getenv E ivs w))"
  using assms(2,4) by (induction ivs arbitrary: w) (simp_all add: tarianctl_reads[OF assms(1) _ assms(3)])

end

section \<open>Sessions\<close>


text \<open>What the table of the constraints shows after a session that read.\<close>

lemma listed_after_reading:
  assumes db: "dgraph_db D graph" and X: "cobra_ok X" and E: "ce_dialer E = dial_to options dial (server_ctl S D T now)"
    and reads: "list_all (\<lambda>iv. plain_line (iv_given iv) (iv_words iv) \<and> reading iv) ivs"
    and get: "tarianctl X ParseLevel Getenv E iv (session X ParseLevel Getenv E ivs w) = ((0, e), p)"
    and iv: "plain_line (iv_given iv) (iv_words iv)" "iv_words iv = ''get'' # r # as" "r \<in> {''constraints'', ''constraint'', ''c''}"
      "gco_output (cf_get_constraints (iv_flags iv)) = []"
    and up: "snd (fst (constraint_GetAll D (fst (session X ParseLevel Getenv E ivs w)))) = None"
  shows "\<exists>rows. pg_out p = [Table constraint_titles rows] \<and> mset rows = image_mset constraint_row (held_constraints (graph (fst w)))"
proof -
  let ?w = "session X ParseLevel Getenv E ivs w"
  have kept: "graph (fst ?w) = graph (fst w)"
    using server_reads.session_reads[OF dgraph_db.server_is_server_reads[OF db], of X ivs E options dial S T now "\<lambda>g. g = graph (fst w)" w]
      X reads E by simp
  have "ctl_resource (tarianctl_commands E (iv_flags iv)) ''get'' r =
      Some (on_server (\<lambda>f _. get_constraints_run (ce_YamlConstraint E) (dial_to options dial (server_ctl S D T now)) f None []))"
    using iv(3,4) E by (auto simp: ctl_resource_def tarianctl_commands_def Let_def)
  from tarianctl_exit0[OF X iv(1,2) _ _ this get] obtain f where
    "get_constraints_run (ce_YamlConstraint E) (dial_to options dial (server_ctl S D T now)) f None [] (fst ?w) =
       ((pg_out p, None), fst (pg_world p))"
    by (auto simp: ctl_groups_def ctl_required_def)
  from dgraph_db.get_run_lists[OF db this up] show ?thesis unfolding kept .
qed

text \<open>What the server holds after an edit that ended with status 0.\<close>

lemma added_held:
  assumes "dgraph_db D graph" "cobra_ok X" and E: "ce_dialer E = dial_to options dial (server_ctl S D T now)"
    and "no_duplicates (graph (fst w))" "tarianctl X ParseLevel Getenv E iv w = ((0, e), p)" "plain_line (iv_given iv) (iv_words iv)"
    and words: "iv_words iv = g # r # names" "g \<in> {''add'', ''create''}" "r \<in> {''constraints'', ''constraint'', ''c''}"
    and flags: "cmd_name (cf_add_constraints (iv_flags iv)) \<noteq> []" "\<not> cmd_dryRun (cf_add_constraints (iv_flags iv))"
  shows "stored_constraint (constraint_from_flags (cf_add_constraints (iv_flags iv))) \<in># held_constraints (graph (fst (pg_world p)))"
proof -
  have "ctl_resource (tarianctl_commands E (iv_flags iv)) g r = Some (on_server (\<lambda>f _. add_constraint_run (ce_YamlConstraint E)
      (dial_to options dial (server_ctl S D T now)) f None (ce_Now E) (cf_add_constraints (iv_flags iv))))"
    using words(2,3) by (elim insertE emptyE) (simp_all add: ctl_resource_def tarianctl_commands_def Let_def E)
  from tarianctl_exit0[OF assms(2,6) words(1) _ _ this assms(5)] obtain f where
    "add_constraint_run (ce_YamlConstraint E) (dial_to options dial (server_ctl S D T now)) f None (ce_Now E)
       (cf_add_constraints (iv_flags iv)) (fst w) = ((pg_out p, None), fst (pg_world p))"
    using words(2,3) by (auto simp: ctl_groups_def ctl_required_def)
  then have "held_constraints (graph (fst (pg_world p))) = add_mset (stored_constraint (constraint_from_flags (cf_add_constraints (iv_flags iv))))
      (held_constraints (graph (fst w)))"
    by (rule config_client.add_run_ok[OF dgraph_db.server_is_config_client[OF assms(1)] _ _ flags assms(4), THEN conjunct2])
      (rule connect_dial_to)
  then show ?thesis by simp
qed

lemma removed_held:
  assumes "dgraph_db D graph" "cobra_ok X" and E: "ce_dialer E = dial_to options dial (server_ctl S D T now)"
    and "no_duplicates (graph (fst w))" "tarianctl X ParseLevel Getenv E iv w = ((0, e), p)" "plain_line (iv_given iv) (iv_words iv)"
    and words: "iv_words iv = g # r # names" "g \<in> {''remove'', ''delete'', ''rm''}" "r \<in> {''constraints'', ''constraint'', ''c''}"
  shows "held_constraints (graph (fst (pg_world p))) =
    without (rcc_namespace (cf_remove_constraints (iv_flags iv))) (set names) (held_constraints (graph (fst w)))"
proof -
  have "ctl_resource (tarianctl_commands E (iv_flags iv)) g r = Some (on_server (\<lambda>f. remove_constraints_run
      (dial_to options dial (server_ctl S D T now)) f None (rcc_namespace (cf_remove_constraints (iv_flags iv)))))"
    using words(2,3) by (elim insertE emptyE) (simp_all add: ctl_resource_def tarianctl_commands_def Let_def E)
  from tarianctl_exit0[OF assms(2,6) words(1) _ _ this assms(5)] obtain f where
    "remove_constraints_run (dial_to options dial (server_ctl S D T now)) f None (rcc_namespace (cf_remove_constraints (iv_flags iv)))
       names (fst w) = ((pg_out p, None), fst (pg_world p))"
    using words(2,3) by (auto simp: ctl_groups_def ctl_required_def)
  then show ?thesis
    by (rule config_client.remove_run_ok[OF dgraph_db.server_is_config_client[OF assms(1)] _ _ assms(4), THEN conjunct2])
      (rule connect_dial_to)
qed

text \<open>
  C37: what the client added it lists, and what it removed it lists no more. After an \<^verbatim>\<open>add constraints\<close> with a name that
  ended with status 0, and any command lines that only read, \<^verbatim>\<open>get constraints\<close> prints the constraint as
  its flags described it; after a \<^verbatim>\<open>remove constraints\<close> that ended with status 0 it prints no row with one of the names in that
  namespace. The listing has to read the database without a failure: the server turns one into an
  empty list.
\<close>

theorem client_edits_are_listed:
  assumes db: "dgraph_db D graph" and X: "cobra_ok X" and E: "ce_dialer E = dial_to options dial (server_ctl S D T now)"
    and unique: "no_duplicates (graph (fst w))"
    and edit: "tarianctl X ParseLevel Getenv E iv w = ((0, e), p)" "plain_line (iv_given iv) (iv_words iv)" "iv_words iv = g # r # names"
      "r \<in> {''constraints'', ''constraint'', ''c''}"
    and reads: "list_all (\<lambda>iv. plain_line (iv_given iv) (iv_words iv) \<and> reading iv) ivs"
    and get: "tarianctl X ParseLevel Getenv E iv' (session X ParseLevel Getenv E ivs (pg_world p)) = ((0, e'), p')"
      "plain_line (iv_given iv') (iv_words iv')" "iv_words iv' = ''get'' # r' # as" "r' \<in> {''constraints'', ''constraint'', ''c''}"
      "gco_output (cf_get_constraints (iv_flags iv')) = []"
    and up: "snd (fst (constraint_GetAll D (fst (session X ParseLevel Getenv E ivs (pg_world p))))) = None"
  shows "\<exists>rows. pg_out p' = [Table constraint_titles rows] \<and>
    (g \<in> {''add'', ''create''} \<and> cmd_name (cf_add_constraints (iv_flags iv)) \<noteq> [] \<and> \<not> cmd_dryRun (cf_add_constraints (iv_flags iv)) \<longrightarrow>
       constraint_row (constraint_from_flags (cf_add_constraints (iv_flags iv))) \<in> set rows) \<and>
    (g \<in> {''remove'', ''delete'', ''rm''} \<longrightarrow>
       (\<forall>row\<in>set rows. \<forall>nm\<in>set names. take 2 row \<noteq> [rcc_namespace (cf_remove_constraints (iv_flags iv)), nm]))"
proof -
  obtain rows where rows: "pg_out p' = [Table constraint_titles rows]"
    "mset rows = image_mset constraint_row (held_constraints (graph (fst (pg_world p))))"
    using listed_after_reading[OF db X E reads get up] by blast
  have set_rows: "set rows = constraint_row ` set_mset (held_constraints (graph (fst (pg_world p))))"
    using rows(2) by (metis set_image_mset set_mset_mset)
  have "constraint_row (constraint_from_flags (cf_add_constraints (iv_flags iv))) \<in> set rows"
    if "g \<in> {''add'', ''create''}" "cmd_name (cf_add_constraints (iv_flags iv)) \<noteq> []" "\<not> cmd_dryRun (cf_add_constraints (iv_flags iv))"
    using added_held[OF db X E unique edit(1-3) that(1) edit(4) that(2,3)] unfolding set_rows
    by (metis constraint_row_stored image_eqI)
  moreover have "take 2 row \<noteq> [rcc_namespace (cf_remove_constraints (iv_flags iv)), nm]"
    if "g \<in> {''remove'', ''delete'', ''rm''}" "row \<in> set rows" "nm \<in> set names" for row nm
    using that(2,3) unfolding set_rows removed_held[OF db X E unique edit(1-3) that(1) edit(4)]
    by (auto simp: without_def constraint_row_def)
  ultimately show ?thesis using rows(1) by blast
qed

section \<open>An example\<close>

text \<open>A client for the examples, over the database in memory.\<close>

definition sample_ctl :: "node list ctl_client" where
  "sample_ctl = server_ctl list_strset mem_dgraph \<lparr>tc_format = Itoa, tc_parse = (\<lambda>_. None)\<rparr> 0"

definition sample_add_command :: constraintsCommand where
  "sample_add_command = \<lparr>cmd_name = ''nginx'', cmd_namespace = ''ns'', cmd_matchLabels = Some [''app=nginx''],
     cmd_allowedProcesses = Some [''nginx''], cmd_allowedFileSha256Sums = Some [], cmd_fromViolatedPod = [], cmd_dryRun = False\<rparr>"

lemma sample_flags: "constraint_from_flags sample_add_command = sample_constraint"
  by code_simp

definition sample_client :: "(node list, unit, unit) client_env" where
  "sample_client = \<lparr>ce_YamlConstraint = (\<lambda>_. Inr []), ce_YamlAction = (\<lambda>_. Inr []), ce_RFC3339 = Itoa, ce_Now = 0,
     ce_Open = (\<lambda>_. Inl (ExtError ''no file'')), ce_dialer = dial_to (\<lambda>_ _ _. Inr [Insecure]) (\<lambda>_ _. None) sample_ctl,
     ce_install = \<lparr>ie_MkdirTemp = (\<lambda>w. (Inl (ExtError ''read-only''), w)), ie_Getenv = (\<lambda>_. []), ie_Home = [], ie_Stat = (\<lambda>_. False),
       ie_NewHelm = (\<lambda>_ _ w. (Inl (ExtError ''no helm''), w)), ie_NewKube = (\<lambda>_ _ w. (Inl (ExtError ''no cluster''), w)),
       ie_natsDefaults = (\<lambda>_ w. (None, w)), ie_dgraphDefaults = (\<lambda>_ w. (None, w))\<rparr>,
     ce_schedule = []\<rparr>"

definition sample_line :: "string list \<Rightarrow> invocation" where
  "sample_line words = \<lparr>iv_global = SetGlobalFlags, iv_flags = client_defaults\<lparr>cf_add_constraints := sample_add_command\<rparr>,
     iv_given = [], iv_words = words\<rparr>"

lemma sample_line_sel:
  "iv_words (sample_line ws) = ws" "iv_given (sample_line ws) = []" "cf_add_constraints (iv_flags (sample_line ws)) = sample_add_command"
  "gco_output (cf_get_constraints (iv_flags (sample_line ws))) = []"
  by (simp_all add: sample_line_def client_defaults_def getConstraints_flags_def)

definition sample_tarianctl :: "string list \<Rightarrow> node list \<times> unit \<Rightarrow> (nat \<times> go_error option) \<times> (GlobalFlags, node list \<times> unit) program" where
  "sample_tarianctl words w = tarianctl cobra_sample (\<lambda>_. Inr 4) (\<lambda>_. []) sample_client (sample_line words) w"

lemma sample_runs:
  assumes "ctl_resource (tarianctl_commands sample_client (iv_flags (sample_line (g # r # as)))) g r = Some (on_server run)"
    and "plain_line [] (g # r # as)" "g \<in> set ctl_groups" "ctl_required g r = []" "\<And>f. run f as s = ((out, None), s')"
  obtains p where "sample_tarianctl (g # r # as) (s, ()) = ((0, None), p)" "pg_out p = out" "pg_world p = (s', ())"
proof -
  have "ctl_main cobra_sample (\<lambda>_. Inr 4) (\<lambda>_. []) (tarianctl_commands sample_client (iv_flags (sample_line (g # r # as)))) []
      (g # r # as) q =
    (case ctl_PreRun (\<lambda>_. Inr 4) (\<lambda>_. []) (SetVersion versionStr q) of
       (Some err, p') \<Rightarrow> ((1, Some err), p')
     | (None, p') \<Rightarrow> map_prod exit_status id (on_server run as p'))" for q
    by (rule ctl_runs[OF cobra_sample_ok assms(2,3) _ assms(1)]) (simp add: assms(4))
  then show ?thesis
    using that assms(5)
    by (simp add: sample_tarianctl_def tarianctl_def sample_line_def ctl_PreRun_def started_def SetVersion_def
        ValidateGlobalFlags_def SetGlobalFlags_def on_server_def exit_status_def)
qed

lemma sample_client_added:
  obtains p where "sample_tarianctl [''add'', ''c''] ([], ()) = ((0, None), p)" "pg_world p = (sample_db, ())"
proof -
  have run: "add_constraint_run (\<lambda>_. Inr []) (dial_to (\<lambda>_ _ _. Inr [Insecure]) (\<lambda>_ _. None) sample_ctl :: (node list, unit) dialer) f None 0
      sample_add_command [] = (([Info ''Constraint was added successfully''], None), sample_db)" for f
    by (simp add: add_constraint_run_def connect_def dial_to_def submit_constraint_def sample_flags sample_ctl_def server_ctl_def call_def
      sample_add_ok[unfolded sample_server_def sample_add_def]) (simp add: sample_add_command_def)
  have res: "ctl_resource (tarianctl_commands sample_client (iv_flags (sample_line [''add'', ''c'']))) ''add'' ''c'' =
      Some (on_server (\<lambda>f _. add_constraint_run (\<lambda>_. Inr []) (dial_to (\<lambda>_ _ _. Inr [Insecure]) (\<lambda>_ _. None) sample_ctl :: (node list, unit) dialer) f None 0 sample_add_command))"
    by (simp add: ctl_resource_def tarianctl_commands_def Let_def sample_client_def sample_line_def)
  show ?thesis by (rule sample_runs[OF res _ _ _ run]) (use that in \<open>auto simp: plain_line_def ctl_groups_def ctl_required_def\<close>)
qed

lemma sample_client_read: "constraint_GetAll mem_dgraph sample_db = ((Some [stored_constraint sample_constraint], None), sample_db)"
  unfolding sample_db_def by code_simp

lemma sample_client_listed:
  obtains p where "sample_tarianctl [''get'', ''constraints''] (sample_db, ()) = ((0, None), p)"
proof -
  have run: "get_constraints_run (\<lambda>_. Inr []) (dial_to (\<lambda>_ _ _. Inr [Insecure]) (\<lambda>_ _. None) sample_ctl :: (node list, unit) dialer) f None []
      sample_db = (([constraintsTableOutput [stored_constraint sample_constraint]], None), sample_db)" for f
    by (simp add: get_constraints_run_def connect_def dial_to_def sample_ctl_def server_ctl_def call_def GetConstraints_def
        dgraphConstraintStore_def sample_client_read)
  have res: "ctl_resource (tarianctl_commands sample_client (iv_flags (sample_line [''get'', ''constraints'']))) ''get'' ''constraints'' =
      Some (on_server (\<lambda>f _. get_constraints_run (\<lambda>_. Inr []) (dial_to (\<lambda>_ _ _. Inr [Insecure]) (\<lambda>_ _. None) sample_ctl :: (node list, unit) dialer) f None []))"
    by (simp add: ctl_resource_def tarianctl_commands_def Let_def sample_client_def sample_line_def client_defaults_def getConstraints_flags_def)
  show ?thesis by (rule sample_runs[OF res _ _ _ run]) (use that in \<open>auto simp: plain_line_def ctl_groups_def ctl_required_def\<close>)
qed

lemma sample_dialer: "ce_dialer sample_client = dial_to (\<lambda>_ _ _. Inr [Insecure]) (\<lambda>_ _. None)
  (server_ctl list_strset mem_dgraph \<lparr>tc_format = Itoa, tc_parse = (\<lambda>_. None)\<rparr> 0)"
  by (simp add: sample_client_def sample_ctl_def)


theorem client_edits_are_listed_witness:
  "\<exists>p rows. sample_tarianctl [''get'', ''constraints''] (sample_db, ()) = ((0, None), p) \<and> pg_out p = [Table constraint_titles rows] \<and>
     constraint_row (constraint_from_flags sample_add_command) \<in> set rows"
proof -
  obtain p where p: "sample_tarianctl [''add'', ''c''] ([], ()) = ((0, None), p)" "pg_world p = (sample_db, ())" by (rule sample_client_added)
  obtain q where q: "sample_tarianctl [''get'', ''constraints''] (sample_db, ()) = ((0, None), q)" by (rule sample_client_listed)
  obtain rows where "pg_out q = [Table constraint_titles rows]" "constraint_row (constraint_from_flags sample_add_command) \<in> set rows"
    using client_edits_are_listed[OF mem.dgraph_db_axioms cobra_sample_ok sample_dialer _ p(1)[unfolded sample_tarianctl_def],
        of "''add''" "''c''" "[]" "[]" "sample_line [''get'', ''constraints'']" None q "''constraints''" "[]"]
      q[unfolded sample_tarianctl_def] sample_empty
    by (auto simp: p(2) sample_client_read sample_line_sel plain_line_def) (auto simp: sample_add_command_def)
  then show ?thesis using q by auto
qed

end
