(* ===== verification/Spec2Isabelle.thy ===== *)
theory Spec2Isabelle
  imports NodeAgentCmd Sidecar Server ClusterAgentMain Install Registry AlertPipeline TarianctlGet ControlPlane ClientProgram
begin

text \<open>
  A verification development of Tarian, the Kubernetes run-time threat detection of this repository.

  \<^bold>\<open>The program.\<close> A node agent on every node watches the processes that are started, finds the pod a
  process belongs to and compares the process with the constraints of the cluster. A pod agent, a
  sidecar that an admission webhook adds to annotated pods, does the same for the checksums of files.
  Both talk to the cluster agent, which passes their requests on to the server, caches constraints,
  receives Falco alerts and runs actions: it deletes pods. The server keeps constraints, actions
  and events in Dgraph, takes events in through a queue and sends alerts to Alertmanager. The command line
  client \<^verbatim>\<open>tarianctl\<close> edits and lists what the server keeps.

  \<^bold>\<open>The theories\<close>, in the order of their imports, with the sources they model:

  \<^item> \<open>Prelude\<close>, \<open>GoStrings\<close>: Go slices, maps, errors and effects; the functions of \<^verbatim>\<open>strings\<close> and \<^verbatim>\<open>strconv\<close> the
    program calls, with their laws (splitting and joining, searching, trimming, decimal numbers).
  \<^item> \<open>Tarianpb\<close>: the messages of \<^verbatim>\<open>pkg/tarianpb\<close>, their nil-safe getters, constants and constructors.
  \<^item> \<open>Labels\<close>: the label sets by which five functions decide whether a selector applies to a pod.
  \<^item> \<open>ContainerID\<close>: \<^verbatim>\<open>enrich_container.go\<close> and \<^verbatim>\<open>enrich_kubernetes.go\<close> of the node agent, from a process id over its
    cgroup to the pod.
  \<^item> \<open>NodeAgent\<close>: \<^verbatim>\<open>pkg/nodeagent/nodeagent.go\<close>, validation, the decision between registering and reporting, and the
    requests it sends.
  \<^item> \<open>NodeAgentCmd\<close>: the node agent as a process, \<^verbatim>\<open>cmd/tarian-node-agent\<close> with its checks of the host, the set-up
    of the pod watcher and the eBPF detector, and the two loops of \<^verbatim>\<open>Run\<close> as a step relation.
  \<^item> \<open>PodAgent\<close>: \<^verbatim>\<open>pkg/podagent/podagent.go\<close>, validation and registration of file checksums.
  \<^item> \<open>PodAgentCmd\<close>: \<^verbatim>\<open>cmd/tarian-pod-agent\<close>, the flags, the labels file, the two commands and the loops they start.
  \<^item> \<open>Store\<close>: the interfaces of \<^verbatim>\<open>pkg/store\<close> and, as the locale \<open>named_store\<close>, the contract of a store of named items.
  \<^item> \<open>Json\<close>, \<open>PbJson\<close>: JSON texts, their printing and parsing, and the messages the stores keep as JSON.
  \<^item> \<open>Dgraph\<close>: the queries and mutations the stores send and the schema of \<^verbatim>\<open>schema.go\<close>. The database itself is not
    part of the repository: the locale \<open>dgraph_db\<close> states the laws the stores rely on, failures and commits whose
    answer was lost included, and a database in memory interprets it.
  \<^item> \<open>DgraphConfigStore\<close>, \<open>DgraphEventStore\<close>: \<^verbatim>\<open>pkg/server/dgraphstore\<close>; over every lawful database the two
    configuration stores are \<open>named_store\<close>s.
  \<^item> \<open>DgraphGraph\<close>, \<open>GraphMem\<close>: what events need of the database besides, nodes with edges, nested queries, mutations of whole
    objects and upserts, as the locale \<open>graph_db\<close>, and a database in memory that interprets it.
  \<^item> \<open>EventGraph\<close>, \<open>EventPods\<close>, \<open>EventInsert\<close>: the events that a graph holds, its invariant, and what the queries, the
    upserts of pods and the insertion of \<^verbatim>\<open>dgraph_event_store.go\<close> do to them.
  \<^item> \<open>ConfigServer\<close>, \<open>EventServer\<close>, \<open>AlertDispatcher\<close>: the handlers of \<^verbatim>\<open>pkg/server\<close>, the ingestion worker as a step
    relation, and the alert loop.
  \<^item> \<open>EventLog\<close>: the contract of the event store as the locales \<open>event_log\<close> and \<open>alert_log\<close>, the rounds of the alert loop
    over them, and the proof that the Dgraph store implements a bag of events.
  \<^item> \<open>AlertPipeline\<close>: the ingestion and the steps of the alert loop interleaved on one event store, the locale
    \<open>alert_store\<close> of what they need of it, and the way of a violation from its report to Alertmanager.
  \<^item> \<open>Registry\<close>: the abstract specification of the configuration service, a map from names to constraints and actions,
    and the proof that the handlers over the Dgraph stores refine it.
  \<^item> \<open>Server\<close>: \<^verbatim>\<open>server.go\<close>, which wires stores, queues, services and workers, and the commands \<^verbatim>\<open>run\<close> and
    \<^verbatim>\<open>dgraph apply-schema\<close> of \<^verbatim>\<open>cmd/tarian-server\<close>.
  \<^item> \<open>Queue\<close>: \<^verbatim>\<open>pkg/protoqueue\<close>, the channel queue, the NATS JetStream queue and the retries of publishing; the contract of a
    queue is the locale \<open>message_queue\<close>.
  \<^item> \<open>ClusterAgent\<close>, \<open>FalcoListener\<close>, \<open>PodInjector\<close>: the services, the action handler, the Falco listener and the webhook
    of \<^verbatim>\<open>pkg/clusteragent\<close>.
  \<^item> \<open>ActionHandler\<close>: the loops of \<^verbatim>\<open>action_handler.go\<close> as a step relation, a synchronisation between any two targets.
  \<^item> \<open>Paths\<close>, \<open>ClusterAgentMain\<close>: \<^verbatim>\<open>clusteragent.go\<close>, which puts them together, \<^verbatim>\<open>webhookserver/manager.go\<close>, and the
    commands of \<^verbatim>\<open>cmd/tarian-cluster-agent\<close>.
  \<^item> \<open>Sidecar\<close>: the arguments that the webhook writes as the pod agent reads them.
  \<^item> \<open>Tarianctl\<close>, \<open>TarianctlAdd\<close>, \<open>TarianctlGet\<close>: \<^verbatim>\<open>cmd/tarianctl/cmd\<close>; what the commands need of the server is
    the locale \<open>config_client\<close>.
  \<^item> \<open>Install\<close>: \<^verbatim>\<open>cmd/tarianctl/cmd/install\<close> with \<^verbatim>\<open>pkg/util/helm\<close> and \<^verbatim>\<open>pkg/util/kubeclient\<close>, the two goroutines
    interleaved by a schedule.
  \<^item> \<open>Commands\<close>: the five programs from \<^verbatim>\<open>main\<close> to a command, with \<^verbatim>\<open>pkg/log\<close>, \<^verbatim>\<open>cmd/version.go\<close>, the \<^verbatim>\<open>root.go\<close> and
    \<^verbatim>\<open>flags\<close> of each program and the command groups of \<^verbatim>\<open>tarianctl\<close>; what \<^verbatim>\<open>cobra\<close> does with a tree of commands is \<open>cobra_ok\<close>.
  \<^item> \<open>ClientProgram\<close>: the client as one program, the flags of its commands, the tree with the commands of \<open>Tarianctl\<close>,
    \<open>TarianctlAdd\<close>, \<open>TarianctlGet\<close> and \<open>Install\<close> in it, and sessions of command lines on the server's handlers; what the remote calls keep
    is the locales \<open>server_reads\<close> and \<open>server_calls\<close>.
  \<^item> \<open>ControlPlane\<close> and this theory: the clients on top of the server's own handlers, and the properties that
    span components.

  \<^bold>\<open>How code is modelled.\<close> A struct is a record and an operation a function on it; code with effects takes the
  state of the world and returns it changed; errors are values of \<open>go_error\<close>. A goroutine's loop is one
  round of it as a function, and where the order of rounds matters (event ingestion, the alert loop beside it, the agents as
  processes, the webhook server) a step relation.
  Libraries, the clock, the file system, the regular expressions and the remote ends are parameters; what is assumed of
  them is a named hypothesis, and each property with hypotheses has an instance where they hold.
  32-bit values (process ids, priorities, limits) are words. Loops are structural recursion or recursion with a measure;
  the retries of publishing are bounded by the code's own constant, the polls for pods by a parameter, and the wait for
  NATS is unbounded: its result is \<open>None\<close> when it never returns. No fuel is chosen anywhere. Logging is
  left out except where a nil logger or the output of a command matters.

  \<^bold>\<open>What is shown.\<close> Validation of processes and files decides what the constraints say; a process is attributed to
  its pod; the configuration service keeps names unique and its handlers do what they promise, over any lawful
  database, so that it refines a registry of names, and a race between two additions breaks it; a server that
  starts has its queues wired, and starts as soon as NATS can be reached; accepted events are stored in order, none lost or
  repeated; the event store over any lawful graph database is a bag of events, what was added is found, each event is
  alerted once, an event that was stored reaches Alertmanager, and so does every violation whose report was accepted, however the goroutines of the server interleave; pods are deleted exactly for a matching action and only if older than the event, and a running action
  handler deletes what its events and its last synchronised actions call for, in order; the webhook adds one
  container, is idempotent, is served only with certificates, and its sidecar registers the mounts of the pod; the
  Falco listener and the node agent agree on processes; an installation keeps its order; the client runs the command that its command line names, keeps names unique in every session, and lists what it added and not what it removed; flags and printed selectors parse back. Further properties show where the code does not do
  what it means to: they are stated as what the code does.

  \<^bold>\<open>What is not modelled.\<close> The inside of \<^verbatim>\<open>cobra\<close> and the help texts of commands, TLS handshakes and the transport of gRPC,
  the eBPF programs, the informers that fill the pod index, the certificate rotator, what Helm and
  Kubernetes do with the requests, logging, generated serialisation code, test fakes.
\<close>

section \<open>Ingestion in a server without NATS\<close>

text \<open>The ingestion as a server starts it: the queues its event service and its worker refer to.\<close>

definition server_ingestion :: "('s, 'cred) TarianServer \<Rightarrow> 's \<Rightarrow> (Event ChannelQueue, 's) ingestion option" where
  "server_ingestion srv s =
     (case (srv_queues srv ! iw_IngestionQueue (srv_IngestionWorker srv),
            srv_queues srv ! iw_IngestionQueueForEventDetection (srv_IngestionWorker srv)) of
        (ChannelQ q1, ChannelQ q2) \<Rightarrow> Some \<lparr>in_queues = (q1, q2), in_chan = [], in_chan_detection = [], in_store = s\<rparr>
      | _ \<Rightarrow> None)"

text \<open>
  A server that is started without NATS takes events in order: at any time the events of
  a lane that it accepted are those it handed to its event store, then those on their way, in
  the order of acceptance, none lost, repeated or overtaken.
\<close>

theorem server_stores_in_order:
  assumes "NewServer R N LoadTLS storeSet cert key [] cfg w = Some (Inr srv, w')"
    and "server_ingestion srv s = Some st0"
    and "ingest_run channel_queue (srv_eventStore srv) st0 tr st"
  shows "accepted l tr = taken l tr @ lane_chan l st @ channel (lane_queue l (in_queues st))"
proof -
  have "st0 = start_ingestion s" using assms(1,2)
    by (auto simp: NewServer_def server_queues_def server_ingestion_def NewIngestionWorker_def start_ingestion_def)
  then have run: "ingest_run channel_queue (srv_eventStore srv) (start_ingestion s) tr st" using assms(3) by simp
  show ?thesis using ceq.ingest_run_in_order[OF run start_in_order] by (simp add: lane_in_order_def)
qed

theorem server_stores_in_order_witness:
  "\<exists>srv w' st0. sample_NewServer slow_nats [] = Some (Inr srv, w') \<and> server_ingestion srv [] = Some st0 \<and>
     lane_chan Detection st0 @ channel (lane_queue Detection (in_queues st0)) = []"
proof -
  obtain srv w' where srv: "sample_NewServer slow_nats [] = Some (Inr srv, w')"
    by (simp add: sample_NewServer_def NewServer_def server_queues_def)
  then obtain st0 where st0: "server_ingestion srv [] = Some st0"
    by (auto simp: sample_NewServer_def NewServer_def server_queues_def server_ingestion_def NewIngestionWorker_def)
  show ?thesis
    using server_stores_in_order[OF srv[unfolded sample_NewServer_def] st0 run_empty, of Detection] srv st0
    by (auto simp: accepted_def taken_def)
qed

section \<open>From a violation to a constraint and back\<close>


definition deaf_ingest :: "(node list, IngestEventRequest, IngestEventResponse) rpc" where
  "deaf_ingest req s = (Inr \<lparr>iep_Success = True\<rparr>, s)"

definition e2e_server :: "node list server_client" where
  "e2e_server = server_sc list_strset mem_dgraph deaf_ingest"

definition e2e_proxy :: proxy where
  "e2e_proxy = px_EnableAddConstraint True NewProxy"

definition e2e_registered :: "node list" where
  "e2e_registered = RegisterViolationsAsNewConstraint (px_AddConstraint e2e_server e2e_proxy) 7200000 (demo_event ''sh'' RegisterAnnotation) []"

definition e2e_agent :: NodeAgent where
  "e2e_agent = the (fst (na_SyncConstraints (px_GetConstraints e2e_server) (NewNodeAgent ''addr'') e2e_registered))"

lemma e2e_added:
  "px_AddConstraint e2e_server e2e_proxy \<lparr>acr_Constraint = Some (processConstraint 7200000 (demo_event ''sh'' RegisterAnnotation))\<rparr> [] =
     (Inr \<lparr>acp_Success = True\<rparr>, e2e_registered)"
proof -
  let ?r = "px_AddConstraint e2e_server e2e_proxy \<lparr>acr_Constraint = Some (processConstraint 7200000 (demo_event ''sh'' RegisterAnnotation))\<rparr> []"
  have "fst ?r = Inr \<lparr>acp_Success = True\<rparr>" by code_simp
  moreover have "snd ?r = e2e_registered" by (simp add: e2e_registered_def RegisterViolationsAsNewConstraint_def)
  ultimately show ?thesis by (metis prod.collapse)
qed

lemma e2e_synced:
  "na_SyncConstraints (px_GetConstraints e2e_server) (NewNodeAgent ''addr'') e2e_registered = (Some e2e_agent, e2e_registered)"
  by (simp add: e2e_agent_def na_SyncConstraints_def px_GetConstraints_def e2e_server_def server_sc_def GetConstraints_def
        call_def dgraph_server_def NewConfigServer_def dgraphConstraintStore_def constraint_GetAll_def query_list_def
        mem_dgraph_def mem_Query_def Let_def split: prod.splits sum.splits option.splits)

lemma e2e_read:
  "snd (fst (constraint_GetAll mem_dgraph e2e_registered)) = None"
  by code_simp


text \<open>
  C23: a violation that a node agent reports leads to the deletion of its pod: the cluster agent queues the event
  whatever the server answered, and the next round of the action handler asks Kubernetes to delete
  the pod if some action for violated processes applies to it, provided that the pod existed before
  the report. The nil labels that the report starts with do no harm here.
\<close>

theorem reported_violation_deletes_pod:
  assumes "strset_ok S mem" and "plain_keys (ev_K8sPodLabels v)" and "\<forall>a\<in>set (elems (ah_actions ah)). plain_action a"
    and "ah_eventsChan ah = []"
    and "px_IngestEvent SC ah (reportEvent now v) w = (Some (reply, ah'), w')"
    and "a \<in> set (elems (ah_actions ah))" "a_Action a = ''delete-pod''" "a_OnViolatedProcess a"
    and "a_Namespace a = ev_K8sNamespace v" "selects (a_Selector a) (ev_K8sPodLabels v)"
    and "created (ev_K8sNamespace v, ev_K8sPodName v) = Some c" "c < now"
  shows "\<exists>ah'' deletions. run_round S (Some (recording_k8s created refuses)) deaf_server now' ah' [] = Some (ah'', deletions) \<and>
    (ev_K8sNamespace v, ev_K8sPodName v) \<in> set deletions"
proof -
  define pod where "pod = \<lparr>pod_Uid = ev_K8sPodUID v, pod_Namespace = ev_K8sNamespace v, pod_Name = ev_K8sPodName v,
    pod_Labels = Some (replicate (length (ev_K8sPodLabels v)) None @ map (\<lambda>(k, x). Some \<lparr>l_Key = k, l_Value = x\<rparr>) (ev_K8sPodLabels v))\<rparr>"
  define tg where "tg = \<lparr>t_Pod = Some pod, t_ViolatedProcesses = Some [\<lparr>p_Pid = ev_Pid v, p_Name = ev_Command v\<rparr>],
    t_ViolatedFiles = None, t_FalcoAlert = None, t_DetectionDataType = [], t_DetectionData = []\<rparr>"
  obtain e where e: "ier_Event (reportEvent now v) = Some e" "e_Targets e = Some [tg]" "e_ClientTimestamp e = Some now"
    by (simp add: reportEvent_def Let_def fold_append_labels pod_def tg_def)
  have pairs: "label_pairs (pod_Labels pod) = replicate (length (ev_K8sPodLabels v)) ([], []) @ ev_K8sPodLabels v"
    by (auto simp: label_pairs_def pod_def Label_GetKey_def Label_GetValue_def intro!: map_idI)
  then have plain: "plain_keys (label_pairs (pod_Labels pod))" using assms(2) by (auto simp: plain_keys_def list_all_iff)
  have "deletes created now tg pod a"
    using assms(7-12) selects_mono[OF assms(10), of "label_pairs (pod_Labels pod)"] pairs
    by (auto simp: deletes_def triggers_def tg_def) (simp_all add: pod_def)
  moreover have "ah' = ah\<lparr>ah_eventsChan := [Some e]\<rparr>"
    using assms(4,5) e(1) by (auto simp: px_IngestEvent_def QueueEvent_def split: prod.splits if_splits)
  moreover have "process_targets S (Some (recording_k8s created refuses)) deaf_server now' (elems (ah_actions ah)) (Some now) [tg] [] =
      map (\<lambda>_. (pod_Namespace pod, pod_Name pod)) (filter (deletes created now tg pod) (elems (ah_actions ah)))"
    using process_targets_recorded[OF assms(1,3), of "[tg]"] plain by (simp add: tg_def)
  ultimately show ?thesis
    using assms(6) e by (auto simp: run_round_def ProcessActions_def Event_GetTargets_def Event_GetClientTimestamp_def pod_def)
qed

theorem reported_violation_deletes_pod_witness:
  "\<exists>ah'' deletions. run_round list_strset (Some (recording_k8s (\<lambda>_. Some 5) (\<lambda>_. False))) deaf_server 11
      (the (QueueEvent (ier_Event (reportEvent 9 (demo_event ''sh'' RegisterAnnotation))) (SetActions (Some [sample_action]) newActionHandler))) [] =
      Some (ah'', deletions) \<and> (''default'', ''web'') \<in> set deletions"
proof -
  let ?ah = "SetActions (Some [sample_action]) newActionHandler" and ?v = "demo_event ''sh'' RegisterAnnotation"
  have px: "px_IngestEvent e2e_server ?ah (reportEvent 9 ?v) [] =
      (Some (Inr \<lparr>iep_Success = True\<rparr>, the (QueueEvent (ier_Event (reportEvent 9 ?v)) ?ah)), [])"
    by (simp add: px_IngestEvent_def e2e_server_def server_sc_def deaf_ingest_def QueueEvent_def SetActions_def newActionHandler_def
        eventsChan_capacity_def)
  show ?thesis
    using reported_violation_deletes_pod[OF list_strset_ok _ _ _ px, of sample_action "\<lambda>_. Some 5" 5 "\<lambda>_. False" 11]
    by (simp add: SetActions_def newActionHandler_def sample_action_def NewAction_def demo_event_def plain_keys_def plain_action_def
        matchlabel_pairs_def GetMatchLabels_def selects_def)
qed

section \<open>When the database fails\<close>

text \<open>
  C27: a failing database makes every process a violation. The server answers a request for constraints
  with success and none when it cannot read them, the node agent replaces its constraints by that answer, and
  from then until the next synchronisation it takes every process of every known pod for a violation.
\<close>

theorem database_outage_flags_everything:
  assumes "na_SyncConstraints (px_GetConstraints (server_sc S D ingest)) n s = (Some n', s')"
    and "snd (fst (constraint_GetAll D s)) \<noteq> None"
    and "ev_K8sNamespace evt \<noteq> []" "ev_K8sPodName evt \<noteq> []"
  shows "ValidateProcess S Compile n' evt = Some evt"
proof -
  obtain resp where g: "GetConstraints S (dgraph_server D) \<lparr>gcr_Namespace = [], gcr_Labels = None\<rparr> s = ((Some resp, None), s')"
    and n': "na_constraints n' = gcp_Constraints resp" using na_Sync_server[OF assms(1)] .
  have "gcp_Constraints resp = None"
    using g assms(2) by (auto simp: GetConstraints_def dgraphConstraintStore_def constraint_GetAll_def Let_def split: prod.splits sum.splits)
  then show ?thesis using assms(3,4) n' by (simp add: ValidateProcess_def Let_def)
qed

definition down_dgraph :: "node list dgraph" where
  "down_dgraph = mem_dgraph\<lparr>dg_Query := (\<lambda>q s. (Inl (ExtError ''unavailable''), s))\<rparr>"

theorem database_outage_flags_everything_witness:
  "\<exists>n. na_SyncConstraints (px_GetConstraints (server_sc list_strset down_dgraph deaf_ingest)) e2e_agent [] = (Some n, []) \<and>
     ValidateProcess list_strset demo_regex n (demo_event ''sh'' RegisterAnnotation) = Some (demo_event ''sh'' RegisterAnnotation)"
proof -
  have down: "constraint_GetAll down_dgraph [] = ((None, Some (ExtError ''unavailable'')), [])"
    by (simp add: constraint_GetAll_def query_list_def down_dgraph_def)
  then obtain n where sync: "na_SyncConstraints (px_GetConstraints (server_sc list_strset down_dgraph deaf_ingest)) e2e_agent [] = (Some n, [])"
    by (simp add: na_SyncConstraints_def px_GetConstraints_def server_sc_def call_def GetConstraints_def dgraphConstraintStore_def)
  show ?thesis
    using sync database_outage_flags_everything[OF sync, of "demo_event ''sh'' RegisterAnnotation" demo_regex] down
    by (simp add: demo_event_def)
qed

section \<open>The command line client on the server\<close>

text \<open>
  C34: \<^verbatim>\<open>tarianctl remove constraints\<close> that ends without an error has removed exactly the named constraints of the
  namespace. One that ends with an error has removed the names before some name of the list, perhaps
  that name too, and nothing else.
\<close>

theorem remove_constraints_exact:
  assumes "dgraph_db D graph" and "no_duplicates (graph s)"
    and "remove_constraints_run d f (Some (server_ctl S D T now)) ns names s = ((out, err), s')"
  shows "no_duplicates (graph s') \<and>
    (if err = None then held_constraints (graph s') = without ns (set names) (held_constraints (graph s))
     else \<exists>k. held_constraints (graph s') = without ns (set (take k names)) (held_constraints (graph s)))"
proof (cases "names = []")
  case True
  then show ?thesis using assms(2,3) by (auto simp: remove_constraints_run_def intro: exI[of _ 0])
next
  case False
  obtain deleted o1 e1 s1 where loop: "remove_constraints_loop (server_ctl S D T now) ns names [] [] s = ((deleted, o1, e1), s1)"
    by (metis prod_cases3 surj_pair)
  then have s1: "s' = s1" "err = e1"
    using assms(3) False by (auto simp: remove_constraints_run_def connect_def split: option.splits)
  show ?thesis
  proof (cases e1)
    case None
    then show ?thesis using config_client.remove_loop_ok[OF dgraph_db.server_is_config_client[OF assms(1)]] loop assms(2) s1 by metis
  next
    case (Some e)
    obtain removed name rest where r: "no_duplicates (graph s1)" "names = removed @ name # rest"
      "held_constraints (graph s1) = without ns (set removed) (held_constraints (graph s)) \<or>
       held_constraints (graph s1) = without ns (insert name (set removed)) (held_constraints (graph s))"
      using config_client.remove_loop_error[OF dgraph_db.server_is_config_client[OF assms(1)] loop[unfolded Some] assms(2)] by blast
    have "take (length removed) names = removed" "set (take (Suc (length removed)) names) = insert name (set removed)"
      using r(2) by simp_all
    then have "\<exists>k. held_constraints (graph s1) = without ns (set (take k names)) (held_constraints (graph s))"
      using r(3) by metis
    then show ?thesis using r(1) s1 Some by simp
  qed
qed

lemma sample_remove_run:
  "remove_constraints_run (Dialer (\<lambda>_ _ _. Inr []) (\<lambda>_ _. Inl (ExtError ''refused'')) :: (node list, unit) dialer)
     SetGlobalFlags (Some sample_ctl) ''ns'' [''nginx''] sample_db =
   (([Info ''Successfully removed constraints: [nginx]\<newline>''], None), [])"
  by (simp add: remove_constraints_run_def connect_def sample_ctl_def server_ctl_def call_def closing_def
      sample_remove_ok[unfolded sample_server_def sample_remove_def])

theorem remove_constraints_exact_witness:
  "held_constraints (clean []) = without ''ns'' {''nginx''} (held_constraints (clean sample_db))"
  using remove_constraints_exact[OF mem.dgraph_db_axioms sample_db_no_duplicates sample_remove_run[unfolded sample_ctl_def]]
  by simp

text \<open>
  When \<^verbatim>\<open>tarianctl import\<close> says of a file that it has imported as many constraints as the file has documents,
  the server holds every one of them besides what it held, and no two have the same name.
\<close>

theorem import_reports_truly:
  assumes "dgraph_db D graph" and "no_duplicates (graph s)" and "ds \<noteq> []"
    and "importFile (server_ctl S D T now) ds s =
      (([Info (Itoa (int (length ds)) @ '' constraint(s) imported successfully'')], None), s')"
  shows "no_duplicates (graph s') \<and> (\<exists>cs. ds = map Inr cs \<and>
    held_constraints (graph s') = held_constraints (graph s) + mset (map stored_constraint cs))"
proof -
  obtain k where k: "import_loop (server_ctl S D T now) ds 0 s = ((k, None), s')" "Itoa (int k) = Itoa (int (length ds))"
    using assms(4) by (auto simp: importFile_def split: prod.splits option.splits if_splits)
  then have loop: "import_loop (server_ctl S D T now) ds 0 s = ((length ds, None), s')" by (simp add: Itoa_inj)
  show ?thesis
    using config_client.import_all[OF dgraph_db.server_is_config_client[OF assms(1)] loop assms(2)]
      config_client.import_loop_ok[OF dgraph_db.server_is_config_client[OF assms(1)] loop assms(2)] by auto
qed

lemma sample_import:
  "importFile sample_ctl [Inr sample_constraint] [] =
     (([Info (Itoa (int (length [Inr sample_constraint :: go_error + Constraint])) @ '' constraint(s) imported successfully'')], None), sample_db)"
  by (simp add: importFile_def sample_ctl_def server_ctl_def call_def sample_add_ok[unfolded sample_server_def sample_add_def])

theorem import_reports_truly_witness:
  "held_constraints (clean sample_db) = held_constraints (clean []) + {#stored_constraint sample_constraint#}"
  using import_reports_truly[OF mem.dgraph_db_axioms sample_empty _ sample_import[unfolded sample_ctl_def]]
  by (auto simp: Cons_eq_map_conv)

text \<open>
  \<^verbatim>\<open>tarianctl add constraints\<close> with a name that ends without an error has added the constraint its flags
  describe, as the server stores it, and nothing else; the name was free before.
\<close>

theorem add_constraint_adds:
  assumes "dgraph_db D graph" and "no_duplicates (graph s)"
    and "cmd_name cmd \<noteq> []" "\<not> cmd_dryRun cmd"
    and "add_constraint_run Yaml d f (Some (server_ctl S D T now)) clock cmd s = ((out, None), s')"
  shows "no_duplicates (graph s') \<and>
    held_constraints (graph s') = add_mset (stored_constraint (constraint_from_flags cmd)) (held_constraints (graph s))"
  by (rule config_client.add_run_ok[OF dgraph_db.server_is_config_client[OF assms(1)] assms(5) _ assms(3,4,2)]) (simp add: connect_def)

lemma sample_add_run:
  "add_constraint_run (\<lambda>_. Inr []) (Dialer (\<lambda>_ _ _. Inr []) (\<lambda>_ _. Inl (ExtError ''refused'')) :: (node list, unit) dialer)
     SetGlobalFlags (Some sample_ctl) 0 sample_add_command [] = (([Info ''Constraint was added successfully''], None), sample_db)"
  by (simp add: add_constraint_run_def connect_def submit_constraint_def sample_flags sample_ctl_def server_ctl_def call_def
      sample_add_ok[unfolded sample_server_def sample_add_def]) (simp add: sample_add_command_def)

theorem add_constraint_adds_witness:
  "held_constraints (clean sample_db) = {#stored_constraint sample_constraint#} + held_constraints (clean [])"
  using add_constraint_adds[OF mem.dgraph_db_axioms sample_empty _ _ sample_add_run[unfolded sample_ctl_def]]
  by (simp add: sample_flags) (simp add: sample_add_command_def)

end
